(* ===== verification/Notifier_Prelude.thy ===== *)
theory Notifier_Prelude
  imports Main "HOL-Library.Sublist" "HOL-Library.Multiset"
begin

text \<open>
  Shared material of the development: the theorem collections the component
  theories fill, and the facts about lists that the proofs about the token
  loop of \<^verbatim>\<open>src/functions/index.js\<close> rest on. Nothing here models code; the
  lemmas are stated over arbitrary element types, and the component theories
  instantiate them with driver documents and JavaScript values.

  \<^item> \<open>model_defs\<close> collects the defining equations of the operations of the
    model, so that \<open>simp add: model_defs\<close> evaluates a handler run.
  \<^item> \<open>promise_simps\<close> collects the laws of the promise combinators.
  \<^item> \<open>frame_rules\<close> collects the rules that say which part of the world an
    operation leaves alone.
\<close>

named_theorems model_defs "defining equations of the operations of the model"
named_theorems promise_simps "laws of the promise combinators"
named_theorems frame_rules "what an operation leaves unchanged"

section \<open>A loop that appends the selected elements\<close>

text \<open>
  The shape of \<^verbatim>\<open>xs.forEach(x => { if (p(x)) acc.push(f(x)) })\<close>: a left fold
  that appends to an accumulator. It computes a filter followed by a map,
  behind whatever the accumulator held.
\<close>

lemma foldl_push_if:
  "foldl (\<lambda>acc x. if P x then acc @ [f x] else acc) acc xs = acc @ map f (filter P xs)"
  by (induction xs arbitrary: acc) simp_all

lemma filter_map_comp: "filter P (map f xs) = map f (filter (\<lambda>x. P (f x)) xs)"
  by (simp add: filter_map comp_def)

section \<open>Selections keep order, multiplicity and size\<close>

lemma subseq_filter_map: "subseq (filter P (map f (filter Q xs))) (map f xs)"
proof -
  have "subseq (filter P (map f (filter Q xs))) (map f (filter Q xs))"
    by (rule subseq_filter_left)
  moreover have "subseq (map f (filter Q xs)) (map f xs)"
    by (rule subseq_map) (rule subseq_filter_left)
  ultimately show ?thesis
    by (rule subseq_order.trans)
qed

lemma length_filter_map_filter_le: "length (filter P (map f (filter Q xs))) \<le> length xs"
proof -
  have "length (filter P (map f (filter Q xs))) \<le> length (filter Q xs)"
    by (rule order_trans [OF length_filter_le]) simp
  also have "\<dots> \<le> length xs"
    by (rule length_filter_le)
  finally show ?thesis .
qed

lemma count_list_filter:
  "count_list (filter P xs) x = (if P x then count_list xs x else 0)"
  by (induction xs) auto

lemma count_list_map_inj:
  "inj_on f (set xs \<union> {x}) \<Longrightarrow> count_list (map f xs) (f x) = count_list xs x"
  by (induction xs) (auto simp: inj_on_def)

lemma distinct_filter_map:
  "distinct (map f xs) \<Longrightarrow> distinct (filter P (map f (filter Q xs)))"
  by (simp add: distinct_map_filter)

lemma filter_eq_Nil_iff_list_all: "filter P xs = [] \<longleftrightarrow> list_all (\<lambda>x. \<not> P x) xs"
  by (simp add: filter_empty_conv list_all_iff)

section \<open>Counting the entries of a journal by their key\<close>

text \<open>
  A list whose entries carry a key below \<open>n\<close> splits into the entries of each
  key: the entries that satisfy \<open>P\<close> are counted key by key.
\<close>

lemma sum_list_indicator:
  "(\<Sum>i\<leftarrow>[0..<n]. if k = i \<and> b then (1::nat) else 0) = (if k < n \<and> b then 1 else 0)"
  by (induction n) auto

lemma length_filter_by_key:
  assumes "\<And>x. x \<in> set xs \<Longrightarrow> key x < n"
  shows "length (filter P xs) = (\<Sum>i\<leftarrow>[0..<n]. length (filter (\<lambda>x. key x = i \<and> P x) xs))"
  using assms
proof (induction xs)
  case Nil
  then show ?case by simp
next
  case (Cons x xs)
  then have k: "key x < n"
    and IH: "length (filter P xs) = (\<Sum>i\<leftarrow>[0..<n]. length (filter (\<lambda>x. key x = i \<and> P x) xs))"
    by simp_all
  have "(\<Sum>i\<leftarrow>[0..<n]. length (filter (\<lambda>x. key x = i \<and> P x) (x # xs)))
      = (\<Sum>i\<leftarrow>[0..<n]. (if key x = i \<and> P x then 1 else 0)
           + length (filter (\<lambda>x. key x = i \<and> P x) xs))"
    by (rule arg_cong [where f = sum_list]) simp
  also have "\<dots> = (if P x then 1 else 0) + length (filter P xs)"
    using k by (simp add: sum_list_addf sum_list_indicator IH)
  finally show ?case by simp
qed

lemma sum_list_le_length:
  "(\<And>x. x \<in> set xs \<Longrightarrow> f x \<le> (1::nat)) \<Longrightarrow> sum_list (map f xs) \<le> length xs"
  by (induction xs) fastforce+

lemma sum_list_map_le:
  "(\<And>x. x \<in> set xs \<Longrightarrow> f x \<le> (k::nat)) \<Longrightarrow> sum_list (map f xs) \<le> k * length xs"
  by (induction xs) fastforce+

section \<open>Sums as results\<close>

text \<open>
  A call that can fail returns \<open>Inl\<close> of the error or \<open>Inr\<close> of the value.
  \<open>isl\<close>, \<open>projl\<close> and \<open>projr\<close> of the library read such a result.
\<close>

lemma sum_cases_iff: "(case r of Inl e \<Rightarrow> f e | Inr v \<Rightarrow> g v) = (if isl r then f (projl r) else g (projr r))"
  by (cases r) simp_all

lemma not_isl_iff: "\<not> isl r \<longleftrightarrow> (\<exists>v. r = Inr v)"
  by (cases r) simp_all

end
