(* ===== verification/Async.thy ===== *)
theory Async
  imports Notifier_Prelude
begin

text \<open>
  The \<^verbatim>\<open>async\<close> function of \<^verbatim>\<open>src/functions/index.js\<close> (line 7) and its two
  \<^verbatim>\<open>await\<close> points (lines 11 and 33), as computations over a world \<open>'w\<close>
  that settle with an error \<open>'e\<close> (the promise is rejected) or a value \<open>'a\<close>
  (it is resolved), and return the world as they left it.

  \<^item> \<open>resolve\<close> is \<^verbatim>\<open>return\<close> inside an async function;
  \<^item> \<open>reject\<close> is an exception that nothing catches;
  \<^item> \<open>await p k\<close> runs \<open>p\<close> and continues with \<open>k\<close> on its value; a rejection
    of \<open>p\<close> skips \<open>k\<close> and becomes the rejection of the whole, with the world
    as \<open>p\<close> left it: the handler has no \<^verbatim>\<open>try\<close>.

  The theory is generic in the world and in the error: the platform theory
  instantiates both. The rules at the end lift a relation between the world
  before and the world after from the steps of a computation to the whole; the
  frame and trace properties of the handler are instances.
\<close>

section \<open>Promises\<close>

type_synonym ('w, 'e, 'a) promise = "'w \<Rightarrow> ('e + 'a) \<times> 'w"

definition resolve :: "'a \<Rightarrow> ('w, 'e, 'a) promise" where
  "resolve x = (\<lambda>w. (Inr x, w))"

definition reject :: "'e \<Rightarrow> ('w, 'e, 'a) promise" where
  "reject e = (\<lambda>w. (Inl e, w))"

definition await :: "('w, 'e, 'a) promise \<Rightarrow> ('a \<Rightarrow> ('w, 'e, 'b) promise) \<Rightarrow> ('w, 'e, 'b) promise" where
  "await p k = (\<lambda>w. case p w of (Inl e, w') \<Rightarrow> (Inl e, w') | (Inr x, w') \<Rightarrow> k x w')"

definition settled :: "('w, 'e, 'a) promise \<Rightarrow> 'w \<Rightarrow> 'e + 'a" where
  "settled p w = fst (p w)"

definition world_after :: "('w, 'e, 'a) promise \<Rightarrow> 'w \<Rightarrow> 'w" where
  "world_after p w = snd (p w)"

declare resolve_def [model_defs] reject_def [model_defs] await_def [model_defs]
  settled_def [model_defs] world_after_def [model_defs]

section \<open>Laws\<close>

lemma await_resolve [promise_simps]: "await (resolve x) k = k x"
  by (simp add: await_def resolve_def)

lemma await_reject [promise_simps]: "await (reject e) k = reject e"
  by (simp add: await_def reject_def)

lemma await_then_resolve [promise_simps]: "await p resolve = p"
  by (auto simp: await_def resolve_def fun_eq_iff split: prod.splits sum.splits)

lemma await_assoc: "await (await p k) h = await p (\<lambda>x. await (k x) h)"
  by (auto simp: await_def fun_eq_iff split: prod.splits sum.splits)

lemma settled_resolve [promise_simps]: "settled (resolve x) w = Inr x"
  by (simp add: settled_def resolve_def)

lemma world_after_resolve [promise_simps]: "world_after (resolve x) w = w"
  by (simp add: world_after_def resolve_def)

lemma settled_reject [promise_simps]: "settled (reject e) w = Inl e"
  by (simp add: settled_def reject_def)

lemma world_after_reject [promise_simps]: "world_after (reject e) w = w"
  by (simp add: world_after_def reject_def)

text \<open>How an \<open>await\<close> settles, by how its first part settled.\<close>

lemma settled_await_Inl:
  "settled p w = Inl e \<Longrightarrow> settled (await p k) w = Inl e"
  by (cases "p w") (auto simp: settled_def await_def split: sum.splits)

lemma settled_await_Inr:
  "settled p w = Inr x \<Longrightarrow> settled (await p k) w = settled (k x) (world_after p w)"
  by (cases "p w") (auto simp: settled_def world_after_def await_def split: sum.splits)

lemma world_after_await_Inl:
  "settled p w = Inl e \<Longrightarrow> world_after (await p k) w = world_after p w"
  by (cases "p w") (auto simp: settled_def world_after_def await_def split: sum.splits)

lemma world_after_await_Inr:
  "settled p w = Inr x \<Longrightarrow> world_after (await p k) w = world_after (k x) (world_after p w)"
  by (cases "p w") (auto simp: settled_def world_after_def await_def split: sum.splits)

lemmas await_cases = settled_await_Inl settled_await_Inr world_after_await_Inl world_after_await_Inr

section \<open>Relating the world before and after\<close>

text \<open>
  \<open>preserves R p\<close>: whatever the world \<open>w\<close> and however \<open>p\<close> settles, the world it
  leaves is related to \<open>w\<close> by \<open>R\<close>. With \<open>R\<close> reflexive and transitive the
  property passes from the parts of a computation to the whole.
\<close>

definition preserves :: "('w \<Rightarrow> 'w \<Rightarrow> bool) \<Rightarrow> ('w, 'e, 'a) promise \<Rightarrow> bool" where
  "preserves R p \<longleftrightarrow> (\<forall>w. R w (world_after p w))"

lemma preservesI: "(\<And>w. R w (world_after p w)) \<Longrightarrow> preserves R p"
  by (simp add: preserves_def)

lemma preservesD: "preserves R p \<Longrightarrow> R w (world_after p w)"
  by (simp add: preserves_def)

lemma preserves_resolve [frame_rules]: "reflp R \<Longrightarrow> preserves R (resolve x)"
  by (simp add: preserves_def world_after_resolve reflpD)

lemma preserves_reject [frame_rules]: "reflp R \<Longrightarrow> preserves R (reject e)"
  by (simp add: preserves_def world_after_reject reflpD)

lemma preserves_await [frame_rules]:
  assumes "transp R" and p: "preserves R p" and k: "\<And>x. preserves R (k x)"
  shows "preserves R (await p k)"
proof (rule preservesI)
  fix w
  show "R w (world_after (await p k) w)"
  proof (cases "settled p w")
    case (Inl e)
    with p show ?thesis
      by (simp add: world_after_await_Inl preservesD)
  next
    case (Inr x)
    have "R w (world_after p w)" using p by (rule preservesD)
    moreover have "R (world_after p w) (world_after (k x) (world_after p w))"
      using k by (rule preservesD)
    ultimately have "R w (world_after (k x) (world_after p w))"
      using \<open>transp R\<close> by (blast dest: transpD)
    with Inr show ?thesis
      by (simp add: world_after_await_Inr)
  qed
qed

lemma preserves_if [frame_rules]:
  "preserves R p \<Longrightarrow> preserves R q \<Longrightarrow> preserves R (if b then p else q)"
  by simp

lemma preserves_let [frame_rules]:
  "(\<And>x. preserves R (f x)) \<Longrightarrow> preserves R (let x = v in f x)"
  by simp

section \<open>Sequencing\<close>

text \<open>
  The \<^verbatim>\<open>await\<close>s of an \<^verbatim>\<open>async\<close> function sequence: awaiting a resolved
  value continues with it, awaiting as the last statement is the awaited
  promise itself, an \<^verbatim>\<open>await\<close> inside an awaited function can be moved out,
  and a rejection skips every statement after the \<^verbatim>\<open>await\<close> however many
  follow.
\<close>

theorem await_sequencing:
  "await (resolve x) k = k x
   \<and> await p resolve = p
   \<and> await (await p k) h = await p (\<lambda>y. await (k y) h)
   \<and> await (await (reject e) k) h = reject e"
  by (simp add: await_resolve await_then_resolve await_assoc [symmetric] await_reject)

end
