(* ===== verification/JS_Value.thy ===== *)
theory JS_Value
  imports Notifier_Prelude
begin

text \<open>
  The JavaScript values that \<^verbatim>\<open>src/functions/index.js\<close> handles, and the three
  implicit conversions its statements perform on them:

  \<^item> \<open>truthy\<close> is the language's ToBoolean, applied by \<^verbatim>\<open>if (!requestData)\<close>
    (line 9) and \<^verbatim>\<open>if (data.fcmToken)\<close> (line 20);
  \<^item> \<open>get_field\<close> is the property read \<^verbatim>\<open>data.fcmToken\<close> (line 20) on the plain
    object that \<^verbatim>\<open>doc.data()\<close> returns: an absent property reads as
    \<^verbatim>\<open>undefined\<close>;
  \<^item> \<open>push\<close> is \<^verbatim>\<open>tokens.push(...)\<close> (line 20);
  \<^item> \<open>number_toString\<close> is the conversion a template literal applies to
    \<^verbatim>\<open>${response.successCount}\<close> (line 34).

  Numbers are IEEE doubles in the language. The model keeps the integral ones
  (\<open>JNum\<close>) and \<open>JNaN\<close>: every other double is truthy like a non-zero integer,
  and the handler applies no other operation to a number read from a
  document. \<open>number_toString\<close> is the decimal rendering, which is what the
  language prints for a non-negative integer below \<open>10^21\<close>; the count it is
  applied to is at most the number of tokens of one message.

  Strings are byte lists: the literals of the source file are kept as the
  UTF-8 bytes the file holds, and the only property of a string the handler
  tests is whether it is empty.
\<close>

section \<open>Values\<close>

datatype jsval =
    JUndefined
  | JNull
  | JBool bool
  | JNum int
  | JNaN
  | JStr string
  | JArr "jsval list"
  | JObj "(string \<times> jsval) list"

type_synonym fields = "(string \<times> jsval) list"

section \<open>ToBoolean\<close>

fun truthy :: "jsval \<Rightarrow> bool" where
  "truthy JUndefined = False"
| "truthy JNull = False"
| "truthy (JBool b) = b"
| "truthy (JNum n) = (n \<noteq> 0)"
| "truthy JNaN = False"
| "truthy (JStr s) = (s \<noteq> [])"
| "truthy (JArr xs) = True"
| "truthy (JObj fs) = True"

fun is_string :: "jsval \<Rightarrow> bool" where
  "is_string (JStr s) = True"
| "is_string v = False"

lemma truthy_not_undefined [simp]: "truthy v \<Longrightarrow> v \<noteq> JUndefined"
  by (cases v) simp_all

lemma truthy_not_null [simp]: "truthy v \<Longrightarrow> v \<noteq> JNull"
  by (cases v) simp_all

lemma is_string_iff: "is_string v \<longleftrightarrow> (\<exists>s. v = JStr s)"
  by (cases v) simp_all

lemma truthy_string_nonempty: "is_string v \<Longrightarrow> truthy v \<longleftrightarrow> v \<noteq> JStr []"
  by (cases v) simp_all

lemma falsy_cases:
  "\<not> truthy v \<longleftrightarrow> v \<in> {JUndefined, JNull, JBool False, JNum 0, JNaN, JStr []}"
  by (cases v) auto

section \<open>Property reads and array pushes\<close>

definition get_field :: "fields \<Rightarrow> string \<Rightarrow> jsval" where
  "get_field fs k = (case map_of fs k of None \<Rightarrow> JUndefined | Some v \<Rightarrow> v)"

definition push :: "'a list \<Rightarrow> 'a \<Rightarrow> 'a list" where
  "push xs x = xs @ [x]"

declare get_field_def [model_defs] push_def [model_defs]

lemma get_field_Nil [simp]: "get_field [] k = JUndefined"
  by (simp add: get_field_def)

lemma get_field_Cons [simp]:
  "get_field ((k', v) # fs) k = (if k' = k then v else get_field fs k)"
  by (simp add: get_field_def)

lemma get_field_absent: "k \<notin> fst ` set fs \<Longrightarrow> get_field fs k = JUndefined"
  by (simp add: get_field_def map_of_eq_None_iff [THEN iffD2])

lemma get_field_present:
  "distinct (map fst fs) \<Longrightarrow> (k, v) \<in> set fs \<Longrightarrow> get_field fs k = v"
  by (simp add: get_field_def)

lemma truthy_get_field_present: "truthy (get_field fs k) \<Longrightarrow> k \<in> fst ` set fs"
  by (rule ccontr) (simp add: get_field_absent)

lemma length_push [simp]: "length (push xs x) = Suc (length xs)"
  by (simp add: push_def)

lemma push_not_Nil [simp]: "push xs x \<noteq> []"
  by (simp add: push_def)

section \<open>Numbers in template literals\<close>

definition digit_char :: "nat \<Rightarrow> char" where
  "digit_char d = char_of (48 + d)"

fun number_toString :: "nat \<Rightarrow> string" where
  "number_toString n =
     (if n < 10 then [digit_char n]
      else number_toString (n div 10) @ [digit_char (n mod 10)])"

declare number_toString.simps [simp del]

text \<open>
  The reader of a decimal numeral. It is the inverse that the logged line is
  checked against, not a part of the handler.
\<close>

definition is_digit :: "char \<Rightarrow> bool" where
  "is_digit c \<longleftrightarrow> 48 \<le> (of_char c :: nat) \<and> (of_char c :: nat) \<le> 57"

definition digit_value :: "char \<Rightarrow> nat" where
  "digit_value c = of_char c - 48"

definition decimal_value :: "string \<Rightarrow> nat" where
  "decimal_value s = foldl (\<lambda>a c. 10 * a + digit_value c) 0 s"

definition parse_number :: "string \<Rightarrow> nat option" where
  "parse_number s = (if s \<noteq> [] \<and> list_all is_digit s then Some (decimal_value s) else None)"

lemma digit_value_digit_char [simp]: "d < 10 \<Longrightarrow> digit_value (digit_char d) = d"
  by (simp add: digit_value_def digit_char_def)

lemma is_digit_digit_char [simp]: "d < 10 \<Longrightarrow> is_digit (digit_char d)"
  by (simp add: is_digit_def digit_char_def)

lemma decimal_value_snoc [simp]:
  "decimal_value (s @ [c]) = 10 * decimal_value s + digit_value c"
  by (simp add: decimal_value_def)

lemma decimal_value_single [simp]: "decimal_value [c] = digit_value c"
  by (simp add: decimal_value_def)

lemma number_toString_not_Nil [simp]: "number_toString n \<noteq> []"
  by (subst number_toString.simps) simp

lemma number_toString_digits: "list_all is_digit (number_toString n)"
proof (induction n rule: number_toString.induct)
  case (1 n)
  show ?case
  proof (cases "n < 10")
    case True
    then show ?thesis by (subst number_toString.simps) simp
  next
    case False
    with "1.IH" show ?thesis by (subst number_toString.simps) simp
  qed
qed

lemma decimal_value_number_toString [simp]: "decimal_value (number_toString n) = n"
proof (induction n rule: number_toString.induct)
  case (1 n)
  show ?case
  proof (cases "n < 10")
    case True
    then show ?thesis by (subst number_toString.simps) simp
  next
    case False
    with "1.IH" show ?thesis by (subst number_toString.simps) simp
  qed
qed

text \<open>
  The decimal rendering that the template literal of line 34 applies to
  a count can be read back: parsing the printed numeral gives the count.
\<close>

theorem number_toString_roundtrip: "parse_number (number_toString n) = Some n"
  by (simp add: parse_number_def number_toString_digits)

lemma number_toString_inj: "number_toString m = number_toString n \<longleftrightarrow> m = n"
  by (metis decimal_value_number_toString)

lemma number_toString_small: "n < 10 \<Longrightarrow> number_toString n = [digit_char n]"
  by (subst number_toString.simps) simp

lemma hd_number_toString_nonzero:
  "0 < n \<Longrightarrow> hd (number_toString n) \<noteq> digit_char 0"
proof (induction n rule: number_toString.induct)
  case (1 n)
  show ?case
  proof (cases "n < 10")
    case True
    with "1.prems" show ?thesis
      by (subst number_toString.simps) (simp add: digit_char_def)
  next
    case False
    then have "0 < n div 10" by simp
    with False "1.IH" have "hd (number_toString (n div 10)) \<noteq> digit_char 0" by simp
    with False show ?thesis by (subst number_toString.simps) simp
  qed
qed

end
