(* ===== verification/Firestore.thy ===== *)
theory Firestore
  imports JS_Value
begin

text \<open>
  The document database as the handler of \<^verbatim>\<open>src/functions/index.js\<close> uses it:

  \<^item> the snapshot \<^verbatim>\<open>snap\<close> that the trigger passes (line 7) and its
    \<^verbatim>\<open>snap.data()\<close> (line 8), which is an object or \<^verbatim>\<open>undefined\<close>;
  \<^item> the query \<^verbatim>\<open>collection("drivers").where("isAvailable", "==", true)\<close>
    (lines 11 to 13), built by \<open>collection\<close> and \<open>where_eq\<close>;
  \<^item> what \<^verbatim>\<open>get()\<close> (line 14) reads from a database: \<open>run_query\<close>, the
    documents of the collection that satisfy every clause, in the order the
    collection holds them;
  \<^item> \<^verbatim>\<open>doc.data()\<close> (line 19) of a document of the result: \<open>doc_data\<close>.

  A database maps a collection path to the list of its documents; a path
  that names no collection gives the empty list, as the service does. The
  equality clause compares the stored value with HOL equality, which is the
  service's comparison for the booleans, strings and integers the handler
  asks for. Whether \<^verbatim>\<open>get()\<close> fails is decided by the platform theory; this
  theory is the pure part.
\<close>

section \<open>Documents and snapshots\<close>

record document =
  doc_id :: string
  doc_fields :: fields

record snapshot =
  snap_path :: string
  snap_fields :: "fields option"

type_synonym database = "string \<Rightarrow> document list"

definition data :: "snapshot \<Rightarrow> jsval" where
  "data snap = (case snap_fields snap of None \<Rightarrow> JUndefined | Some fs \<Rightarrow> JObj fs)"

definition doc_data :: "document \<Rightarrow> fields" where
  "doc_data doc = doc_fields doc"

declare data_def [model_defs] doc_data_def [model_defs]

lemma truthy_data_iff: "truthy (data snap) \<longleftrightarrow> snap_fields snap \<noteq> None"
  by (simp add: data_def split: option.splits)

lemma data_empty_object_truthy: "snap_fields snap = Some [] \<Longrightarrow> truthy (data snap)"
  by (simp add: truthy_data_iff)

section \<open>Queries\<close>

record query =
  q_path :: string
  q_filters :: "(string \<times> jsval) list"

definition collection :: "string \<Rightarrow> query" where
  "collection path = \<lparr>q_path = path, q_filters = []\<rparr>"

definition where_eq :: "query \<Rightarrow> string \<Rightarrow> jsval \<Rightarrow> query" where
  "where_eq q field v = q\<lparr>q_filters := q_filters q @ [(field, v)]\<rparr>"

definition matches :: "document \<Rightarrow> string \<times> jsval \<Rightarrow> bool" where
  "matches doc clause \<longleftrightarrow> map_of (doc_fields doc) (fst clause) = Some (snd clause)"

definition satisfies :: "query \<Rightarrow> document \<Rightarrow> bool" where
  "satisfies q doc \<longleftrightarrow> list_all (matches doc) (q_filters q)"

definition run_query :: "database \<Rightarrow> query \<Rightarrow> document list" where
  "run_query db q = filter (satisfies q) (db (q_path q))"

declare collection_def [model_defs] where_eq_def [model_defs] matches_def [model_defs]
  satisfies_def [model_defs] run_query_def [model_defs]

lemma q_path_where_eq [simp]: "q_path (where_eq q field v) = q_path q"
  by (simp add: where_eq_def)

lemma q_path_collection [simp]: "q_path (collection path) = path"
  by (simp add: collection_def)

lemma satisfies_where_eq:
  "satisfies (where_eq q field v) doc \<longleftrightarrow> satisfies q doc \<and> matches doc (field, v)"
  by (auto simp: satisfies_def where_eq_def)

lemma satisfies_collection [simp]: "satisfies (collection path) doc"
  by (simp add: satisfies_def collection_def)

lemma matches_get_field: "matches doc (field, v) \<Longrightarrow> get_field (doc_fields doc) field = v"
  by (simp add: matches_def get_field_def)

lemma get_field_matches:
  "get_field (doc_fields doc) field = v \<Longrightarrow> v \<noteq> JUndefined \<Longrightarrow> matches doc (field, v)"
  by (auto simp: matches_def get_field_def split: option.splits)

text \<open>A query with a single equality clause on a collection: the handler's.\<close>

lemma run_query_where_eq:
  "run_query db (where_eq (collection path) field v) =
     filter (\<lambda>doc. matches doc (field, v)) (db path)"
  unfolding run_query_def by (rule filter_cong) (simp_all add: satisfies_where_eq)

section \<open>What a query returns\<close>

lemma set_run_query: "set (run_query db q) = {doc \<in> set (db (q_path q)). satisfies q doc}"
  by (simp add: run_query_def)

lemma run_query_sound: "doc \<in> set (run_query db q) \<Longrightarrow> satisfies q doc"
  by (simp add: set_run_query)

lemma run_query_complete:
  "doc \<in> set (db (q_path q)) \<Longrightarrow> satisfies q doc \<Longrightarrow> doc \<in> set (run_query db q)"
  by (simp add: set_run_query)

lemma subseq_run_query: "subseq (run_query db q) (db (q_path q))"
  by (simp add: run_query_def)

lemma length_run_query_le: "length (run_query db q) \<le> length (db (q_path q))"
  by (simp add: run_query_def)

lemma run_query_empty_collection [simp]: "db (q_path q) = [] \<Longrightarrow> run_query db q = []"
  by (simp add: run_query_def)

text \<open>
  The service returns the documents of a query in the order of their
  identifiers. Whatever order the collection is kept in, the result keeps it.
\<close>

lemma sorted_wrt_run_query:
  "sorted_wrt R (db (q_path q)) \<Longrightarrow> sorted_wrt R (run_query db q)"
  by (simp add: run_query_def sorted_wrt_filter)

lemma run_query_cong:
  "db (q_path q) = db' (q_path q) \<Longrightarrow> run_query db q = run_query db' q"
  by (simp add: run_query_def)

section \<open>Well-formed collections\<close>

text \<open>
  The service keeps the identifiers of a collection's documents distinct and
  the field names of a document distinct. A query result inherits both.
\<close>

definition wf_document :: "document \<Rightarrow> bool" where
  "wf_document doc \<longleftrightarrow> distinct (map fst (doc_fields doc))"

definition wf_collection :: "document list \<Rightarrow> bool" where
  "wf_collection docs \<longleftrightarrow> distinct (map doc_id docs) \<and> list_all wf_document docs"

lemma wf_collection_Nil [simp]: "wf_collection []"
  by (simp add: wf_collection_def)

lemma wf_collection_filter: "wf_collection docs \<Longrightarrow> wf_collection (filter P docs)"
  by (auto simp: wf_collection_def distinct_map_filter list_all_iff)

lemma wf_run_query: "wf_collection (db (q_path q)) \<Longrightarrow> wf_collection (run_query db q)"
  by (simp add: run_query_def wf_collection_filter)

lemma wf_collection_distinct: "wf_collection docs \<Longrightarrow> distinct docs"
  by (simp add: wf_collection_def distinct_map)

lemma matches_iff_get_field:
  "v \<noteq> JUndefined \<Longrightarrow> matches doc (field, v) \<longleftrightarrow> get_field (doc_fields doc) field = v"
  by (auto simp: matches_def get_field_def split: option.splits)

text \<open>
  A query with one equality clause on a collection, as the handler
  builds it in lines 11 to 14, returns exactly the documents of the
  collection whose field reads as the value asked for, in the order of the
  collection, each once; a document without the field is not returned.
\<close>

theorem where_eq_query_exact:
  assumes "wf_collection (db path)" and "v \<noteq> JUndefined"
  shows "run_query db (where_eq (collection path) field v)
      = filter (\<lambda>doc. get_field (doc_fields doc) field = v) (db path)
    \<and> distinct (run_query db (where_eq (collection path) field v))"
proof -
  from assms(1) have "wf_collection (run_query db (where_eq (collection path) field v))"
    by (simp add: wf_run_query)
  with assms(2) show ?thesis
    by (simp add: run_query_where_eq matches_iff_get_field wf_collection_distinct cong: filter_cong)
qed

theorem where_eq_query_exact_witness:
  "wf_collection
      [\<lparr>doc_id = ''d1'', doc_fields = [(''isAvailable'', JBool True)]\<rparr>,
       \<lparr>doc_id = ''d2'', doc_fields = []\<rparr>]
   \<and> JBool True \<noteq> JUndefined
   \<and> run_query
        (\<lambda>path. [\<lparr>doc_id = ''d1'', doc_fields = [(''isAvailable'', JBool True)]\<rparr>,
                  \<lparr>doc_id = ''d2'', doc_fields = []\<rparr>])
        (where_eq (collection ''drivers'') ''isAvailable'' (JBool True))
      = [\<lparr>doc_id = ''d1'', doc_fields = [(''isAvailable'', JBool True)]\<rparr>]"
  using where_eq_query_exact
    [of "\<lambda>path. [\<lparr>doc_id = ''d1'', doc_fields = [(''isAvailable'', JBool True)]\<rparr>,
                  \<lparr>doc_id = ''d2'', doc_fields = []\<rparr>]"
      "''drivers''" "JBool True" "''isAvailable''"]
  by (simp add: wf_collection_def wf_document_def)

end
