(* ===== verification/Messaging.thy ===== *)
theory Messaging
  imports JS_Value
begin

text \<open>
  The values exchanged with the push service by \<^verbatim>\<open>src/functions/index.js\<close>:

  \<^item> the object literal \<^verbatim>\<open>message\<close> of lines 25 to 31, a \<open>multicast_message\<close>
    whose \<open>notification\<close> has a \<open>title\<close> and a \<open>body\<close> and whose \<open>tokens\<close> is the
    array the loop filled. The array holds whatever values the loop pushed,
    so its elements are JavaScript values, not strings;
  \<^item> the \<^verbatim>\<open>response\<close> of \<^verbatim>\<open>sendMulticast\<close> (line 33), of which the handler reads
    \<^verbatim>\<open>successCount\<close> only (line 34).

  \<open>well_addressed\<close> says what the push service expects of a message, a
  non-empty list of non-empty strings. It is a property to prove of the
  messages the handler builds, not a check the handler makes.
\<close>

section \<open>Messages and responses\<close>

record notification =
  title :: string
  body :: string

record multicast_message =
  notification :: notification
  tokens :: "jsval list"

record batch_response =
  successCount :: nat

section \<open>What the service expects\<close>

definition well_addressed :: "multicast_message \<Rightarrow> bool" where
  "well_addressed m \<longleftrightarrow> tokens m \<noteq> [] \<and> list_all (\<lambda>t. is_string t \<and> truthy t) (tokens m)"

lemma well_addressedI:
  "tokens m \<noteq> [] \<Longrightarrow> list_all is_string (tokens m) \<Longrightarrow> list_all truthy (tokens m) \<Longrightarrow>
   well_addressed m"
  by (simp add: well_addressed_def list_all_iff)

lemma well_addressed_nonempty: "well_addressed m \<Longrightarrow> tokens m \<noteq> []"
  by (simp add: well_addressed_def)

lemma well_addressed_strings:
  "well_addressed m \<Longrightarrow> t \<in> set (tokens m) \<Longrightarrow> \<exists>s. t = JStr s \<and> s \<noteq> []"
  by (cases t) (auto simp: well_addressed_def list_all_iff)

end
