(* ===== verification/Platform.thy ===== *)
theory Platform
  imports Async Firestore Messaging
begin

text \<open>
  The services that \<^verbatim>\<open>src/functions/index.js\<close> reaches through the \<^verbatim>\<open>admin\<close>
  module, as operations on a world:

  \<^item> \<open>initializeApp\<close> is \<^verbatim>\<open>admin.initializeApp()\<close> (line 3), which creates the
    default app; every later \<^verbatim>\<open>admin.firestore()\<close> and \<^verbatim>\<open>admin.messaging()\<close>
    throws when there is none;
  \<^item> \<open>firestore_get\<close> is \<^verbatim>\<open>admin.firestore() ... .get()\<close> (lines 11 to 14);
  \<^item> \<open>sendMulticast\<close> is \<^verbatim>\<open>admin.messaging().sendMulticast(message)\<close>
    (line 33);
  \<^item> \<open>console_log\<close> is \<^verbatim>\<open>console.log\<close> (line 34).

  The world holds what the handler can observe or change: whether the app
  exists, the database, and the \<open>trace\<close>, the list of the calls made to the
  services so far, oldest first. The handler has no state of its own.

  What the services answer is not the handler's choice. A \<open>platform\<close> value
  fixes it for one run: \<open>get_fault\<close> says whether a query fails and how,
  \<open>multicast\<close> what the push service answers to a message. Theorems quantify
  over the platform, so they hold whatever the services do.

  An \<open>error\<close> is what a call can throw: \<open>NoApp\<close> and \<open>AppExists\<close> by the
  \<^verbatim>\<open>admin\<close> module, \<open>FirestoreError\<close> and \<open>MessagingError\<close> by the two
  services, \<open>ModuleNotFound\<close> by \<^verbatim>\<open>require\<close> (lines 1 and 2) of a package
  that is not installed.
\<close>

section \<open>The world\<close>

datatype error =
    NoApp
  | AppExists
  | FirestoreError string
  | MessagingError string
  | ModuleNotFound string

datatype effect =
    FirestoreGet query
  | SendMulticast multicast_message
  | ConsoleLog string

record world =
  app_initialized :: bool
  firestore :: database
  trace :: "effect list"

record platform =
  get_fault :: "query \<Rightarrow> error option"
  multicast :: "multicast_message \<Rightarrow> error + batch_response"

type_synonym 'a io = "(world, error, 'a) promise"

definition emit :: "effect \<Rightarrow> world \<Rightarrow> world" where
  "emit e w = w\<lparr>trace := push (trace w) e\<rparr>"

section \<open>The calls\<close>

definition initializeApp :: "unit io" where
  "initializeApp = (\<lambda>w.
     if app_initialized w then (Inl AppExists, w)
     else (Inr (), w\<lparr>app_initialized := True\<rparr>))"

definition firestore_get :: "platform \<Rightarrow> query \<Rightarrow> document list io" where
  "firestore_get pf q = (\<lambda>w.
     if \<not> app_initialized w then (Inl NoApp, w)
     else case get_fault pf q of
            Some e \<Rightarrow> (Inl e, emit (FirestoreGet q) w)
          | None \<Rightarrow> (Inr (run_query (firestore w) q), emit (FirestoreGet q) w))"

definition sendMulticast :: "platform \<Rightarrow> multicast_message \<Rightarrow> batch_response io" where
  "sendMulticast pf m = (\<lambda>w.
     if \<not> app_initialized w then (Inl NoApp, w)
     else (multicast pf m, emit (SendMulticast m) w))"

definition console_log :: "string \<Rightarrow> unit io" where
  "console_log s = (\<lambda>w. (Inr (), emit (ConsoleLog s) w))"

declare emit_def [model_defs] initializeApp_def [model_defs] firestore_get_def [model_defs]
  sendMulticast_def [model_defs] console_log_def [model_defs]

section \<open>Reading a trace\<close>

fun sent_of :: "effect \<Rightarrow> multicast_message option" where
  "sent_of (SendMulticast m) = Some m"
| "sent_of e = None"

fun logged_of :: "effect \<Rightarrow> string option" where
  "logged_of (ConsoleLog s) = Some s"
| "logged_of e = None"

fun queried_of :: "effect \<Rightarrow> query option" where
  "queried_of (FirestoreGet q) = Some q"
| "queried_of e = None"

definition sent :: "effect list \<Rightarrow> multicast_message list" where
  "sent es = List.map_filter sent_of es"

definition logged :: "effect list \<Rightarrow> string list" where
  "logged es = List.map_filter logged_of es"

definition queried :: "effect list \<Rightarrow> query list" where
  "queried es = List.map_filter queried_of es"

lemma sent_Nil [simp]: "sent [] = []"
  and logged_Nil [simp]: "logged [] = []"
  and queried_Nil [simp]: "queried [] = []"
  by (simp_all add: sent_def logged_def queried_def)

lemma sent_Cons [simp]:
  "sent (e # es) = (case sent_of e of None \<Rightarrow> sent es | Some m \<Rightarrow> m # sent es)"
  by (simp add: sent_def split: option.splits)

lemma logged_Cons [simp]:
  "logged (e # es) = (case logged_of e of None \<Rightarrow> logged es | Some s \<Rightarrow> s # logged es)"
  by (simp add: logged_def split: option.splits)

lemma queried_Cons [simp]:
  "queried (e # es) = (case queried_of e of None \<Rightarrow> queried es | Some q \<Rightarrow> q # queried es)"
  by (simp add: queried_def split: option.splits)

lemma sent_append [simp]: "sent (es @ fs) = sent es @ sent fs"
  by (induction es) (simp_all split: option.splits)

lemma logged_append [simp]: "logged (es @ fs) = logged es @ logged fs"
  by (induction es) (simp_all split: option.splits)

lemma queried_append [simp]: "queried (es @ fs) = queried es @ queried fs"
  by (induction es) (simp_all split: option.splits)

lemma sent_mem_iff: "m \<in> set (sent es) \<longleftrightarrow> SendMulticast m \<in> set es"
  by (induction es) (auto split: option.splits elim: sent_of.elims)

lemma length_sent: "length (sent es) = length (filter (\<lambda>e. sent_of e \<noteq> None) es)"
  by (induction es) (auto split: option.splits)

section \<open>Frame conditions\<close>

text \<open>
  \<open>same_store\<close>: the database is untouched. \<open>same_app\<close>: so is the app.
  \<open>trace_extends\<close>: the trace only grows at its end. All three are reflexive
  and transitive, so \<open>preserves\<close> of the promise theory composes them along a
  computation.
\<close>

definition same_store :: "world \<Rightarrow> world \<Rightarrow> bool" where
  "same_store w w' \<longleftrightarrow> firestore w' = firestore w"

definition same_app :: "world \<Rightarrow> world \<Rightarrow> bool" where
  "same_app w w' \<longleftrightarrow> app_initialized w' = app_initialized w"

definition trace_extends :: "world \<Rightarrow> world \<Rightarrow> bool" where
  "trace_extends w w' \<longleftrightarrow> prefix (trace w) (trace w')"

lemma reflp_frames [simp]: "reflp same_store" "reflp same_app" "reflp trace_extends"
  by (auto simp: reflp_def same_store_def same_app_def trace_extends_def)

lemma transp_frames [simp]: "transp same_store" "transp same_app" "transp trace_extends"
  by (auto simp: transp_def same_store_def same_app_def trace_extends_def)

lemma firestore_emit [simp]: "firestore (emit e w) = firestore w"
  and app_initialized_emit [simp]: "app_initialized (emit e w) = app_initialized w"
  and trace_emit [simp]: "trace (emit e w) = trace w @ [e]"
  by (simp_all add: emit_def push_def)

lemma preserves_firestore_get [frame_rules]:
  "preserves same_store (firestore_get pf q)"
  "preserves same_app (firestore_get pf q)"
  "preserves trace_extends (firestore_get pf q)"
  by (auto simp: preserves_def world_after_def firestore_get_def same_store_def same_app_def
      trace_extends_def split: option.splits)

lemma preserves_sendMulticast [frame_rules]:
  "preserves same_store (sendMulticast pf m)"
  "preserves same_app (sendMulticast pf m)"
  "preserves trace_extends (sendMulticast pf m)"
  by (auto simp: preserves_def world_after_def sendMulticast_def same_store_def same_app_def
      trace_extends_def)

lemma preserves_console_log [frame_rules]:
  "preserves same_store (console_log s)"
  "preserves same_app (console_log s)"
  "preserves trace_extends (console_log s)"
  by (auto simp: preserves_def world_after_def console_log_def same_store_def same_app_def
      trace_extends_def)

lemma preserves_initializeApp [frame_rules]:
  "preserves same_store initializeApp"
  "preserves trace_extends initializeApp"
  by (auto simp: preserves_def world_after_def initializeApp_def same_store_def trace_extends_def)

section \<open>How the calls settle\<close>

lemma initializeApp_fresh:
  "\<not> app_initialized w \<Longrightarrow> initializeApp w = (Inr (), w\<lparr>app_initialized := True\<rparr>)"
  by (simp add: initializeApp_def)

lemma initializeApp_twice: "app_initialized w \<Longrightarrow> initializeApp w = (Inl AppExists, w)"
  by (simp add: initializeApp_def)

lemma firestore_get_no_app:
  "\<not> app_initialized w \<Longrightarrow> firestore_get pf q w = (Inl NoApp, w)"
  by (simp add: firestore_get_def)

lemma firestore_get_fault:
  "app_initialized w \<Longrightarrow> get_fault pf q = Some e \<Longrightarrow>
   firestore_get pf q w = (Inl e, emit (FirestoreGet q) w)"
  by (simp add: firestore_get_def)

lemma firestore_get_ok:
  "app_initialized w \<Longrightarrow> get_fault pf q = None \<Longrightarrow>
   firestore_get pf q w = (Inr (run_query (firestore w) q), emit (FirestoreGet q) w)"
  by (simp add: firestore_get_def)

lemma sendMulticast_no_app:
  "\<not> app_initialized w \<Longrightarrow> sendMulticast pf m w = (Inl NoApp, w)"
  by (simp add: sendMulticast_def)

lemma sendMulticast_app:
  "app_initialized w \<Longrightarrow> sendMulticast pf m w = (multicast pf m, emit (SendMulticast m) w)"
  by (simp add: sendMulticast_def)

lemmas call_simps = firestore_get_no_app firestore_get_fault firestore_get_ok
  sendMulticast_no_app sendMulticast_app initializeApp_fresh initializeApp_twice

end
