(* ===== verification/Contract.thy ===== *)
theory Contract
  imports Platform
begin

text \<open>
  What the specification promises of the function, independently of the
  code: the data model of a driver, the contract \<open>notifier_spec\<close> of one
  invocation by cases, and the contract for many requests as a machine
  (\<open>spec_step\<close>, \<open>spec_run\<close>) in which every request is served on its own.
  Nothing here is taken from \<^verbatim>\<open>src/functions/index.js\<close>; only the type of
  errors is shared with the model of the code. The lemmas show that serving
  one request on the machine gives the result of the contract.
\<close>

section \<open>The contract of the specification\<close>

text \<open>
  The specification's data model gives a driver two attributes, the flag
  \<^verbatim>\<open>isAvailable\<close> and the optional string \<^verbatim>\<open>fcmToken\<close>, and describes the
  function by cases: nothing happens without a payload; a failed query fails
  the invocation; without a recipient nothing is sent; otherwise one message
  goes to the non-empty tokens of the available drivers in query order, and
  its failure fails the invocation, its success is logged with the count.
\<close>

record driver =
  available :: bool
  token :: "string option"

datatype spec_result =
    Skipped
  | NoRecipients
  | QueryFailed error
  | SendFailed "string list" error
  | Notified "string list" nat

definition spec_title :: string where
  "spec_title = [CHR 0xF0, CHR 0x9F, CHR 0x86, CHR 0x98] @ '' New Ambulance Request''"

definition spec_body :: string where
  "spec_body = ''Tap to accept a nearby emergency request''"

definition recipient :: "driver \<Rightarrow> string option" where
  "recipient d =
     (if available d
      then (case token d of None \<Rightarrow> None | Some t \<Rightarrow> if t = [] then None else Some t)
      else None)"

definition recipients :: "driver list \<Rightarrow> string list" where
  "recipients ds = List.map_filter recipient ds"

definition notifier_spec ::
  "bool \<Rightarrow> error option \<Rightarrow> driver list \<Rightarrow> (string list \<Rightarrow> error + nat) \<Rightarrow> spec_result" where
  "notifier_spec present fault ds deliver =
     (if \<not> present then Skipped
      else case fault of
          Some e \<Rightarrow> QueryFailed e
        | None \<Rightarrow>
           let ts = recipients ds in
           if ts = [] then NoRecipients
           else case deliver ts of Inl e \<Rightarrow> SendFailed ts e | Inr n \<Rightarrow> Notified ts n)"

section \<open>The contract for many requests\<close>

text \<open>
  The specification lets requests be served concurrently and independently.
  As a machine over typed drivers: a request is created with or without a
  payload, is started, has the drivers read and its recipients fixed when the
  query is answered, and finishes with a result of the contract when the
  push service answers. \<open>spec_react\<close> is one step of one request,
  \<open>spec_step\<close> one step of the machine, \<open>spec_run\<close> a sequence of steps.
\<close>

datatype request =
    Created bool
  | Querying
  | Sending "string list"
  | Finished spec_result

datatype spec_action =
    Stutter
  | Create bool
  | Update "driver list"
  | Start nat
  | Answer nat "error option"
  | Deliver nat "error + nat"

record spec_system =
  drivers :: "driver list"
  requests :: "request list"

definition spec_init :: spec_system where
  "spec_init = \<lparr>drivers = [], requests = []\<rparr>"

fun spec_react :: "driver list \<Rightarrow> spec_action \<Rightarrow> request \<Rightarrow> request option" where
  "spec_react ds (Start i) (Created present) =
     Some (if present then Querying else Finished Skipped)"
| "spec_react ds (Answer i (Some e)) Querying = Some (Finished (QueryFailed e))"
| "spec_react ds (Answer i None) Querying =
     Some (if recipients ds = [] then Finished NoRecipients else Sending (recipients ds))"
| "spec_react ds (Deliver i (Inl e)) (Sending ts) = Some (Finished (SendFailed ts e))"
| "spec_react ds (Deliver i (Inr n)) (Sending ts) = Some (Finished (Notified ts n))"
| "spec_react ds a r = None"

definition spec_move :: "spec_system \<Rightarrow> nat \<Rightarrow> spec_action \<Rightarrow> spec_system option" where
  "spec_move S i a =
     (if i < length (requests S)
      then map_option (\<lambda>r. S\<lparr>requests := (requests S)[i := r]\<rparr>)
        (spec_react (drivers S) a (requests S ! i))
      else None)"

fun spec_step :: "spec_system \<Rightarrow> spec_action \<Rightarrow> spec_system option" where
  "spec_step S Stutter = Some S"
| "spec_step S (Create present) = Some (S\<lparr>requests := requests S @ [Created present]\<rparr>)"
| "spec_step S (Update ds) = Some (S\<lparr>drivers := ds\<rparr>)"
| "spec_step S (Start i) = spec_move S i (Start i)"
| "spec_step S (Answer i fault) = spec_move S i (Answer i fault)"
| "spec_step S (Deliver i answer) = spec_move S i (Deliver i answer)"

fun spec_run :: "spec_system \<Rightarrow> spec_action list \<Rightarrow> spec_system option" where
  "spec_run S [] = Some S"
| "spec_run S (a # as) = Option.bind (spec_step S a) (\<lambda>S'. spec_run S' as)"

text \<open>
  \<open>spec_serve\<close> serves one request without anything in between: it is
  started, the query is answered and the push service answers. A step that
  the request cannot take, because it has finished before, is left out.
\<close>

definition spec_try :: "spec_system \<Rightarrow> spec_action \<Rightarrow> spec_system" where
  "spec_try S a = (case spec_step S a of None \<Rightarrow> S | Some S' \<Rightarrow> S')"

definition spec_serve ::
  "nat \<Rightarrow> error option \<Rightarrow> (string list \<Rightarrow> error + nat) \<Rightarrow> spec_system \<Rightarrow> spec_system" where
  "spec_serve i fault deliver S =
     foldl spec_try S [Start i, Answer i fault, Deliver i (deliver (recipients (drivers S)))]"

section \<open>The recipients of a list of drivers\<close>

lemma recipients_Nil [simp]: "recipients [] = []"
  by (simp add: recipients_def)

lemma recipients_Cons [simp]:
  "recipients (d # ds) = (case recipient d of None \<Rightarrow> recipients ds | Some t \<Rightarrow> t # recipients ds)"
  by (simp add: recipients_def split: option.splits)

section \<open>The machine of the contract serves one request as the contract says\<close>

text \<open>
  On the machine of the contract, a request that is created and then
  served without anything in between finishes with the result that the
  contract gives for its payload, the fault of the query, the drivers of
  the machine and the push service.
\<close>

lemma spec_serve_contract:
  assumes "i < length (requests S)" and "requests S ! i = Created present"
  shows "requests (spec_serve i fault deliver S) ! i
    = Finished (notifier_spec present fault (drivers S) deliver)"
  using assms
  by (cases fault; cases "deliver (recipients (drivers S))")
    (simp_all add: spec_serve_def spec_try_def spec_move_def notifier_spec_def Let_def)

lemma spec_serve_contract_example:
  "0 < length (requests \<lparr>drivers = [\<lparr>available = True, token = Some ''A''\<rparr>], requests = [Created True]\<rparr>)
   \<and> requests \<lparr>drivers = [\<lparr>available = True, token = Some ''A''\<rparr>], requests = [Created True]\<rparr> ! 0
      = Created True
   \<and> requests (spec_serve 0 None (\<lambda>ts. Inr (length ts))
        \<lparr>drivers = [\<lparr>available = True, token = Some ''A''\<rparr>], requests = [Created True]\<rparr>) ! 0
      = Finished (Notified [''A''] 1)"
  using spec_serve_contract [of 0
      "\<lparr>drivers = [\<lparr>available = True, token = Some ''A''\<rparr>], requests = [Created True]\<rparr>"
      True None "\<lambda>ts. Inr (length ts)"]
  by (simp add: notifier_spec_def recipient_def)

end
