(* ===== verification/Notifier.thy ===== *)
theory Notifier
  imports Platform
begin

text \<open>
  The handler \<^verbatim>\<open>sendDriverNotification\<close> of \<^verbatim>\<open>src/functions/index.js\<close> (lines
  5 to 35), statement by statement:

  \<^item> \<open>drivers_query\<close> is the query of lines 11 to 13;
  \<^item> \<open>fcmToken\<close> is the read \<^verbatim>\<open>data.fcmToken\<close>, \<open>push_token\<close> the callback of
    \<^verbatim>\<open>forEach\<close> (lines 18 to 21) as a function of the array it closes over, and
    \<open>collect_tokens\<close> the loop with the empty array of line 16;
  \<^item> \<open>build_message\<close> is the object literal of lines 25 to 31 with the two
    string literals \<open>notification_title\<close> and \<open>notification_body\<close>;
  \<^item> \<open>log_line\<close> is the template literal of line 34;
  \<^item> \<open>sendDriverNotification\<close> composes them with the two early returns
    (lines 9 and 23) and the two \<^verbatim>\<open>await\<close>s.

  The second parameter \<^verbatim>\<open>context\<close> of the handler is kept, at any type: the
  body never reads it.

  The lemmas give the loop as a filter of a map, the run of the handler on
  every branch (\<open>sendDriverNotification_run\<close>), and from these the properties
  of a run: which calls it makes and in what order, what it sends to whom,
  what it logs, what it leaves untouched and how it fails.
\<close>

section \<open>The handler\<close>

definition notification_title :: string where
  "notification_title = [CHR 0xF0, CHR 0x9F, CHR 0x86, CHR 0x98] @ '' New Ambulance Request''"

definition notification_body :: string where
  "notification_body = ''Tap to accept a nearby emergency request''"

definition drivers_query :: query where
  "drivers_query = where_eq (collection ''drivers'') ''isAvailable'' (JBool True)"

definition fcmToken :: "document \<Rightarrow> jsval" where
  "fcmToken doc = get_field (doc_data doc) ''fcmToken''"

definition push_token :: "jsval list \<Rightarrow> document \<Rightarrow> jsval list" where
  "push_token toks doc = (if truthy (fcmToken doc) then push toks (fcmToken doc) else toks)"

definition collect_tokens :: "document list \<Rightarrow> jsval list" where
  "collect_tokens driverSnapshot = foldl push_token [] driverSnapshot"

definition build_message :: "jsval list \<Rightarrow> multicast_message" where
  "build_message toks =
     \<lparr>notification = \<lparr>title = notification_title, body = notification_body\<rparr>, tokens = toks\<rparr>"

definition log_prefix :: string where
  "log_prefix = [CHR 0xE2, CHR 0x9C, CHR 0x85] @ '' Sent to ''"

definition log_suffix :: string where
  "log_suffix = '' drivers.''"

definition log_line :: "batch_response \<Rightarrow> string" where
  "log_line response = log_prefix @ number_toString (successCount response) @ log_suffix"

definition sendDriverNotification :: "platform \<Rightarrow> snapshot \<Rightarrow> 'c \<Rightarrow> unit io" where
  "sendDriverNotification pf snap context =
     (let requestData = data snap in
      if \<not> truthy requestData then resolve ()
      else await (firestore_get pf drivers_query) (\<lambda>driverSnapshot.
        let toks = collect_tokens driverSnapshot in
        if length toks = 0 then resolve ()
        else let message = build_message toks in
          await (sendMulticast pf message) (\<lambda>response.
            console_log (log_line response))))"

declare notification_title_def [model_defs] notification_body_def [model_defs]
  drivers_query_def [model_defs] fcmToken_def [model_defs] push_token_def [model_defs]
  collect_tokens_def [model_defs] build_message_def [model_defs] log_prefix_def [model_defs]
  log_suffix_def [model_defs] log_line_def [model_defs] sendDriverNotification_def [model_defs]

section \<open>What a run is observed by\<close>

text \<open>
  \<open>is_available\<close> is the clause of the query on one document, and
  \<open>available_tokens\<close> the tokens the loop collects from a database.
  \<open>new_effects\<close> are the calls that a computation added to the trace.
\<close>

definition is_available :: "document \<Rightarrow> bool" where
  "is_available doc \<longleftrightarrow> matches doc (''isAvailable'', JBool True)"

definition available_drivers :: "database \<Rightarrow> document list" where
  "available_drivers db = run_query db drivers_query"

definition available_tokens :: "database \<Rightarrow> jsval list" where
  "available_tokens db = collect_tokens (available_drivers db)"

definition new_effects :: "'a io \<Rightarrow> world \<Rightarrow> effect list" where
  "new_effects p w = drop (length (trace w)) (trace (world_after p w))"

text \<open>
  \<open>logged_count\<close> reads the count back from a logged line: the text between
  the fixed beginning and the fixed end of the template, if it is a decimal
  numeral.
\<close>

definition logged_count :: "string \<Rightarrow> nat option" where
  "logged_count line =
     (if prefix log_prefix line \<and> suffix log_suffix (drop (length log_prefix) line)
      then parse_number
        (take (length line - length log_prefix - length log_suffix) (drop (length log_prefix) line))
      else None)"

section \<open>The loop\<close>

lemma foldl_push_token:
  "foldl push_token acc docs = acc @ filter truthy (map fcmToken docs)"
proof -
  have loop: "push_token = (\<lambda>acc doc. if truthy (fcmToken doc) then acc @ [fcmToken doc] else acc)"
    by (simp add: push_token_def push_def fun_eq_iff)
  show ?thesis
    unfolding loop by (simp add: foldl_push_if filter_map_comp)
qed

lemma collect_tokens_eq: "collect_tokens docs = filter truthy (map fcmToken docs)"
  by (simp add: collect_tokens_def foldl_push_token)

lemma collect_tokens_Nil [simp]: "collect_tokens [] = []"
  by (simp add: collect_tokens_eq)

lemma collect_tokens_Cons [simp]:
  "collect_tokens (doc # docs) =
     (if truthy (fcmToken doc) then fcmToken doc # collect_tokens docs else collect_tokens docs)"
  by (simp add: collect_tokens_eq)

lemma collect_tokens_append [simp]:
  "collect_tokens (xs @ ys) = collect_tokens xs @ collect_tokens ys"
  by (simp add: collect_tokens_eq)

lemma set_collect_tokens:
  "set (collect_tokens docs) = {t \<in> fcmToken ` set docs. truthy t}"
  by (auto simp: collect_tokens_eq)

lemma collect_tokens_truthy: "list_all truthy (collect_tokens docs)"
  by (simp add: collect_tokens_eq list_all_iff)

lemma collect_tokens_empty_iff:
  "collect_tokens docs = [] \<longleftrightarrow> list_all (\<lambda>doc. \<not> truthy (fcmToken doc)) docs"
  by (simp add: collect_tokens_eq filter_map_comp filter_eq_Nil_iff_list_all)

lemma length_collect_tokens:
  "length (collect_tokens docs) = length (filter (\<lambda>doc. truthy (fcmToken doc)) docs)"
  by (simp add: collect_tokens_eq filter_map_comp)

section \<open>The query\<close>

lemma available_drivers_eq: "available_drivers db = filter is_available (db ''drivers'')"
  unfolding available_drivers_def drivers_query_def run_query_where_eq
  by (rule filter_cong) (simp_all add: is_available_def)

lemma available_tokens_eq:
  "available_tokens db = filter truthy (map fcmToken (filter is_available (db ''drivers'')))"
  by (simp add: available_tokens_def collect_tokens_eq available_drivers_eq)

lemma q_path_drivers_query [simp]: "q_path drivers_query = ''drivers''"
  by (simp add: drivers_query_def)

lemma is_available_iff:
  "is_available doc \<longleftrightarrow> get_field (doc_fields doc) ''isAvailable'' = JBool True"
  by (auto simp: is_available_def dest: matches_get_field intro: get_field_matches)

lemma available_drivers_sound: "doc \<in> set (available_drivers db) \<Longrightarrow> is_available doc"
  by (simp add: available_drivers_eq)

lemma subseq_available_tokens: "subseq (available_tokens db) (map fcmToken (db ''drivers''))"
  unfolding available_tokens_eq by (rule subseq_filter_map)

lemma length_available_tokens_le: "length (available_tokens db) \<le> length (db ''drivers'')"
  unfolding available_tokens_eq by (rule length_filter_map_filter_le)

lemma available_tokens_truthy: "list_all truthy (available_tokens db)"
  by (simp add: available_tokens_def collect_tokens_truthy)

lemma set_available_tokens:
  "set (available_tokens db) =
     {t. \<exists>doc \<in> set (db ''drivers''). is_available doc \<and> fcmToken doc = t \<and> truthy t}"
  by (auto simp: available_tokens_eq)

section \<open>The logged line\<close>

lemma logged_count_log_line: "logged_count (log_line r) = Some (successCount r)"
  by (simp add: logged_count_def log_line_def parse_number_def number_toString_digits suffix_def)

lemma log_line_inj: "log_line r = log_line r' \<longleftrightarrow> successCount r = successCount r'"
  by (metis logged_count_log_line log_line_def option.inject)

section \<open>A run, branch by branch\<close>

text \<open>
  The handler applied to a world, with the promise combinators and the loop
  evaluated: the result and the world it leaves on each of its six paths.
\<close>

lemma sendDriverNotification_run:
  "sendDriverNotification pf snap ctx w =
    (if \<not> truthy (data snap) then (Inr (), w)
     else if \<not> app_initialized w then (Inl NoApp, w)
     else case get_fault pf drivers_query of
        Some e \<Rightarrow> (Inl e, emit (FirestoreGet drivers_query) w)
      | None \<Rightarrow>
         let toks = available_tokens (firestore w); w1 = emit (FirestoreGet drivers_query) w in
         if toks = [] then (Inr (), w1)
         else let w2 = emit (SendMulticast (build_message toks)) w1 in
           case multicast pf (build_message toks) of
             Inl e \<Rightarrow> (Inl e, w2)
           | Inr r \<Rightarrow> (Inr (), emit (ConsoleLog (log_line r)) w2))"
  by (simp add: sendDriverNotification_def await_def firestore_get_def sendMulticast_def
      console_log_def resolve_def Let_def available_tokens_def available_drivers_def
      split: option.splits sum.splits)

lemma new_effects_run:
  "new_effects (sendDriverNotification pf snap ctx) w =
    (if \<not> truthy (data snap) \<or> \<not> app_initialized w then []
     else FirestoreGet drivers_query #
       (if get_fault pf drivers_query \<noteq> None \<or> available_tokens (firestore w) = [] then []
        else SendMulticast (build_message (available_tokens (firestore w))) #
          (case multicast pf (build_message (available_tokens (firestore w))) of
             Inl e \<Rightarrow> [] | Inr r \<Rightarrow> [ConsoleLog (log_line r)])))"
  by (simp add: new_effects_def world_after_def sendDriverNotification_run Let_def
      split: option.splits sum.splits)

lemma settled_run:
  "settled (sendDriverNotification pf snap ctx) w =
    (if \<not> truthy (data snap) then Inr ()
     else if \<not> app_initialized w then Inl NoApp
     else case get_fault pf drivers_query of
        Some e \<Rightarrow> Inl e
      | None \<Rightarrow>
         if available_tokens (firestore w) = [] then Inr ()
         else case multicast pf (build_message (available_tokens (firestore w))) of
                Inl e \<Rightarrow> Inl e | Inr r \<Rightarrow> Inr ())"
  by (simp add: settled_def sendDriverNotification_run Let_def split: option.splits sum.splits)

lemma trace_after_run:
  "trace (world_after (sendDriverNotification pf snap ctx) w) =
     trace w @ new_effects (sendDriverNotification pf snap ctx) w"
  by (simp add: new_effects_def world_after_def sendDriverNotification_run Let_def
      split: option.splits sum.splits)

lemmas run_simps = new_effects_run settled_run

text \<open>
  A relation between the worlds that every service call keeps is kept by the
  handler: the rules of the promise theory, applied along its body.
\<close>

lemma preserves_sendDriverNotification:
  assumes "reflp R" and "transp R"
    and "\<And>q. preserves R (firestore_get pf q)"
    and "\<And>m. preserves R (sendMulticast pf m)"
    and "\<And>s. preserves R (console_log s)"
  shows "preserves R (sendDriverNotification pf snap ctx)"
  unfolding sendDriverNotification_def Let_def
  by (intro preserves_if preserves_await preserves_resolve assms)

section \<open>A worked run\<close>

text \<open>
  The example of the specification's testable property 3, extended by a
  driver who is not available: four driver documents, of which three are
  available and two of those have a token. The platform of the example
  answers every query and reports every token as delivered.
\<close>

definition driver_A :: document where
  "driver_A =
     \<lparr>doc_id = ''driverA'', doc_fields = [(''isAvailable'', JBool True), (''fcmToken'', JStr ''A'')]\<rparr>"

definition driver_B :: document where
  "driver_B =
     \<lparr>doc_id = ''driverB'', doc_fields = [(''fcmToken'', JStr ''B''), (''isAvailable'', JBool True)]\<rparr>"

definition driver_C :: document where
  "driver_C = \<lparr>doc_id = ''driverC'', doc_fields = [(''isAvailable'', JBool True)]\<rparr>"

definition driver_D :: document where
  "driver_D =
     \<lparr>doc_id = ''driverD'', doc_fields = [(''isAvailable'', JBool False), (''fcmToken'', JStr ''D'')]\<rparr>"

definition example_db :: database where
  "example_db = (\<lambda>path. if path = ''drivers'' then [driver_A, driver_D, driver_B, driver_C] else [])"

definition example_world :: world where
  "example_world = \<lparr>app_initialized = True, firestore = example_db, trace = []\<rparr>"

definition example_platform :: platform where
  "example_platform =
     \<lparr>get_fault = (\<lambda>q. None), multicast = (\<lambda>m. Inr \<lparr>successCount = length (tokens m)\<rparr>)\<rparr>"

definition example_snapshot :: snapshot where
  "example_snapshot =
     \<lparr>snap_path = ''requests/r1'', snap_fields = Some [(''pickup'', JStr ''Main St'')]\<rparr>"

lemmas example_defs = driver_A_def driver_B_def driver_C_def driver_D_def example_db_def
  example_world_def example_platform_def example_snapshot_def

lemma example_tokens: "available_tokens example_db = [JStr ''A'', JStr ''B'']"
  by (simp add: available_tokens_eq example_defs is_available_iff fcmToken_def doc_data_def)

lemma example_ready:
  "truthy (data example_snapshot)" "app_initialized example_world"
  "get_fault example_platform q = None" "firestore example_world = example_db"
  "multicast example_platform m = Inr \<lparr>successCount = length (tokens m)\<rparr>"
  by (simp_all add: example_defs data_def)

section \<open>What is sent, and to whom\<close>

text \<open>
  C2. The loop of lines 16 to 21, started with any array, appends to it the
  \<^verbatim>\<open>fcmToken\<close> of every document whose \<^verbatim>\<open>fcmToken\<close> is truthy, in the order of
  the documents, and nothing else.
\<close>

theorem forEach_loop_filter_map:
  "foldl push_token acc docs = acc @ [fcmToken doc. doc \<leftarrow> docs, truthy (fcmToken doc)]"
proof -
  have "[fcmToken doc. doc \<leftarrow> docs, truthy (fcmToken doc)] = filter truthy (map fcmToken docs)"
    by (induction docs) simp_all
  then show ?thesis
    by (simp add: foldl_push_token)
qed

text \<open>
  C3. When the payload is present, the app exists, the query succeeds and some
  available driver has a token, the handler calls \<^verbatim>\<open>sendMulticast\<close> exactly
  once, with the fixed title and body and with the truthy tokens of the
  available drivers in the order of the collection.
\<close>

theorem notify_sends_tokens_once:
  assumes "truthy (data snap)" and "app_initialized w" and "get_fault pf drivers_query = None"
    and "available_tokens (firestore w) \<noteq> []"
  shows "sent (new_effects (sendDriverNotification pf snap ctx) w) =
     [\<lparr>notification = \<lparr>title = notification_title, body = notification_body\<rparr>,
       tokens = filter truthy (map fcmToken (filter is_available (firestore w ''drivers'')))\<rparr>]"
  using assms
  by (simp add: new_effects_run build_message_def available_tokens_eq split: sum.splits)

theorem notify_sends_tokens_once_witness:
  "truthy (data example_snapshot) \<and> app_initialized example_world
   \<and> get_fault example_platform drivers_query = None
   \<and> available_tokens (firestore example_world) \<noteq> []
   \<and> sent (new_effects (sendDriverNotification example_platform example_snapshot ()) example_world)
     = [\<lparr>notification = \<lparr>title = notification_title, body = notification_body\<rparr>,
        tokens = [JStr ''A'', JStr ''B'']\<rparr>]"
  using notify_sends_tokens_once [of example_snapshot example_world example_platform "()"]
    example_tokens [unfolded available_tokens_eq]
  by (simp add: example_ready example_tokens)

text \<open>
  C4. Every token of a message the handler sends is the truthy \<^verbatim>\<open>fcmToken\<close> of
  a document of the drivers collection whose \<^verbatim>\<open>isAvailable\<close> is \<^verbatim>\<open>true\<close>: a
  driver who is not available is not addressed, unless an available driver
  has the same token.
\<close>

theorem notify_only_available_drivers:
  assumes "m \<in> set (sent (new_effects (sendDriverNotification pf snap ctx) w))"
    and "t \<in> set (tokens m)"
  shows "\<exists>doc \<in> set (firestore w ''drivers''). is_available doc \<and> fcmToken doc = t \<and> truthy t"
proof -
  from assms(1) have "m = build_message (available_tokens (firestore w))"
    by (simp add: new_effects_run split: if_splits sum.splits)
  with assms(2) have "t \<in> set (available_tokens (firestore w))"
    by (simp add: build_message_def)
  then show ?thesis
    by (simp add: set_available_tokens)
qed

theorem notify_only_available_drivers_witness:
  "build_message [JStr ''A'', JStr ''B'']
      \<in> set (sent (new_effects (sendDriverNotification example_platform example_snapshot ()) example_world))
   \<and> JStr ''B'' \<in> set (tokens (build_message [JStr ''A'', JStr ''B'']))
   \<and> (\<exists>doc \<in> set (firestore example_world ''drivers'').
         is_available doc \<and> fcmToken doc = JStr ''B'' \<and> truthy (JStr ''B''))"
  using notify_only_available_drivers [of "build_message [JStr ''A'', JStr ''B'']"
      example_platform example_snapshot "()" example_world "JStr ''B''"]
  by (simp add: new_effects_run example_ready example_tokens build_message_def)

text \<open>
  C5. When the payload is present, the app exists and the query succeeds,
  every available driver with a truthy token is addressed: the handler sends a
  message whose tokens contain that driver's token.
\<close>

theorem notify_every_available_driver:
  assumes "truthy (data snap)" and "app_initialized w" and "get_fault pf drivers_query = None"
    and "doc \<in> set (firestore w ''drivers'')" and "is_available doc" and "truthy (fcmToken doc)"
  shows "\<exists>m \<in> set (sent (new_effects (sendDriverNotification pf snap ctx) w)).
           fcmToken doc \<in> set (tokens m)"
proof -
  from assms(4-6) have "fcmToken doc \<in> set (available_tokens (firestore w))"
    by (auto simp: set_available_tokens)
  moreover from this have "available_tokens (firestore w) \<noteq> []"
    by auto
  ultimately show ?thesis
    using assms(1-3) by (simp add: new_effects_run build_message_def split: sum.splits)
qed

theorem notify_every_available_driver_witness:
  "truthy (data example_snapshot) \<and> app_initialized example_world
   \<and> get_fault example_platform drivers_query = None
   \<and> driver_B \<in> set (firestore example_world ''drivers'') \<and> is_available driver_B
   \<and> truthy (fcmToken driver_B)
   \<and> (\<exists>m \<in> set (sent (new_effects (sendDriverNotification example_platform example_snapshot ())
          example_world)). fcmToken driver_B \<in> set (tokens m))"
  using notify_every_available_driver [of example_snapshot example_world example_platform
      driver_B "()"]
  by (simp add: example_ready example_db_def is_available_iff fcmToken_def doc_data_def driver_B_def)

text \<open>
  C6. Whatever the payload, the database and the answers of the services, one
  run of the handler makes at most one query, at most one \<^verbatim>\<open>sendMulticast\<close>
  call and writes at most one log line.
\<close>

theorem notify_calls_at_most_once:
  "length (queried (new_effects (sendDriverNotification pf snap ctx) w)) \<le> 1
   \<and> length (sent (new_effects (sendDriverNotification pf snap ctx) w)) \<le> 1
   \<and> length (logged (new_effects (sendDriverNotification pf snap ctx) w)) \<le> 1"
  by (simp add: new_effects_run split: sum.splits)

text \<open>
  C7. If no document of the drivers collection has \<^verbatim>\<open>isAvailable\<close> equal to
  \<^verbatim>\<open>true\<close>, the handler sends nothing and logs nothing, whatever the payload
  and the platform.
\<close>

theorem notify_no_available_driver:
  assumes "list_all (\<lambda>doc. \<not> is_available doc) (firestore w ''drivers'')"
  shows "sent (new_effects (sendDriverNotification pf snap ctx) w) = []
    \<and> logged (new_effects (sendDriverNotification pf snap ctx) w) = []"
proof -
  from assms have "filter is_available (firestore w ''drivers'') = []"
    by (simp add: filter_eq_Nil_iff_list_all)
  then have "available_tokens (firestore w) = []"
    by (simp add: available_tokens_eq)
  then show ?thesis
    by (simp add: new_effects_run)
qed

theorem notify_no_available_driver_witness:
  "list_all (\<lambda>doc. \<not> is_available doc)
      (firestore (example_world\<lparr>firestore := (\<lambda>path. [driver_D])\<rparr>) ''drivers'')
   \<and> sent (new_effects (sendDriverNotification example_platform example_snapshot ())
        (example_world\<lparr>firestore := (\<lambda>path. [driver_D])\<rparr>)) = []
   \<and> logged (new_effects (sendDriverNotification example_platform example_snapshot ())
        (example_world\<lparr>firestore := (\<lambda>path. [driver_D])\<rparr>)) = []"
  using notify_no_available_driver [of "example_world\<lparr>firestore := (\<lambda>path. [driver_D])\<rparr>"
      example_platform example_snapshot "()"]
  by (simp add: is_available_iff driver_D_def)

text \<open>
  C8. If no available driver has a truthy \<^verbatim>\<open>fcmToken\<close> (the field is missing,
  null or the empty string), the handler sends nothing and logs nothing.
\<close>

theorem notify_no_token:
  assumes "list_all (\<lambda>doc. \<not> truthy (fcmToken doc)) (available_drivers (firestore w))"
  shows "sent (new_effects (sendDriverNotification pf snap ctx) w) = []
    \<and> logged (new_effects (sendDriverNotification pf snap ctx) w) = []"
proof -
  from assms have "available_tokens (firestore w) = []"
    by (simp add: available_tokens_def collect_tokens_empty_iff)
  then show ?thesis
    by (simp add: new_effects_run)
qed

theorem notify_no_token_witness:
  "list_all (\<lambda>doc. \<not> truthy (fcmToken doc))
      (available_drivers (firestore (example_world\<lparr>firestore := (\<lambda>path. [driver_C, driver_D])\<rparr>)))
   \<and> sent (new_effects (sendDriverNotification example_platform example_snapshot ())
        (example_world\<lparr>firestore := (\<lambda>path. [driver_C, driver_D])\<rparr>)) = []
   \<and> logged (new_effects (sendDriverNotification example_platform example_snapshot ())
        (example_world\<lparr>firestore := (\<lambda>path. [driver_C, driver_D])\<rparr>)) = []"
  using notify_no_token [of "example_world\<lparr>firestore := (\<lambda>path. [driver_C, driver_D])\<rparr>"
      example_platform example_snapshot "()"]
  by (simp add: available_drivers_eq is_available_iff fcmToken_def doc_data_def
      driver_C_def driver_D_def)

text \<open>
  C9. If \<^verbatim>\<open>snap.data()\<close> is \<^verbatim>\<open>undefined\<close>, the handler resolves and leaves the
  world as it found it: no query, no message, no log line.
\<close>

theorem notify_absent_data:
  assumes "snap_fields snap = None"
  shows "sendDriverNotification pf snap ctx w = (Inr (), w)"
  using assms by (simp add: sendDriverNotification_run truthy_data_iff)

theorem notify_absent_data_witness:
  "snap_fields \<lparr>snap_path = ''requests/r1'', snap_fields = None\<rparr> = None
   \<and> sendDriverNotification example_platform \<lparr>snap_path = ''requests/r1'', snap_fields = None\<rparr> ()
       example_world = (Inr (), example_world)"
  using notify_absent_data [of "\<lparr>snap_path = ''requests/r1'', snap_fields = None\<rparr>"
      example_platform "()" example_world]
  by simp

text \<open>
  C10. Every message the handler sends has the title and the body of the
  source's literals, byte for byte, whatever the payload, the database and
  the platform.
\<close>

theorem notify_fixed_notification:
  "list_all (\<lambda>m. title (notification m) =
        [CHR 0xF0, CHR 0x9F, CHR 0x86, CHR 0x98] @ '' New Ambulance Request''
      \<and> body (notification m) = ''Tap to accept a nearby emergency request'')
     (sent (new_effects (sendDriverNotification pf snap ctx) w))"
  by (simp add: new_effects_run build_message_def notification_title_def notification_body_def
      split: sum.splits)

text \<open>
  The tokens of a sent message are a subsequence of the \<^verbatim>\<open>fcmToken\<close>
  values of the drivers collection: the order of the collection is kept.
\<close>

theorem notify_tokens_in_query_order:
  "list_all (\<lambda>m. subseq (tokens m) (map fcmToken (firestore w ''drivers'')))
     (sent (new_effects (sendDriverNotification pf snap ctx) w))"
  by (simp add: new_effects_run build_message_def subseq_available_tokens split: sum.splits)

text \<open>
  Tokens are not deduplicated: a truthy token occurs in the collected
  list as often as it occurs among the available drivers, and a falsy value
  never occurs.
\<close>

theorem notify_keeps_duplicates:
  "count_list (available_tokens db) t =
     (if truthy t then count_list (map fcmToken (available_drivers db)) t else 0)"
  by (simp add: available_tokens_def collect_tokens_eq count_list_filter)

section \<open>What is logged\<close>

text \<open>
  C24. When the push service answers with a response, the handler writes one
  log line, and the count read back from that line is the response's
  \<^verbatim>\<open>successCount\<close>.
\<close>

theorem notify_logs_success_count:
  assumes "truthy (data snap)" and "app_initialized w" and "get_fault pf drivers_query = None"
    and "available_tokens (firestore w) \<noteq> []"
    and "multicast pf (build_message (available_tokens (firestore w))) = Inr r"
  shows "map logged_count (logged (new_effects (sendDriverNotification pf snap ctx) w))
     = [Some (successCount r)]"
  using assms by (simp add: new_effects_run logged_count_log_line)

theorem notify_logs_success_count_witness:
  "truthy (data example_snapshot) \<and> app_initialized example_world
   \<and> get_fault example_platform drivers_query = None
   \<and> available_tokens (firestore example_world) \<noteq> []
   \<and> multicast example_platform (build_message (available_tokens (firestore example_world)))
       = Inr \<lparr>successCount = 2\<rparr>
   \<and> map logged_count
       (logged (new_effects (sendDriverNotification example_platform example_snapshot ()) example_world))
     = [Some 2]"
  using notify_logs_success_count [of example_snapshot example_world example_platform
      "\<lparr>successCount = 2\<rparr>" "()"]
  by (simp add: example_ready example_tokens build_message_def)

section \<open>What is left untouched\<close>

text \<open>
  C25. The handler is read-only on the database and on the app, and it only
  appends to the trace of calls: after a run, whatever its outcome, the
  database and the app are what they were, and what was recorded before the
  run is a prefix of what is recorded after it.
\<close>

theorem notify_read_only:
  "firestore (world_after (sendDriverNotification pf snap ctx) w) = firestore w
   \<and> app_initialized (world_after (sendDriverNotification pf snap ctx) w) = app_initialized w
   \<and> prefix (trace w) (trace (world_after (sendDriverNotification pf snap ctx) w))"
proof -
  have "preserves same_store (sendDriverNotification pf snap ctx)"
    and "preserves same_app (sendDriverNotification pf snap ctx)"
    and "preserves trace_extends (sendDriverNotification pf snap ctx)"
    by (rule preserves_sendDriverNotification; simp add: frame_rules)+
  then show ?thesis
    by (simp add: preserves_def same_store_def same_app_def trace_extends_def)
qed

text \<open>
  The handler reads nothing of the payload but whether it is there, and
  nothing of \<^verbatim>\<open>context\<close>: two invocations whose snapshots both have data are
  the same computation.
\<close>

theorem notify_payload_independent:
  assumes "truthy (data snap)" and "truthy (data snap')"
  shows "sendDriverNotification pf snap ctx = sendDriverNotification pf snap' ctx'"
  using assms by (simp add: fun_eq_iff sendDriverNotification_run)

theorem notify_payload_independent_witness:
  "truthy (data example_snapshot)
   \<and> truthy (data \<lparr>snap_path = ''requests/r2'', snap_fields = Some []\<rparr>)
   \<and> sendDriverNotification example_platform example_snapshot ()
      = sendDriverNotification example_platform
          \<lparr>snap_path = ''requests/r2'', snap_fields = Some []\<rparr> True"
  using notify_payload_independent [of example_snapshot
      "\<lparr>snap_path = ''requests/r2'', snap_fields = Some []\<rparr>" example_platform "()" True]
  by (simp add: example_ready truthy_data_iff example_snapshot_def)

section \<open>How a run fails\<close>

text \<open>
  C26. If the query fails, the handler rejects with the error of the query;
  the query is the only call it made: nothing is sent and nothing is logged.
\<close>

theorem notify_query_failure:
  assumes "truthy (data snap)" and "app_initialized w" and "get_fault pf drivers_query = Some e"
  shows "sendDriverNotification pf snap ctx w = (Inl e, emit (FirestoreGet drivers_query) w)"
  using assms by (simp add: sendDriverNotification_run)

theorem notify_query_failure_witness:
  "truthy (data example_snapshot) \<and> app_initialized example_world
   \<and> get_fault (example_platform\<lparr>get_fault := (\<lambda>q. Some (FirestoreError ''unavailable''))\<rparr>)
       drivers_query = Some (FirestoreError ''unavailable'')
   \<and> sendDriverNotification
        (example_platform\<lparr>get_fault := (\<lambda>q. Some (FirestoreError ''unavailable''))\<rparr>)
        example_snapshot () example_world
      = (Inl (FirestoreError ''unavailable''), emit (FirestoreGet drivers_query) example_world)"
  using notify_query_failure [of example_snapshot example_world
      "example_platform\<lparr>get_fault := (\<lambda>q. Some (FirestoreError ''unavailable''))\<rparr>"
      "FirestoreError ''unavailable''" "()"]
  by (simp add: example_ready)

text \<open>
  C27. If \<^verbatim>\<open>sendMulticast\<close> fails, the handler rejects with its error after
  the query and the one send call; no log line is written and the send is
  not repeated.
\<close>

theorem notify_send_failure:
  assumes "truthy (data snap)" and "app_initialized w" and "get_fault pf drivers_query = None"
    and "available_tokens (firestore w) \<noteq> []"
    and "multicast pf (build_message (available_tokens (firestore w))) = Inl e"
  shows "settled (sendDriverNotification pf snap ctx) w = Inl e
    \<and> new_effects (sendDriverNotification pf snap ctx) w =
        [FirestoreGet drivers_query, SendMulticast (build_message (available_tokens (firestore w)))]"
  using assms by (simp add: run_simps)

theorem notify_send_failure_witness:
  "truthy (data example_snapshot) \<and> app_initialized example_world
   \<and> get_fault (example_platform\<lparr>multicast := (\<lambda>m. Inl (MessagingError ''quota''))\<rparr>)
        drivers_query = None
   \<and> available_tokens (firestore example_world) \<noteq> []
   \<and> multicast (example_platform\<lparr>multicast := (\<lambda>m. Inl (MessagingError ''quota''))\<rparr>)
        (build_message (available_tokens (firestore example_world))) = Inl (MessagingError ''quota'')
   \<and> settled (sendDriverNotification
        (example_platform\<lparr>multicast := (\<lambda>m. Inl (MessagingError ''quota''))\<rparr>) example_snapshot ())
        example_world = Inl (MessagingError ''quota'')
   \<and> new_effects (sendDriverNotification
        (example_platform\<lparr>multicast := (\<lambda>m. Inl (MessagingError ''quota''))\<rparr>) example_snapshot ())
        example_world
      = [FirestoreGet drivers_query, SendMulticast (build_message [JStr ''A'', JStr ''B''])]"
  using notify_send_failure [of example_snapshot example_world
      "example_platform\<lparr>multicast := (\<lambda>m. Inl (MessagingError ''quota''))\<rparr>"
      "MessagingError ''quota''" "()"]
  by (simp add: example_ready example_tokens)

text \<open>
  Without the \<^verbatim>\<open>admin.initializeApp()\<close> of line 3, a handler whose
  payload is present rejects at \<^verbatim>\<open>admin.firestore()\<close> before any call is made.
\<close>

theorem notify_without_app:
  assumes "truthy (data snap)" and "\<not> app_initialized w"
  shows "sendDriverNotification pf snap ctx w = (Inl NoApp, w)"
  using assms by (simp add: sendDriverNotification_run)

theorem notify_without_app_witness:
  "truthy (data example_snapshot) \<and> \<not> app_initialized (example_world\<lparr>app_initialized := False\<rparr>)
   \<and> sendDriverNotification example_platform example_snapshot ()
        (example_world\<lparr>app_initialized := False\<rparr>)
      = (Inl NoApp, example_world\<lparr>app_initialized := False\<rparr>)"
  using notify_without_app [of example_snapshot "example_world\<lparr>app_initialized := False\<rparr>"
      example_platform "()"]
  by (simp add: example_ready)

text \<open>
  Once the app exists, the handler rejects only with an error that a
  service returned: the error of the query, or the error of the send of the
  message it built.
\<close>

lemma notify_rejects_only_on_service_error:
  assumes "app_initialized w" and "settled (sendDriverNotification pf snap ctx) w = Inl e"
  shows "get_fault pf drivers_query = Some e
    \<or> multicast pf (build_message (available_tokens (firestore w))) = Inl e"
  using assms by (auto simp: settled_run split: if_splits option.splits sum.splits)

lemma notify_rejects_only_on_service_error_example:
  "app_initialized example_world
   \<and> settled (sendDriverNotification
        (example_platform\<lparr>multicast := (\<lambda>m. Inl (MessagingError ''quota''))\<rparr>) example_snapshot ())
        example_world = Inl (MessagingError ''quota'')
   \<and> (get_fault (example_platform\<lparr>multicast := (\<lambda>m. Inl (MessagingError ''quota''))\<rparr>)
          drivers_query = Some (MessagingError ''quota'')
      \<or> multicast (example_platform\<lparr>multicast := (\<lambda>m. Inl (MessagingError ''quota''))\<rparr>)
          (build_message (available_tokens (firestore example_world)))
         = Inl (MessagingError ''quota''))"
  using notify_rejects_only_on_service_error [of example_world
      "example_platform\<lparr>multicast := (\<lambda>m. Inl (MessagingError ''quota''))\<rparr>"
      example_snapshot "()" "MessagingError ''quota''"]
  by (simp add: settled_run example_ready example_tokens)

text \<open>
  The handler resolves exactly when the payload is absent, or the app
  exists, the query succeeds and either no token was collected or the send
  succeeds.
\<close>

theorem notify_resolves_iff:
  "settled (sendDriverNotification pf snap ctx) w = Inr () \<longleftrightarrow>
     \<not> truthy (data snap)
     \<or> app_initialized w \<and> get_fault pf drivers_query = None
        \<and> (available_tokens (firestore w) = []
           \<or> \<not> isl (multicast pf (build_message (available_tokens (firestore w)))))"
  by (auto simp: settled_run split: option.splits sum.splits)

theorem notify_resolves_iff_witness:
  "settled (sendDriverNotification example_platform example_snapshot ()) example_world = Inr ()"
  using notify_resolves_iff [of example_platform example_snapshot "()" example_world]
  by (simp add: example_ready example_tokens)

end
