(* ===== verification/Invocations.thy ===== *)
theory Invocations
  imports Notifier Trigger
begin

text \<open>
  Many invocations of the handler of \<^verbatim>\<open>src/functions/index.js\<close> at once. The
  platform starts one invocation per created request and runs them
  independently; each is suspended at its two \<^verbatim>\<open>await\<close>s (lines 11 and 33),
  and between the steps of one invocation others may run and other flows may
  write the database.

  An invocation is a program counter \<open>pc\<close>: started with its snapshot,
  waiting for the query, waiting for the send with the message it built,
  resolved or rejected. A \<open>system\<close> holds whether the module is loaded (line
  3 has run), the database, the program counters of the invocations so far,
  and the \<open>journal\<close> of the calls made, each with the invocation that made
  it. An \<open>action\<close> is one atomic step: the load of the module, a trigger, a
  write to the database by another flow, or one invocation running from one
  suspension point to the next, with the answer of the service it waited
  for as a parameter of the action. A trigger starts an invocation only on a
  loaded module and only with the snapshot of a document whose path matches
  the pattern of the registration (\<open>triggers\<close> of the trigger theory).

  \<open>step\<close> is the executable step function, with the body of the handler
  cut at its suspension points (\<open>begins\<close>: lines 8 to 14, \<open>query_settles\<close>:
  lines 16 to 33, \<open>send_settles\<close>: line 34). \<open>transition\<close> is the same as an
  inductive relation with one rule per case, which the proofs induct over.
  A call is journalled when it is made, and its answer arrives with the next
  action of the invocation.

  Three steps complete any invocation (\<open>remaining\<close>), so \<open>invoke\<close> runs one
  with three \<open>advance\<close>s: the fuel is the number of suspension points of the
  handler plus one.
\<close>

section \<open>Invocations, actions and the system\<close>

datatype pc =
    Started snapshot
  | AwaitingQuery
  | AwaitingSend multicast_message
  | Resolved
  | Rejected error

datatype action =
    Load
  | Trigger snapshot
  | Write database
  | Begin nat
  | QuerySettles nat "error option"
  | SendSettles nat "error + batch_response"

record system =
  loaded :: bool
  store :: database
  pcs :: "pc list"
  journal :: "(nat \<times> effect) list"

definition init_system :: system where
  "init_system = \<lparr>loaded = False, store = (\<lambda>path. []), pcs = [], journal = []\<rparr>"

definition set_pc :: "nat \<Rightarrow> pc \<Rightarrow> system \<Rightarrow> system" where
  "set_pc i p s = s\<lparr>pcs := (pcs s)[i := p]\<rparr>"

definition call :: "nat \<Rightarrow> effect \<Rightarrow> system \<Rightarrow> system" where
  "call i e s = s\<lparr>journal := push (journal s) (i, e)\<rparr>"

definition pc_at :: "system \<Rightarrow> nat \<Rightarrow> pc option" where
  "pc_at s i = (if i < length (pcs s) then Some (pcs s ! i) else None)"

section \<open>The handler, cut at its suspension points\<close>

fun begins :: "nat \<Rightarrow> system \<Rightarrow> pc \<Rightarrow> system option" where
  "begins i s (Started snap) =
     (let requestData = data snap in
      if \<not> truthy requestData then Some (set_pc i Resolved s)
      else if \<not> loaded s then Some (set_pc i (Rejected NoApp) s)
      else Some (set_pc i AwaitingQuery (call i (FirestoreGet drivers_query) s)))"
| "begins i s p = None"

fun query_settles :: "nat \<Rightarrow> error option \<Rightarrow> system \<Rightarrow> pc \<Rightarrow> system option" where
  "query_settles i (Some e) s AwaitingQuery = Some (set_pc i (Rejected e) s)"
| "query_settles i None s AwaitingQuery =
     (let driverSnapshot = run_query (store s) drivers_query;
          toks = collect_tokens driverSnapshot in
      if length toks = 0 then Some (set_pc i Resolved s)
      else let message = build_message toks in
        Some (set_pc i (AwaitingSend message) (call i (SendMulticast message) s)))"
| "query_settles i fault s p = None"

fun send_settles :: "nat \<Rightarrow> error + batch_response \<Rightarrow> system \<Rightarrow> pc \<Rightarrow> system option" where
  "send_settles i (Inl e) s (AwaitingSend m) = Some (set_pc i (Rejected e) s)"
| "send_settles i (Inr response) s (AwaitingSend m) =
     Some (set_pc i Resolved (call i (ConsoleLog (log_line response)) s))"
| "send_settles i answer s p = None"

fun step :: "system \<Rightarrow> action \<Rightarrow> system option" where
  "step s Load = (if loaded s then None else Some (s\<lparr>loaded := True\<rparr>))"
| "step s (Trigger snap) =
     (if loaded s \<and> triggers (snap_path snap) then Some (s\<lparr>pcs := pcs s @ [Started snap]\<rparr>)
      else None)"
| "step s (Write db) = Some (s\<lparr>store := db\<rparr>)"
| "step s (Begin i) = Option.bind (pc_at s i) (begins i s)"
| "step s (QuerySettles i fault) = Option.bind (pc_at s i) (query_settles i fault s)"
| "step s (SendSettles i answer) = Option.bind (pc_at s i) (send_settles i answer s)"

fun run :: "system \<Rightarrow> action list \<Rightarrow> system option" where
  "run s [] = Some s"
| "run s (a # as) = Option.bind (step s a) (\<lambda>s'. run s' as)"

inductive reachable :: "system \<Rightarrow> bool" where
  start: "reachable init_system"
| step: "reachable s \<Longrightarrow> step s a = Some s' \<Longrightarrow> reachable s'"

section \<open>The same steps as rules\<close>

inductive transition :: "system \<Rightarrow> action \<Rightarrow> system \<Rightarrow> bool" where
  module_loaded: "\<not> loaded s \<Longrightarrow> transition s Load (s\<lparr>loaded := True\<rparr>)"
| triggered: "loaded s \<Longrightarrow> triggers (snap_path snap) \<Longrightarrow>
     transition s (Trigger snap) (s\<lparr>pcs := pcs s @ [Started snap]\<rparr>)"
| written: "transition s (Write db) (s\<lparr>store := db\<rparr>)"
| begin_absent: "pc_at s i = Some (Started snap) \<Longrightarrow> \<not> truthy (data snap) \<Longrightarrow>
     transition s (Begin i) (set_pc i Resolved s)"
| begin_no_app: "pc_at s i = Some (Started snap) \<Longrightarrow> truthy (data snap) \<Longrightarrow> \<not> loaded s \<Longrightarrow>
     transition s (Begin i) (set_pc i (Rejected NoApp) s)"
| begin_query: "pc_at s i = Some (Started snap) \<Longrightarrow> truthy (data snap) \<Longrightarrow> loaded s \<Longrightarrow>
     transition s (Begin i) (set_pc i AwaitingQuery (call i (FirestoreGet drivers_query) s))"
| query_rejected: "pc_at s i = Some AwaitingQuery \<Longrightarrow>
     transition s (QuerySettles i (Some e)) (set_pc i (Rejected e) s)"
| query_no_token: "pc_at s i = Some AwaitingQuery \<Longrightarrow> available_tokens (store s) = [] \<Longrightarrow>
     transition s (QuerySettles i None) (set_pc i Resolved s)"
| query_tokens: "pc_at s i = Some AwaitingQuery \<Longrightarrow> available_tokens (store s) \<noteq> [] \<Longrightarrow>
     m = build_message (available_tokens (store s)) \<Longrightarrow>
     transition s (QuerySettles i None) (set_pc i (AwaitingSend m) (call i (SendMulticast m) s))"
| send_rejected: "pc_at s i = Some (AwaitingSend m) \<Longrightarrow>
     transition s (SendSettles i (Inl e)) (set_pc i (Rejected e) s)"
| send_resolved: "pc_at s i = Some (AwaitingSend m) \<Longrightarrow>
     transition s (SendSettles i (Inr r)) (set_pc i Resolved (call i (ConsoleLog (log_line r)) s))"

inductive_cases transition_LoadE: "transition s Load s'"
inductive_cases transition_TriggerE: "transition s (Trigger snap) s'"
inductive_cases transition_WriteE: "transition s (Write db) s'"
inductive_cases transition_BeginE: "transition s (Begin i) s'"
inductive_cases transition_QuerySettlesE: "transition s (QuerySettles i fault) s'"
inductive_cases transition_SendSettlesE: "transition s (SendSettles i answer) s'"

lemmas transition_elims = transition_LoadE transition_TriggerE transition_WriteE
  transition_BeginE transition_QuerySettlesE transition_SendSettlesE

section \<open>Observing a system\<close>

text \<open>
  \<open>actor\<close> is the invocation that performs an action, \<open>is_final\<close> says that
  an invocation has settled, \<open>remaining\<close> bounds the steps it can still
  take, \<open>calls_of\<close> are the calls it made, and \<open>world_of\<close> is the system as
  the world of the platform theory.
\<close>

fun actor :: "action \<Rightarrow> nat option" where
  "actor (Begin i) = Some i"
| "actor (QuerySettles i fault) = Some i"
| "actor (SendSettles i answer) = Some i"
| "actor a = None"

fun is_final :: "pc \<Rightarrow> bool" where
  "is_final Resolved = True"
| "is_final (Rejected e) = True"
| "is_final p = False"

fun remaining :: "pc \<Rightarrow> nat" where
  "remaining (Started snap) = 3"
| "remaining AwaitingQuery = 2"
| "remaining (AwaitingSend m) = 1"
| "remaining p = 0"

definition budget :: "system \<Rightarrow> nat \<Rightarrow> nat" where
  "budget s i = (case pc_at s i of None \<Rightarrow> 3 | Some p \<Rightarrow> remaining p)"

definition calls_of :: "nat \<Rightarrow> system \<Rightarrow> effect list" where
  "calls_of i s = map snd (filter (\<lambda>entry. fst entry = i) (journal s))"

definition world_of :: "system \<Rightarrow> world" where
  "world_of s = \<lparr>app_initialized = loaded s, firestore = store s, trace = map snd (journal s)\<rparr>"

definition outcome :: "error + unit \<Rightarrow> pc" where
  "outcome r = (case r of Inl e \<Rightarrow> Rejected e | Inr u \<Rightarrow> Resolved)"

section \<open>Running one invocation to its end\<close>

fun next_action :: "nat \<Rightarrow> platform \<Rightarrow> pc \<Rightarrow> action option" where
  "next_action i pf (Started snap) = Some (Begin i)"
| "next_action i pf AwaitingQuery = Some (QuerySettles i (get_fault pf drivers_query))"
| "next_action i pf (AwaitingSend m) = Some (SendSettles i (multicast pf m))"
| "next_action i pf p = None"

definition advance :: "nat \<Rightarrow> platform \<Rightarrow> system \<Rightarrow> system option" where
  "advance i pf s =
     (case pc_at s i of
        None \<Rightarrow> None
      | Some p \<Rightarrow> (case next_action i pf p of None \<Rightarrow> Some s | Some a \<Rightarrow> step s a))"

definition invoke :: "platform \<Rightarrow> nat \<Rightarrow> system \<Rightarrow> system option" where
  "invoke pf i s = Option.bind (advance i pf s) (\<lambda>s1. Option.bind (advance i pf s1) (advance i pf))"

section \<open>The invariant\<close>

text \<open>
  \<open>good_message\<close>: a message as the handler builds it. \<open>calls_ok p cs\<close>: the
  calls \<open>cs\<close> are those of an invocation that stands at \<open>p\<close>. \<open>system_ok\<close>:
  invocations exist only once the module is loaded, every journalled call
  belongs to an invocation, and the calls of every invocation fit its
  program counter.
\<close>

definition good_message :: "multicast_message \<Rightarrow> bool" where
  "good_message m \<longleftrightarrow> tokens m \<noteq> [] \<and> list_all truthy (tokens m)
     \<and> notification m = \<lparr>title = notification_title, body = notification_body\<rparr>"

fun calls_ok :: "pc \<Rightarrow> effect list \<Rightarrow> bool" where
  "calls_ok (Started snap) cs \<longleftrightarrow> cs = [] \<and> triggers (snap_path snap)"
| "calls_ok AwaitingQuery cs \<longleftrightarrow> cs = [FirestoreGet drivers_query]"
| "calls_ok (AwaitingSend m) cs \<longleftrightarrow>
     cs = [FirestoreGet drivers_query, SendMulticast m] \<and> good_message m"
| "calls_ok Resolved [] \<longleftrightarrow> True"
| "calls_ok Resolved [FirestoreGet q] \<longleftrightarrow> q = drivers_query"
| "calls_ok Resolved [FirestoreGet q, SendMulticast m, ConsoleLog l] \<longleftrightarrow>
     q = drivers_query \<and> good_message m \<and> logged_count l \<noteq> None"
| "calls_ok (Rejected e) [FirestoreGet q] \<longleftrightarrow> q = drivers_query"
| "calls_ok (Rejected e) [FirestoreGet q, SendMulticast m] \<longleftrightarrow> q = drivers_query \<and> good_message m"
| "calls_ok p cs \<longleftrightarrow> False"

definition system_ok :: "system \<Rightarrow> bool" where
  "system_ok s \<longleftrightarrow>
     (pcs s = [] \<or> loaded s)
     \<and> list_all (\<lambda>entry. fst entry < length (pcs s)) (journal s)
     \<and> list_all (\<lambda>i. calls_ok (pcs s ! i) (calls_of i s)) [0..<length (pcs s)]"

section \<open>Example runs\<close>

text \<open>
  The module is loaded, the example database of the handler theory is
  written, and one request is created: \<open>example_started\<close>. Its invocation
  then runs to the end with a service that accepts both tokens:
  \<open>example_final\<close>.
\<close>

definition example_actions :: "action list" where
  "example_actions =
     [Load, Write example_db, Trigger example_snapshot, Begin 0, QuerySettles 0 None,
      SendSettles 0 (Inr \<lparr>successCount = 2\<rparr>)]"

definition example_started :: system where
  "example_started =
     \<lparr>loaded = True, store = example_db, pcs = [Started example_snapshot], journal = []\<rparr>"

definition example_querying :: system where
  "example_querying =
     \<lparr>loaded = True, store = example_db, pcs = [AwaitingQuery],
      journal = [(0, FirestoreGet drivers_query)]\<rparr>"

definition example_final :: system where
  "example_final =
     \<lparr>loaded = True, store = example_db, pcs = [Resolved],
      journal = [(0, FirestoreGet drivers_query),
                 (0, SendMulticast (build_message [JStr ''A'', JStr ''B''])),
                 (0, ConsoleLog (log_line \<lparr>successCount = 2\<rparr>))]\<rparr>"

definition example_rejected :: system where
  "example_rejected =
     \<lparr>loaded = True, store = example_db, pcs = [Rejected (FirestoreError ''unavailable'')],
      journal = [(0, FirestoreGet drivers_query)]\<rparr>"

section \<open>The step function and the rules agree\<close>

lemma example_snapshot_triggers [simp]: "triggers (snap_path example_snapshot)"
  by (simp add: example_snapshot_def)

lemma collect_run_query [simp]:
  "collect_tokens (run_query db drivers_query) = available_tokens db"
  by (simp add: available_tokens_def available_drivers_def)

lemma transition_iff_step: "transition s a s' \<longleftrightarrow> step s a = Some s'"
proof
  assume "transition s a s'"
  then show "step s a = Some s'"
    by (induction rule: transition.induct) (simp_all add: Let_def)
next
  assume "step s a = Some s'"
  then show "transition s a s'"
    by (cases a)
      (auto simp: bind_eq_Some_conv Let_def
        elim!: begins.elims query_settles.elims send_settles.elims
        split: if_splits intro: transition.intros)
qed

lemma run_append: "run s (as @ bs) = Option.bind (run s as) (\<lambda>s'. run s' bs)"
  by (induction as arbitrary: s) (simp_all add: bind_eq_None_conv split: bind_split)

lemma run_reachable: "reachable s \<Longrightarrow> run s as = Some s' \<Longrightarrow> reachable s'"
  by (induction as arbitrary: s) (auto simp: bind_eq_Some_conv intro: reachable.step)

section \<open>Fields of an updated system\<close>

lemma set_pc_fields [simp]:
  "pcs (set_pc i p s) = (pcs s)[i := p]" "journal (set_pc i p s) = journal s"
  "store (set_pc i p s) = store s" "loaded (set_pc i p s) = loaded s"
  by (simp_all add: set_pc_def)

lemma call_fields [simp]:
  "pcs (call i e s) = pcs s" "journal (call i e s) = journal s @ [(i, e)]"
  "store (call i e s) = store s" "loaded (call i e s) = loaded s"
  by (simp_all add: call_def push_def)

lemma calls_of_simps [simp]:
  "calls_of j (set_pc i p s) = calls_of j s"
  "calls_of j (call i e s) = (if i = j then calls_of j s @ [e] else calls_of j s)"
  "calls_of j (s\<lparr>pcs := ps\<rparr>) = calls_of j s"
  "calls_of j (s\<lparr>store := db\<rparr>) = calls_of j s"
  "calls_of j (s\<lparr>loaded := b\<rparr>) = calls_of j s"
  by (simp_all add: calls_of_def)

lemma calls_of_init [simp]: "calls_of i init_system = []"
  by (simp add: calls_of_def init_system_def)

lemma pc_at_Some_iff: "pc_at s i = Some p \<longleftrightarrow> i < length (pcs s) \<and> pcs s ! i = p"
  by (auto simp: pc_at_def)

lemma pc_at_set_pc:
  "pc_at (set_pc i p s) j = (if j = i \<and> i < length (pcs s) then Some p else pc_at s j)"
  by (simp add: pc_at_def)

lemma pc_at_call [simp]: "pc_at (call i e s) j = pc_at s j"
  by (simp add: pc_at_def)

lemma world_of_simps [simp]:
  "world_of (set_pc i p s) = world_of s"
  "world_of (call i e s) = emit e (world_of s)"
  by (simp_all add: world_of_def emit_def push_def)

lemma world_of_fields [simp]:
  "app_initialized (world_of s) = loaded s" "firestore (world_of s) = store s"
  "trace (world_of s) = map snd (journal s)"
  by (simp_all add: world_of_def)

lemma length_sent_calls_of:
  "length (sent (calls_of i s))
     = length (filter (\<lambda>x. fst x = i \<and> sent_of (snd x) \<noteq> None) (journal s))"
  by (simp add: length_sent calls_of_def filter_map comp_def conj_commute)

lemma in_calls_of: "(j, e) \<in> set (journal s) \<Longrightarrow> e \<in> set (calls_of j s)"
  by (force simp: calls_of_def)

section \<open>The example runs, evaluated\<close>

lemmas system_defs = init_system_def set_pc_def call_def pc_at_def push_def

lemma example_started_run:
  "run init_system (take 3 example_actions) = Some example_started"
  by (simp add: example_actions_def example_started_def system_defs)

lemma example_querying_run: "run example_started [Begin 0] = Some example_querying"
  by (simp add: example_started_def example_querying_def system_defs example_ready)

lemma example_final_run:
  "run example_querying (drop 4 example_actions) = Some example_final"
  by (simp add: example_actions_def example_querying_def example_final_def system_defs
      example_tokens build_message_def Let_def)

lemma example_rejected_run:
  "run example_querying [QuerySettles 0 (Some (FirestoreError ''unavailable''))]
     = Some example_rejected"
  by (simp add: example_querying_def example_rejected_def system_defs)

lemma example_reachable:
  "reachable example_started" "reachable example_querying" "reachable example_final"
  "reachable example_rejected"
proof -
  show 1: "reachable example_started"
    by (rule run_reachable [OF reachable.start example_started_run])
  show 2: "reachable example_querying"
    by (rule run_reachable [OF 1 example_querying_run])
  show "reachable example_final"
    by (rule run_reachable [OF 2 example_final_run])
  show "reachable example_rejected"
    by (rule run_reachable [OF 2 example_rejected_run])
qed

lemma example_started_ok: "system_ok example_started"
  by (simp add: system_ok_def example_started_def calls_of_def)

section \<open>The invariant holds in every reachable system\<close>

lemma system_okI:
  assumes "pcs s \<noteq> [] \<Longrightarrow> loaded s"
    and "\<And>j e. (j, e) \<in> set (journal s) \<Longrightarrow> j < length (pcs s)"
    and "\<And>i. i < length (pcs s) \<Longrightarrow> calls_ok (pcs s ! i) (calls_of i s)"
  shows "system_ok s"
  using assms by (auto simp: system_ok_def list_all_iff)

lemma system_okD:
  assumes "system_ok s"
  shows "pcs s \<noteq> [] \<Longrightarrow> loaded s"
    and "(j, e) \<in> set (journal s) \<Longrightarrow> j < length (pcs s)"
    and "i < length (pcs s) \<Longrightarrow> calls_ok (pcs s ! i) (calls_of i s)"
  using assms by (auto simp: system_ok_def list_all_iff)

lemma calls_of_fresh: "system_ok s \<Longrightarrow> \<not> i < length (pcs s) \<Longrightarrow> calls_of i s = []"
  by (auto simp: calls_of_def filter_empty_conv dest: system_okD(2))

lemma good_message_build:
  "available_tokens db \<noteq> [] \<Longrightarrow> good_message (build_message (available_tokens db))"
  by (simp add: good_message_def build_message_def available_tokens_truthy)

lemma system_ok_init: "system_ok init_system"
  by (simp add: system_ok_def init_system_def)

lemma transition_system_ok:
  assumes "transition s a s'" and "system_ok s"
  shows "system_ok s'"
  using assms
proof (induction rule: transition.induct)
  case (triggered s snap)
  then show ?case
    by (intro system_okI)
      (auto simp: nth_append calls_of_fresh dest: system_okD less_SucI)
next
  case (begin_no_app s i snap)
  then show ?case
    by (auto simp: pc_at_Some_iff dest: system_okD(1))
next
  case (send_resolved s i m r)
  then show ?case
    by (intro system_okI)
      (auto simp: pc_at_Some_iff nth_list_update logged_count_log_line
        dest: system_okD less_SucI)
qed (intro system_okI;
     auto simp: pc_at_Some_iff nth_list_update good_message_build dest: system_okD less_SucI)+

lemma step_system_ok: "system_ok s \<Longrightarrow> step s a = Some s' \<Longrightarrow> system_ok s'"
  by (auto simp: transition_iff_step [symmetric] intro: transition_system_ok)

lemma run_system_ok: "system_ok s \<Longrightarrow> run s as = Some s' \<Longrightarrow> system_ok s'"
  by (induction as arbitrary: s) (auto split: bind_splits dest: step_system_ok)

lemma reachable_ok: "reachable s \<Longrightarrow> system_ok s"
  by (induction rule: reachable.induct) (auto simp: system_ok_init intro: step_system_ok)

lemma reachable_calls_ok:
  "reachable s \<Longrightarrow> i < length (pcs s) \<Longrightarrow> calls_ok (pcs s ! i) (calls_of i s)"
  by (blast dest: reachable_ok system_okD(3))

text \<open>
  C28. Every step keeps the invariant: after any action that the system can
  take, invocations still exist only with the module loaded, every call of
  the journal still belongs to an invocation, and the calls of each
  invocation are still those that the handler makes on the way to the place
  where the invocation stands.
\<close>

theorem step_preserves_system_ok:
  assumes "system_ok s" and "step s a = Some s'"
  shows "system_ok s'"
  using assms by (rule step_system_ok)

theorem step_preserves_system_ok_witness:
  "system_ok example_started \<and> step example_started (Begin 0) = Some example_querying
    \<and> system_ok example_querying"
  using step_preserves_system_ok [of example_started "Begin 0" example_querying]
    example_querying_run example_started_ok
  by simp

section \<open>What the invariant gives\<close>

text \<open>
  The handler only ever starts for a document of the requests collection.
\<close>

lemma reachable_started_path:
  "reachable s \<Longrightarrow> pc_at s i = Some (Started snap) \<Longrightarrow> triggers (snap_path snap)"
  by (auto simp: pc_at_Some_iff dest!: reachable_calls_ok)

lemma calls_ok_counts:
  "calls_ok p cs \<Longrightarrow> length (queried cs) \<le> 1 \<and> length (sent cs) \<le> 1 \<and> length (logged cs) \<le> 1"
  by (induction p cs rule: calls_ok.induct) simp_all

lemma calls_ok_good: "calls_ok p cs \<Longrightarrow> list_all good_message (sent cs)"
  by (induction p cs rule: calls_ok.induct) simp_all

lemma calls_ok_Rejected:
  "calls_ok (Rejected e) cs \<Longrightarrow> queried cs = [drivers_query] \<and> logged cs = []"
  by (induction "Rejected e" cs rule: calls_ok.induct) simp_all

lemma calls_ok_log_after_send:
  "calls_ok p cs \<Longrightarrow> logged cs \<noteq> [] \<Longrightarrow> p = Resolved \<and> length (sent cs) = 1"
  by (induction p cs rule: calls_ok.induct) simp_all

lemma reachable_sends_of:
  assumes "reachable s"
  shows "length (sent (calls_of i s)) \<le> 1"
proof (cases "i < length (pcs s)")
  case True
  with assms show ?thesis by (blast dest: reachable_calls_ok calls_ok_counts)
next
  case False
  with assms show ?thesis by (simp add: calls_of_fresh reachable_ok)
qed

text \<open>
  However the invocations interleave and whatever the services answer,
  one invocation queries the database at most once, sends at most one
  message and logs at most one line.
\<close>

theorem reachable_calls_at_most_once:
  assumes "reachable s"
  shows "length (queried (calls_of i s)) \<le> 1 \<and> length (sent (calls_of i s)) \<le> 1
    \<and> length (logged (calls_of i s)) \<le> 1"
proof (cases "i < length (pcs s)")
  case True
  with assms show ?thesis by (blast dest: reachable_calls_ok calls_ok_counts)
next
  case False
  with assms show ?thesis by (simp add: calls_of_fresh reachable_ok)
qed

theorem reachable_calls_at_most_once_witness:
  "reachable example_final \<and> length (queried (calls_of 0 example_final)) = 1
    \<and> length (sent (calls_of 0 example_final)) = 1
    \<and> length (logged (calls_of 0 example_final)) = 1"
  using reachable_calls_at_most_once [of example_final 0] example_reachable(3)
  by (simp add: example_final_def calls_of_def)

text \<open>
  C29. Every message that any invocation ever passes to the messaging
  service has at least one token, only truthy tokens, and the fixed title and
  body of lines 26 to 29.
\<close>

theorem reachable_messages_good:
  assumes "reachable s" and "m \<in> set (sent (map snd (journal s)))"
  shows "good_message m"
proof -
  from assms(2) obtain j where j: "(j, SendMulticast m) \<in> set (journal s)"
    by (auto simp: sent_mem_iff)
  with assms(1) have "j < length (pcs s)"
    by (blast dest: reachable_ok system_okD(2))
  with assms(1) have "list_all good_message (sent (calls_of j s))"
    by (blast dest: reachable_calls_ok calls_ok_good)
  moreover from j have "m \<in> set (sent (calls_of j s))"
    by (simp add: sent_mem_iff in_calls_of)
  ultimately show ?thesis
    by (simp add: list_all_iff)
qed

theorem reachable_messages_good_witness:
  "reachable example_final
    \<and> build_message [JStr ''A'', JStr ''B''] \<in> set (sent (map snd (journal example_final)))
    \<and> good_message (build_message [JStr ''A'', JStr ''B''])"
  using reachable_messages_good [of example_final "build_message [JStr ''A'', JStr ''B'']"]
    example_reachable(3)
  by (simp add: example_final_def)

text \<open>
  C30. The messages sent by all invocations together are at most as many as
  the requests created so far: no request is announced twice.
\<close>

theorem reachable_sends_bounded:
  assumes "reachable s"
  shows "length (sent (map snd (journal s))) \<le> length (pcs s)"
proof -
  from assms have ok: "system_ok s" by (rule reachable_ok)
  have "length (sent (map snd (journal s)))
      = length (filter (\<lambda>x. sent_of (snd x) \<noteq> None) (journal s))"
    by (simp add: length_sent filter_map comp_def)
  also have "\<dots> = (\<Sum>i\<leftarrow>[0..<length (pcs s)]. length (sent (calls_of i s)))"
    unfolding length_sent_calls_of
    by (rule length_filter_by_key) (use ok in \<open>auto dest: system_okD(2)\<close>)
  also have "\<dots> \<le> length [0..<length (pcs s)]"
    by (rule sum_list_le_length) (use assms reachable_sends_of in blast)
  finally show ?thesis by simp
qed

theorem reachable_sends_bounded_witness:
  "reachable example_final \<and> length (sent (map snd (journal example_final))) = 1
    \<and> length (pcs example_final) = 1"
  using reachable_sends_bounded [of example_final] example_reachable(3)
  by (simp add: example_final_def)

text \<open>
  An invocation that is rejected has made its query, exactly once and
  with the query of lines 11 to 14, and has logged nothing: the rejection
  for a missing app cannot occur, because a trigger is delivered only to a
  loaded module, and a send that fails leaves no line in the log.
\<close>

theorem reachable_rejected_after_query:
  assumes "reachable s" and "pc_at s i = Some (Rejected e)"
  shows "queried (calls_of i s) = [drivers_query] \<and> logged (calls_of i s) = []"
  using assms
  by (auto simp: pc_at_Some_iff dest!: reachable_calls_ok calls_ok_Rejected)

theorem reachable_rejected_after_query_witness:
  "reachable example_rejected
    \<and> pc_at example_rejected 0 = Some (Rejected (FirestoreError ''unavailable''))
    \<and> queried (calls_of 0 example_rejected) = [drivers_query]
    \<and> logged (calls_of 0 example_rejected) = []"
  using reachable_rejected_after_query
    [of example_rejected 0 "FirestoreError ''unavailable''"] example_reachable(4)
  by (simp add: example_rejected_def pc_at_def)

section \<open>Frame, termination and progress of one invocation\<close>

lemma transition_actor_frame:
  assumes "transition s a s'" and "actor a = Some i"
  shows "store s' = store s \<and> loaded s' = loaded s \<and> length (pcs s') = length (pcs s)
    \<and> (\<forall>j. j \<noteq> i \<longrightarrow> pc_at s' j = pc_at s j \<and> calls_of j s' = calls_of j s)"
  using assms by (induction rule: transition.induct) (auto simp: pc_at_set_pc)

lemma transition_remaining:
  assumes "transition s a s'" and "actor a = Some i"
  shows "\<exists>p p'. pc_at s i = Some p \<and> pc_at s' i = Some p' \<and> remaining p' < remaining p"
  using assms by (induction rule: transition.induct) (auto simp: pc_at_set_pc pc_at_Some_iff)

lemma transition_other:
  assumes "transition s a s'" and "actor a \<noteq> Some i" and "pc_at s i = Some p"
  shows "pc_at s' i = Some p"
  using assms
  by (induction rule: transition.induct) (auto simp: pc_at_set_pc pc_at_Some_iff nth_append)

lemma remaining_le [simp]: "remaining p \<le> 3"
  by (cases p) simp_all

lemma budget_le [simp]: "budget s i \<le> 3"
  by (simp add: budget_def split: option.splits)

lemma transition_budget:
  assumes "transition s a s'"
  shows "(if actor a = Some i then budget s' i < budget s i else budget s' i \<le> budget s i)"
proof (cases "actor a = Some i")
  case True
  with assms show ?thesis by (auto simp: budget_def dest!: transition_remaining)
next
  case False
  with assms show ?thesis
    by (cases "pc_at s i")
      (auto simp: budget_def dest: transition_other [of s a s' i] split: option.splits)
qed

lemma run_own_steps_budget:
  "run s as = Some s' \<Longrightarrow> length (filter (\<lambda>a. actor a = Some i) as) + budget s' i \<le> budget s i"
proof (induction as arbitrary: s)
  case Nil
  then show ?case by simp
next
  case (Cons a as)
  from Cons.prems obtain s1 where s1: "step s a = Some s1" and rest: "run s1 as = Some s'"
    by (auto simp: bind_eq_Some_conv)
  from s1 have "transition s a s1" by (simp add: transition_iff_step)
  from transition_budget [OF this, of i] Cons.IH [OF rest] show ?case
    by (auto split: if_splits)
qed

lemma example_actions_run: "run init_system example_actions = Some example_final"
  by (simp add: example_actions_def example_final_def system_defs example_ready
      example_tokens build_message_def Let_def)

text \<open>
  The handler has no loop around its suspension points: in any run of
  the system, whatever else happens in between, one invocation takes at most
  three steps.
\<close>

theorem own_steps_bounded:
  assumes "run s as = Some s'"
  shows "length (filter (\<lambda>a. actor a = Some i) as) \<le> 3"
proof -
  from assms have "length (filter (\<lambda>a. actor a = Some i) as) \<le> budget s i"
    by (auto dest: run_own_steps_budget [of s as s' i])
  also have "\<dots> \<le> 3" by simp
  finally show ?thesis .
qed

theorem own_steps_bounded_witness:
  "run init_system example_actions = Some example_final
    \<and> length (filter (\<lambda>a. actor a = Some 0) example_actions) = 3"
  using own_steps_bounded [of init_system example_actions example_final 0] example_actions_run
  by (simp add: example_actions_def)

text \<open>
  An invocation that has not settled can always take its next step, in
  every state of the system and for every answer of the services: no
  invocation waits for another one.
\<close>

theorem invocation_progress:
  assumes "pc_at s i = Some p" and "\<not> is_final p"
  shows "\<exists>a s'. next_action i pf p = Some a \<and> actor a = Some i \<and> step s a = Some s'"
  using assms
  by (cases p; cases "get_fault pf drivers_query";
      cases "multicast pf (case p of AwaitingSend m \<Rightarrow> m)")
    (auto simp: Let_def)

theorem invocation_progress_witness:
  "pc_at example_querying 0 = Some AwaitingQuery \<and> \<not> is_final AwaitingQuery
    \<and> (\<exists>a s'. next_action 0 example_platform AwaitingQuery = Some a \<and> actor a = Some 0
          \<and> step example_querying a = Some s')"
  using invocation_progress [of example_querying 0 AwaitingQuery example_platform]
  by (simp add: example_querying_def pc_at_def)

text \<open>
  A settled invocation takes no further step: once the promise of the
  handler is resolved or rejected, no answer of a service is delivered to it
  and it makes no further call.
\<close>

theorem settled_invocation_is_stuck:
  assumes "pc_at s i = Some p" and "is_final p" and "actor a = Some i"
  shows "step s a = None"
proof (cases "step s a")
  case (Some s')
  then have "transition s a s'" by (simp add: transition_iff_step)
  from transition_remaining [OF this assms(3)] assms(1,2) show ?thesis
    by (cases p) auto
qed simp

theorem settled_invocation_is_stuck_witness:
  "pc_at example_final 0 = Some Resolved \<and> is_final Resolved
    \<and> actor (SendSettles 0 (Inr \<lparr>successCount = 2\<rparr>)) = Some 0
    \<and> step example_final (SendSettles 0 (Inr \<lparr>successCount = 2\<rparr>)) = None"
  using settled_invocation_is_stuck
    [of example_final 0 Resolved "SendSettles 0 (Inr \<lparr>successCount = 2\<rparr>)"]
  by (simp add: example_final_def pc_at_def)

text \<open>
  A step of one invocation writes nothing to the database, leaves the
  module loaded as it was, creates no invocation, and leaves the place and
  the calls of every other invocation as they were.
\<close>

theorem handler_step_frame:
  assumes "step s a = Some s'" and "actor a = Some i"
  shows "store s' = store s \<and> loaded s' = loaded s \<and> length (pcs s') = length (pcs s)
    \<and> (\<forall>j. j \<noteq> i \<longrightarrow> pc_at s' j = pc_at s j \<and> calls_of j s' = calls_of j s)"
  using assms by (auto simp: transition_iff_step [symmetric] dest: transition_actor_frame)

theorem handler_step_frame_witness:
  "step example_started (Begin 0) = Some example_querying \<and> actor (Begin 0) = Some 0
    \<and> store example_querying = store example_started
    \<and> length (pcs example_querying) = length (pcs example_started)
    \<and> calls_of 1 example_querying = calls_of 1 example_started"
  using handler_step_frame [of example_started "Begin 0" example_querying 0]
    example_querying_run
  by simp

text \<open>
  The recipients are those of the database as it is when the query is
  answered, not as it was when the request was created: after a write and
  the answer of the query, the invocation has sent one message to the tokens
  of the drivers available in the written database, or none when there is no
  such token.
\<close>

theorem recipients_read_when_query_settles:
  assumes "reachable s" and "pc_at s i = Some AwaitingQuery"
  shows "\<exists>s'. run s [Write db, QuerySettles i None] = Some s'
    \<and> sent (calls_of i s')
        = (if available_tokens db = [] then [] else [build_message (available_tokens db)])"
proof -
  from assms have "calls_ok AwaitingQuery (calls_of i s)"
    by (auto simp: pc_at_Some_iff dest: reachable_calls_ok)
  with assms(2) show ?thesis
    by (simp add: pc_at_def Let_def split: if_splits)
qed

theorem recipients_read_when_query_settles_witness:
  "reachable example_querying \<and> pc_at example_querying 0 = Some AwaitingQuery
    \<and> (\<exists>s'. run example_querying [Write (\<lambda>path. []), QuerySettles 0 None] = Some s'
          \<and> sent (calls_of 0 s') = [])"
  using recipients_read_when_query_settles [of example_querying 0 "\<lambda>path. []"]
    example_reachable(2)
  by (simp add: example_querying_def pc_at_def available_tokens_eq)

section \<open>An invocation that runs alone is the handler\<close>

lemma invoke_Started:
  assumes "pc_at s i = Some (Started snap)"
  shows "invoke pf i s =
    Some (if \<not> truthy (data snap) then set_pc i Resolved s
      else if \<not> loaded s then set_pc i (Rejected NoApp) s
      else case get_fault pf drivers_query of
         Some e \<Rightarrow> set_pc i (Rejected e) (call i (FirestoreGet drivers_query) s)
       | None \<Rightarrow>
          let toks = available_tokens (store s); s1 = call i (FirestoreGet drivers_query) s in
          if toks = [] then set_pc i Resolved s1
          else let s2 = call i (SendMulticast (build_message toks)) s1 in
            (case multicast pf (build_message toks) of
               Inl e \<Rightarrow> set_pc i (Rejected e) s2
             | Inr r \<Rightarrow> set_pc i Resolved (call i (ConsoleLog (log_line r)) s2)))"
proof -
  from assms have i: "i < length (pcs s)" and p: "pcs s ! i = Started snap"
    by (simp_all add: pc_at_Some_iff)
  have set_set: "set_pc i q (set_pc i q' t) = set_pc i q t" for q q' t
    by (simp add: set_pc_def)
  have set_call: "call i e (set_pc i q t) = set_pc i q (call i e t)" for q e t
    by (simp add: set_pc_def call_def)
  show ?thesis
    using i p
    by (simp add: invoke_def advance_def pc_at_def Let_def set_set set_call
        split: option.splits sum.splits)
qed

text \<open>
  C13. Cutting the handler at its suspension points loses nothing: an
  invocation that takes its three steps with no other action in between,
  with the answers of the platform, ends in the world in which the handler
  of the handler theory ends, and stands at the outcome with which the
  promise of the handler settles.
\<close>

theorem invocation_runs_handler:
  assumes "pc_at s i = Some (Started snap)"
  shows "\<exists>s'. invoke pf i s = Some s'
    \<and> world_of s' = world_after (sendDriverNotification pf snap ctx) (world_of s)
    \<and> pc_at s' i = Some (outcome (settled (sendDriverNotification pf snap ctx) (world_of s)))"
  using assms
  by (simp add: invoke_Started [OF assms] world_after_def settled_def sendDriverNotification_run
      outcome_def Let_def pc_at_set_pc pc_at_Some_iff split: option.splits sum.splits)

theorem invocation_runs_handler_witness:
  "pc_at example_started 0 = Some (Started example_snapshot)
    \<and> (\<exists>s'. invoke example_platform 0 example_started = Some s'
      \<and> world_of s'
          = world_after (sendDriverNotification example_platform example_snapshot ())
              (world_of example_started)
      \<and> pc_at s' 0
          = Some (outcome (settled (sendDriverNotification example_platform example_snapshot ())
              (world_of example_started))))"
  using invocation_runs_handler [of example_started 0 example_snapshot example_platform "()"]
  by (simp add: example_started_def pc_at_def)

end
