(* ===== verification/Interleaving.thy ===== *)
theory Interleaving
  imports Invocations
begin

text \<open>
  How the steps of different invocations of the handler of
  \<^verbatim>\<open>src/functions/index.js\<close>, and the writes of other flows, may be
  reordered. The step of the handler is given once more as a function
  \<open>react\<close> of what the handler reads and nothing else; \<open>step_react\<close>
  shows that the step of the system is \<open>react\<close> put into the system. From
  this, steps of different invocations commute, a write commutes with every
  step but the one at which the query is answered, a write that leaves the
  drivers collection as it was commutes with that step too, and every delivery of a
  creation event, a repeated one included, notifies the drivers.
\<close>

section \<open>A step of the handler, seen from the invocation\<close>

text \<open>
  \<open>react\<close> is the step of the handler as a function of what the handler
  reads: whether the app exists, the database, the answer it is given and
  the place where it stands. It returns the next place and the calls made.
  \<open>lift\<close> puts such a result into the system, and \<open>same_view\<close> compares two
  systems by what each invocation can observe: the database, the places and
  the calls of each invocation, not the order of calls of different
  invocations in the journal.
\<close>

fun react :: "bool \<Rightarrow> database \<Rightarrow> action \<Rightarrow> pc \<Rightarrow> (pc \<times> effect list) option" where
  "react up db (Begin i) (Started snap) =
     (if \<not> truthy (data snap) then Some (Resolved, [])
      else if \<not> up then Some (Rejected NoApp, [])
      else Some (AwaitingQuery, [FirestoreGet drivers_query]))"
| "react up db (QuerySettles i (Some e)) AwaitingQuery = Some (Rejected e, [])"
| "react up db (QuerySettles i None) AwaitingQuery =
     (let toks = collect_tokens (run_query db drivers_query) in
      if length toks = 0 then Some (Resolved, [])
      else Some (AwaitingSend (build_message toks), [SendMulticast (build_message toks)]))"
| "react up db (SendSettles i (Inl e)) (AwaitingSend m) = Some (Rejected e, [])"
| "react up db (SendSettles i (Inr response)) (AwaitingSend m) =
     Some (Resolved, [ConsoleLog (log_line response)])"
| "react up db a p = None"

definition lift :: "nat \<Rightarrow> system \<Rightarrow> pc \<times> effect list \<Rightarrow> system" where
  "lift i s r = s\<lparr>pcs := (pcs s)[i := fst r], journal := journal s @ map (Pair i) (snd r)\<rparr>"

definition same_view :: "system \<Rightarrow> system \<Rightarrow> bool" where
  "same_view s t \<longleftrightarrow> loaded s = loaded t \<and> store s = store t \<and> pcs s = pcs t
     \<and> list_all (\<lambda>k. calls_of k s = calls_of k t) (map fst (journal s @ journal t))"

section \<open>A system with two invocations\<close>

definition example_two :: system where
  "example_two =
     \<lparr>loaded = True, store = example_db,
      pcs = [Started example_snapshot, Started \<lparr>snap_path = ''requests/r2'', snap_fields = None\<rparr>],
      journal = []\<rparr>"

definition example_two_begun :: system where
  "example_two_begun =
     \<lparr>loaded = True, store = example_db, pcs = [AwaitingQuery, Resolved],
      journal = [(0, FirestoreGet drivers_query)]\<rparr>"

text \<open>
  \<open>served\<close> is a delivery of a creation event followed by the first two
  steps of the invocation that it starts, with a query that succeeds.
\<close>

definition served :: "system \<Rightarrow> snapshot \<Rightarrow> action list" where
  "served s snap = [Trigger snap, Begin (length (pcs s)), QuerySettles (length (pcs s)) None]"

section \<open>Steps that commute\<close>

lemma step_react:
  assumes "actor a = Some i"
  shows "step s a
    = Option.bind (pc_at s i) (\<lambda>p. map_option (lift i s) (react (loaded s) (store s) a p))"
proof (cases "pc_at s i")
  case None
  with assms show ?thesis by (cases a) simp_all
next
  case (Some p)
  with assms show ?thesis
    by (cases "(loaded s, store s, a, p)" rule: react.cases; cases a)
      (simp_all add: lift_def set_pc_def call_def push_def Let_def)
qed

lemma lift_fields [simp]:
  "loaded (lift i s r) = loaded s" "store (lift i s r) = store s"
  "pcs (lift i s r) = (pcs s)[i := fst r]"
  "journal (lift i s r) = journal s @ map (Pair i) (snd r)"
  by (simp_all add: lift_def)

lemma pc_at_lift:
  "pc_at (lift i s r) j = (if j = i \<and> i < length (pcs s) then Some (fst r) else pc_at s j)"
  by (simp add: pc_at_def)

lemma calls_of_lift:
  "calls_of k (lift i s r) = (if k = i then calls_of k s @ snd r else calls_of k s)"
  by (simp add: calls_of_def filter_map comp_def)

lemma same_viewI:
  assumes "loaded s = loaded t" and "store s = store t" and "pcs s = pcs t"
    and "\<And>k. calls_of k s = calls_of k t"
  shows "same_view s t"
  using assms by (simp add: same_view_def list_all_iff)

lemma same_view_calls:
  assumes "same_view s t"
  shows "calls_of k s = calls_of k t"
proof (cases "k \<in> fst ` set (journal s @ journal t)")
  case True
  with assms show ?thesis by (auto simp: same_view_def list_all_iff)
next
  case False
  then have "filter (\<lambda>entry. fst entry = k) (journal s) = []"
    and "filter (\<lambda>entry. fst entry = k) (journal t) = []"
    by (force simp: filter_empty_conv)+
  then show ?thesis by (simp add: calls_of_def)
qed

lemma same_view_lift_lift:
  "i \<noteq> j \<Longrightarrow> same_view (lift i (lift j s r) q) (lift j (lift i s q) r)"
  by (rule same_viewI) (simp_all add: calls_of_lift list_update_swap)

lemma react_store:
  assumes "actor a = Some i" and "a \<noteq> QuerySettles i None"
  shows "react up db a p = react up db' a p"
  using assms by (cases "(up, db, a, p)" rule: react.cases; cases a) simp_all

text \<open>
  C31. Steps of two different invocations commute: if one invocation steps
  and then another, the other order is possible too, and it leads to the
  same database, the same places and the same calls of every invocation.
  Only the order in which the calls of the two appear in the journal
  differs.
\<close>

theorem steps_commute:
  assumes "actor a = Some i" and "actor b = Some j" and "i \<noteq> j"
    and "run s [a, b] = Some s'"
  shows "\<exists>s''. run s [b, a] = Some s'' \<and> same_view s'' s'"
proof -
  from assms(4) obtain s1 where a: "step s a = Some s1" and b: "step s1 b = Some s'"
    by (auto simp: bind_eq_Some_conv)
  from a assms(1) obtain p q where p: "pc_at s i = Some p"
    and q: "react (loaded s) (store s) a p = Some q" and s1: "s1 = lift i s q"
    by (auto simp: step_react bind_eq_Some_conv)
  from b assms(2,3) obtain p' r where p': "pc_at s j = Some p'"
    and r: "react (loaded s) (store s) b p' = Some r" and s': "s' = lift j s1 r"
    by (auto simp: step_react [of b j] bind_eq_Some_conv s1 pc_at_lift split: if_splits)
  from p p' q r assms(1-3) have "run s [b, a] = Some (lift i (lift j s r) q)"
    by (simp add: step_react [of a i] step_react [of b j] pc_at_lift)
  with assms(3) show ?thesis
    by (auto simp: s' s1 same_view_lift_lift)
qed

theorem steps_commute_witness:
  "actor (Begin 0) = Some 0 \<and> actor (Begin 1) = Some 1 \<and> (0::nat) \<noteq> 1
    \<and> run example_two [Begin 0, Begin 1] = Some example_two_begun
    \<and> (\<exists>s''. run example_two [Begin 1, Begin 0] = Some s'' \<and> same_view s'' example_two_begun)"
proof -
  have "run example_two [Begin 0, Begin 1] = Some example_two_begun"
    by (simp add: example_two_def example_two_begun_def system_defs truthy_data_iff
        example_snapshot_def)
  with steps_commute [of "Begin 0" 0 "Begin 1" 1 example_two example_two_begun]
  show ?thesis by simp
qed

lemma react_drivers:
  assumes "db ''drivers'' = db' ''drivers''"
  shows "react up db a p = react up db' a p"
  using assms
  by (cases "(up, db, a, p)" rule: react.cases; cases a) (simp_all add: available_tokens_eq)

text \<open>
  C32. A write to the database by another flow commutes with every step of
  an invocation but one, the step at which the query is answered, and with
  that step too if it leaves the drivers collection as it was: the handler
  reads the database nowhere else, and nothing of it but that collection.
\<close>

theorem write_commutes:
  assumes "actor a = Some i"
    and "a \<noteq> QuerySettles i None \<or> db ''drivers'' = store s ''drivers''"
  shows "run s [Write db, a] = run s [a, Write db]"
proof -
  have "react (loaded s) db a p = react (loaded s) (store s) a p" for p
    using assms react_store [of a i "loaded s" db p "store s"]
      react_drivers [of db "store s" "loaded s" a p]
    by blast
  then show ?thesis
    using assms(1)
    by (cases "pc_at s i")
      (auto simp: step_react [of a i] pc_at_def lift_def split: bind_split if_splits)
qed

theorem write_commutes_witness:
  "actor (QuerySettles 0 None) = Some 0
    \<and> (\<lambda>path. if path = ''requests'' then [] else example_db path) ''drivers''
      = store example_querying ''drivers''
    \<and> run example_querying
        [Write (\<lambda>path. if path = ''requests'' then [] else example_db path), QuerySettles 0 None]
      = run example_querying
        [QuerySettles 0 None, Write (\<lambda>path. if path = ''requests'' then [] else example_db path)]"
  using write_commutes [of "QuerySettles 0 None" 0
      "\<lambda>path. if path = ''requests'' then [] else example_db path" example_querying]
  by (simp add: example_querying_def)

section \<open>Events that are delivered again\<close>

text \<open>
  The platform delivers a creation event at least once, and it may run a
  rejected invocation again. Both are a further \<open>Trigger\<close> with the same
  snapshot. The handler keeps no record of the requests that it has served.
\<close>

text \<open>
  C34. Every delivery of a creation event with a payload notifies the
  drivers, whatever happened before: in any system with the module loaded
  and a token to send to, the delivery and the first two steps of the
  invocation that it starts add one message to the messages sent so far,
  also when the same event was delivered and served before.
\<close>

theorem every_delivery_notifies:
  assumes "loaded s" and "triggers (snap_path snap)" and "snap_fields snap \<noteq> None"
    and "available_tokens (store s) \<noteq> []"
  shows "\<exists>s'. run s (served s snap) = Some s'
    \<and> sent (map snd (journal s'))
        = sent (map snd (journal s)) @ [build_message (available_tokens (store s))]"
  using assms
  by (simp add: served_def pc_at_def nth_append truthy_data_iff Let_def)

theorem every_delivery_notifies_witness:
  "loaded example_final \<and> triggers (snap_path example_snapshot)
    \<and> snap_fields example_snapshot \<noteq> None \<and> available_tokens (store example_final) \<noteq> []
    \<and> (\<exists>s'. run example_final (served example_final example_snapshot) = Some s'
        \<and> sent (map snd (journal s'))
            = [build_message [JStr ''A'', JStr ''B''], build_message [JStr ''A'', JStr ''B'']])"
  using every_delivery_notifies [of example_final example_snapshot]
  by (simp add: example_final_def example_tokens example_snapshot_def)

end
