(* ===== verification/Schedule.thy ===== *)
theory Schedule
  imports Interleaving
begin

text \<open>
  Running the invocations of a system to their end. The platform answers
  every call of \<^verbatim>\<open>src/functions/index.js\<close> sooner or later; \<open>schedule\<close> is
  one way in which it may do so: it takes the first invocation that has not
  settled, lets it take its next step with the answer of the platform, and
  goes on until no invocation is left. The recursion is not structural: it
  ends because every step lowers \<open>work\<close>, the number of steps that the
  invocations of the system can still take.

  The lemmas show that the schedule is a run of the system, that it ends
  with every invocation settled, and how long it is at most.
\<close>

section \<open>The work left and the schedule\<close>

definition pending :: "system \<Rightarrow> nat list" where
  "pending s = filter (\<lambda>i. \<not> is_final (pcs s ! i)) [0..<length (pcs s)]"

definition work :: "system \<Rightarrow> nat" where
  "work s = sum_list (map remaining (pcs s))"

definition handler_action :: "action \<Rightarrow> bool" where
  "handler_action a \<longleftrightarrow> actor a \<noteq> None"

lemma react_remaining:
  "react up db a p = Some r \<Longrightarrow> remaining (fst r) < remaining p"
  by (cases "(up, db, a, p)" rule: react.cases) (auto simp: Let_def split: if_splits)

lemma work_lift:
  assumes "i < length (pcs s)" and "remaining (fst r) < remaining (pcs s ! i)"
  shows "work (lift i s r) < work s"
proof -
  have "remaining (pcs s ! i) \<le> work s"
    using assms(1) by (simp add: work_def member_le_sum_list)
  with assms show ?thesis
    by (simp add: work_def map_update sum_list_update)
qed

lemma step_work:
  assumes "actor a = Some i" and "step s a = Some s'"
  shows "work s' < work s"
proof -
  from assms obtain p r where "pc_at s i = Some p"
    and "react (loaded s) (store s) a p = Some r" and "s' = lift i s r"
    by (auto simp: step_react bind_eq_Some_conv)
  then show ?thesis
    by (auto simp: pc_at_Some_iff intro!: work_lift dest: react_remaining)
qed

lemma actor_next_action: "next_action i pf p = Some a \<Longrightarrow> actor a = Some i"
  by (cases p) auto

function schedule :: "platform \<Rightarrow> system \<Rightarrow> action list" where
  "schedule pf s =
     (case pending s of
        [] \<Rightarrow> []
      | i # rest \<Rightarrow>
         (case next_action i pf (pcs s ! i) of
            None \<Rightarrow> []
          | Some a \<Rightarrow> (case step s a of None \<Rightarrow> [] | Some s' \<Rightarrow> a # schedule pf s')))"
  by pat_completeness auto

termination
  by (relation "measure (\<lambda>(pf, s). work s)") (auto dest: actor_next_action step_work)

declare schedule.simps [simp del]

section \<open>What is pending\<close>

lemma pending_Nil_iff: "pending s = [] \<longleftrightarrow> list_all is_final (pcs s)"
  by (auto simp: pending_def filter_empty_conv list_all_length)

lemma pending_Cons:
  assumes "pending s = i # rest"
  shows "i < length (pcs s)" and "\<not> is_final (pcs s ! i)"
proof -
  from assms have "i \<in> set (pending s)" by simp
  then show "i < length (pcs s)" and "\<not> is_final (pcs s ! i)"
    by (simp_all add: pending_def)
qed

lemma pending_step:
  assumes "pending s = i # rest"
  shows "\<exists>a s'. next_action i pf (pcs s ! i) = Some a \<and> actor a = Some i \<and> step s a = Some s'"
proof -
  from pending_Cons [OF assms] have "pc_at s i = Some (pcs s ! i)" and "\<not> is_final (pcs s ! i)"
    by (simp_all add: pc_at_def)
  then show ?thesis
    by (cases "pcs s ! i"; cases "get_fault pf drivers_query";
        cases "multicast pf (case pcs s ! i of AwaitingSend m \<Rightarrow> m)")
      (auto simp: Let_def)
qed

lemma schedule_settled: "pending s = [] \<Longrightarrow> schedule pf s = []"
  by (subst schedule.simps) simp

lemma schedule_pending:
  assumes "pending s = i # rest" and "next_action i pf (pcs s ! i) = Some a"
    and "step s a = Some s'"
  shows "schedule pf s = a # schedule pf s'"
  using assms by (subst schedule.simps) simp

lemma work_le: "work s \<le> 3 * length (pcs s)"
  unfolding work_def by (rule sum_list_map_le) simp

section \<open>The schedule is a run that settles every invocation\<close>

lemma schedule_run:
  "\<exists>s'. run s (schedule pf s) = Some s' \<and> pending s' = []
     \<and> length (schedule pf s) + work s' \<le> work s
     \<and> store s' = store s \<and> loaded s' = loaded s \<and> length (pcs s') = length (pcs s)
     \<and> list_all handler_action (schedule pf s)"
proof (induction pf s rule: schedule.induct)
  case (1 pf s)
  show ?case
  proof (cases "pending s")
    case Nil
    then show ?thesis by (simp add: schedule_settled)
  next
    case (Cons i rest)
    from pending_step [OF Cons, of pf] obtain a s1
      where a: "next_action i pf (pcs s ! i) = Some a" and i: "actor a = Some i"
        and s1: "step s a = Some s1"
      by blast
    from "1.IH" [OF Cons a s1] obtain s' where s': "run s1 (schedule pf s1) = Some s'"
      "pending s' = []" "length (schedule pf s1) + work s' \<le> work s1"
      "store s' = store s1" "loaded s' = loaded s1" "length (pcs s') = length (pcs s1)"
      "list_all handler_action (schedule pf s1)"
      by blast
    from i s1 have frame: "store s1 = store s" "loaded s1 = loaded s"
      "length (pcs s1) = length (pcs s)"
      by (auto simp: transition_iff_step [symmetric] dest: transition_actor_frame)
    from i have "handler_action a" by (simp add: handler_action_def)
    with step_work [OF i s1] s' frame s1 show ?thesis
      by (simp add: schedule_pending [OF Cons a s1])
  qed
qed

text \<open>
  C35. From every state of the system the invocations that have not settled
  can all be brought to their end: the schedule is a run of the system that
  consists of steps of invocations only, takes at most three steps for each
  invocation, leaves the database as it is, and ends with every invocation
  resolved or rejected.
\<close>

theorem schedule_settles_all:
  "\<exists>s'. run s (schedule pf s) = Some s' \<and> list_all is_final (pcs s')
     \<and> length (schedule pf s) \<le> 3 * length (pcs s)
     \<and> list_all handler_action (schedule pf s) \<and> store s' = store s"
proof -
  from schedule_run [of s pf] obtain s' where s': "run s (schedule pf s) = Some s'"
    "pending s' = []" "length (schedule pf s) + work s' \<le> work s" "store s' = store s"
    "list_all handler_action (schedule pf s)"
    by blast
  from s'(3) work_le [of s] have "length (schedule pf s) \<le> 3 * length (pcs s)"
    by simp
  with s' show ?thesis
    by (auto simp: pending_Nil_iff)
qed

lemma schedule_example:
  "schedule example_platform example_started
     = [Begin 0, QuerySettles 0 None, SendSettles 0 (Inr \<lparr>successCount = 2\<rparr>)]"
  by (simp add: schedule.simps pending_def example_started_def system_defs example_ready
      example_tokens build_message_def Let_def)

end
