(* ===== verification/Abstraction.thy ===== *)
theory Abstraction
  imports Contract Schedule
begin

text \<open>
  How the model of \<^verbatim>\<open>src/functions/index.js\<close> is read in the terms of the
  contract: a driver document as a typed driver (\<open>abs_driver\<close>, for
  documents that \<open>conforms\<close> to the schema), a run of the handler as a
  result of the contract (\<open>observe\<close>), and a system of invocations as a
  state of the machine of the contract (\<open>abs_system\<close>, \<open>abs_action\<close>). The
  lemmas are the steps of the two refinement proofs of the root theory: the
  tokens that the loop collects are the recipients of the contract
  (\<open>tokens_refine\<close>), and a step of the system is a step of the machine
  (\<open>react_refines\<close>, \<open>step_refines\<close>, \<open>run_refines\<close>).
\<close>

section \<open>From the code's run to the contract's terms\<close>

text \<open>
  \<open>abs_driver\<close> reads a document as a driver record; \<open>conforms\<close> says that the
  document follows the schema (the token is absent, null or a string).
  \<open>abs_deliver\<close> is the push service as the contract sees it. \<open>observe\<close>
  reads the outcome and the calls of a run as a result of the contract; it
  is undefined on a run of any other shape, on a message with another title
  or body and on a token that is not a string.
\<close>

fun string_of :: "jsval \<Rightarrow> string option" where
  "string_of (JStr s) = Some s"
| "string_of v = None"

definition abs_driver :: "document \<Rightarrow> driver" where
  "abs_driver doc = \<lparr>available = is_available doc, token = string_of (fcmToken doc)\<rparr>"

definition conforms :: "document \<Rightarrow> bool" where
  "conforms doc \<longleftrightarrow> fcmToken doc = JUndefined \<or> fcmToken doc = JNull \<or> is_string (fcmToken doc)"

definition abs_deliver :: "platform \<Rightarrow> string list \<Rightarrow> error + nat" where
  "abs_deliver pf ts = map_sum id successCount (multicast pf (build_message (map JStr ts)))"

definition spec_message :: "multicast_message \<Rightarrow> string list option" where
  "spec_message m =
     (if notification m = \<lparr>title = spec_title, body = spec_body\<rparr>
      then those (map string_of (tokens m)) else None)"

fun observe :: "(error + unit) \<times> effect list \<Rightarrow> spec_result option" where
  "observe (Inr u, []) = Some Skipped"
| "observe (Inr u, [FirestoreGet q]) = (if q = drivers_query then Some NoRecipients else None)"
| "observe (Inl e, [FirestoreGet q]) = (if q = drivers_query then Some (QueryFailed e) else None)"
| "observe (Inl e, [FirestoreGet q, SendMulticast m]) =
     (if q = drivers_query then map_option (\<lambda>ts. SendFailed ts e) (spec_message m) else None)"
| "observe (Inr u, [FirestoreGet q, SendMulticast m, ConsoleLog s]) =
     (if q = drivers_query
      then Option.bind (spec_message m) (\<lambda>ts. map_option (Notified ts) (logged_count s))
      else None)"
| "observe r = None"

definition counts_at_most_sent :: "platform \<Rightarrow> bool" where
  "counts_at_most_sent pf \<longleftrightarrow>
     (\<forall>m r. multicast pf m = Inr r \<longrightarrow> successCount r \<le> length (tokens m))"

text \<open>A driver document that does not follow the schema: its token is a number.\<close>

definition driver_E :: document where
  "driver_E =
     \<lparr>doc_id = ''driverE'', doc_fields = [(''isAvailable'', JBool True), (''fcmToken'', JNum 42)]\<rparr>"

section \<open>From the system of invocations to the machine of the contract\<close>

text \<open>
  \<open>abs_action\<close> reads an action of the system as an action of the machine:
  the load of the module is not seen, a write is seen as the drivers it
  leaves. \<open>abs_pc\<close> reads the place of an invocation and the calls it made
  as the state of its request; \<open>abs_system\<close> does so for every invocation.
  \<open>typed\<close> says that the drivers of the database and the tokens of every
  message sent so far follow the schema, and \<open>conforming_action\<close> that a
  write leaves drivers that do.
\<close>

definition addressees :: "multicast_message \<Rightarrow> string list" where
  "addressees m = List.map_filter string_of (tokens m)"

definition result_of :: "error + unit \<Rightarrow> effect list \<Rightarrow> spec_result" where
  "result_of r cs = (case observe (r, cs) of Some res \<Rightarrow> res | None \<Rightarrow> Skipped)"

fun abs_pc :: "pc \<Rightarrow> effect list \<Rightarrow> request" where
  "abs_pc (Started snap) cs = Created (snap_fields snap \<noteq> None)"
| "abs_pc AwaitingQuery cs = Querying"
| "abs_pc (AwaitingSend m) cs = Sending (addressees m)"
| "abs_pc Resolved cs = Finished (result_of (Inr ()) cs)"
| "abs_pc (Rejected e) cs = Finished (result_of (Inl e) cs)"

definition abs_system :: "system \<Rightarrow> spec_system" where
  "abs_system s =
     \<lparr>drivers = map abs_driver (store s ''drivers''),
      requests = map (\<lambda>i. abs_pc (pcs s ! i) (calls_of i s)) [0..<length (pcs s)]\<rparr>"

fun abs_action :: "action \<Rightarrow> spec_action" where
  "abs_action Load = Stutter"
| "abs_action (Trigger snap) = Create (snap_fields snap \<noteq> None)"
| "abs_action (Write db) = Update (map abs_driver (db ''drivers''))"
| "abs_action (Begin i) = Start i"
| "abs_action (QuerySettles i fault) = Answer i fault"
| "abs_action (SendSettles i answer) = Deliver i (map_sum id successCount answer)"

definition string_tokens :: "multicast_message \<Rightarrow> bool" where
  "string_tokens m \<longleftrightarrow> list_all is_string (tokens m)"

definition typed :: "system \<Rightarrow> bool" where
  "typed s \<longleftrightarrow> list_all conforms (store s ''drivers'')
     \<and> list_all string_tokens (sent (map snd (journal s)))"

fun conforming_action :: "action \<Rightarrow> bool" where
  "conforming_action (Write db) = list_all conforms (db ''drivers'')"
| "conforming_action a = True"

section \<open>The tokens of conforming documents\<close>

lemma those_map_Some [simp]: "those (map (\<lambda>x. Some (f x)) xs) = Some (map f xs)"
  by (induction xs) simp_all

lemma spec_message_build: "spec_message (build_message (map JStr ts)) = Some ts"
  by (simp add: spec_message_def build_message_def spec_title_def spec_body_def
      notification_title_def notification_body_def comp_def)

lemma recipient_abs_driver:
  "recipient (abs_driver doc) =
     (if is_available doc \<and> is_string (fcmToken doc) \<and> truthy (fcmToken doc)
      then string_of (fcmToken doc) else None)"
  by (cases "fcmToken doc") (simp_all add: abs_driver_def recipient_def)

lemma tokens_refine:
  assumes "list_all conforms docs"
  shows "collect_tokens (filter is_available docs) = map JStr (recipients (map abs_driver docs))"
  using assms
proof (induction docs)
  case Nil
  then show ?case by simp
next
  case (Cons doc docs)
  then have "conforms doc"
    and IH: "collect_tokens (filter is_available docs) = map JStr (recipients (map abs_driver docs))"
    by simp_all
  from \<open>conforms doc\<close> show ?case
    by (cases "fcmToken doc") (simp_all add: IH conforms_def recipient_abs_driver)
qed

lemma available_tokens_refine:
  "list_all conforms (db ''drivers'') \<Longrightarrow>
   available_tokens db = map JStr (recipients (map abs_driver (db ''drivers'')))"
  by (simp add: available_tokens_def available_drivers_eq tokens_refine)

lemma available_tokens_strings:
  "list_all conforms (db ''drivers'') \<Longrightarrow> list_all is_string (available_tokens db)"
  by (simp add: available_tokens_refine list_all_iff)

lemma example_conforms: "list_all conforms (firestore example_world ''drivers'')"
  by (simp add: example_defs conforms_def fcmToken_def doc_data_def)

section \<open>The system of invocations implements the machine of the contract\<close>

lemma addressees_build [simp]: "addressees (build_message (map JStr ts)) = ts"
  by (induction ts) (simp_all add: addressees_def build_message_def)

lemma those_string_of:
  "list_all is_string vs \<Longrightarrow> those (map string_of vs) = Some (List.map_filter string_of vs)"
proof (induction vs)
  case Nil
  show ?case by simp
next
  case (Cons v vs)
  then show ?case by (cases v) simp_all
qed

lemma spec_message_good:
  "good_message m \<Longrightarrow> string_tokens m \<Longrightarrow> spec_message m = Some (addressees m)"
  by (simp add: spec_message_def good_message_def string_tokens_def addressees_def
      those_string_of spec_title_def spec_body_def notification_title_def notification_body_def)

lemma string_tokens_build:
  "list_all conforms (db ''drivers'') \<Longrightarrow> string_tokens (build_message (available_tokens db))"
  by (simp add: string_tokens_def build_message_def available_tokens_strings)

text \<open>
  One step of the handler, seen from the invocation, is one step of its
  request: the local form of the refinement.
\<close>

lemma react_refines:
  assumes "react up db a p = Some (p', es)" and "calls_ok p cs" and up
    and "list_all conforms (db ''drivers'')" and "list_all string_tokens (sent cs)"
  shows "spec_react (map abs_driver (db ''drivers'')) (abs_action a) (abs_pc p cs)
      = Some (abs_pc p' (cs @ es))"
  using assms
  by (cases "(up, db, a, p)" rule: react.cases)
    (auto simp: result_of_def available_tokens_refine spec_message_good logged_count_log_line
      truthy_data_iff Let_def split: if_splits)

lemma react_typed:
  assumes "react up db a p = Some (p', es)" and "list_all conforms (db ''drivers'')"
  shows "list_all string_tokens (sent es)"
  using assms
  by (cases "(up, db, a, p)" rule: react.cases)
    (auto simp: string_tokens_build Let_def split: if_splits)

lemma sent_calls_of:
  "list_all P (sent (map snd (journal s))) \<Longrightarrow> list_all P (sent (calls_of i s))"
  by (force simp: list_all_iff sent_mem_iff calls_of_def)

lemma abs_system_lift:
  assumes "i < length (pcs s)"
  shows "abs_system (lift i s r)
    = (abs_system s)\<lparr>requests := (requests (abs_system s))[i := abs_pc (fst r) (calls_of i s @ snd r)]\<rparr>"
  using assms
  by (auto simp: abs_system_def calls_of_lift nth_list_update intro!: nth_equalityI)

lemma abs_system_trigger:
  "abs_system (s\<lparr>pcs := pcs s @ [Started snap]\<rparr>)
    = (abs_system s)\<lparr>requests := requests (abs_system s) @ [Created (snap_fields snap \<noteq> None)]\<rparr>"
  by (simp add: abs_system_def nth_append)

lemma abs_system_simps [simp]:
  "abs_system (s\<lparr>loaded := b\<rparr>) = abs_system s"
  "abs_system (s\<lparr>store := db\<rparr>) = (abs_system s)\<lparr>drivers := map abs_driver (db ''drivers'')\<rparr>"
  "abs_system init_system = spec_init"
  by (simp_all add: abs_system_def init_system_def spec_init_def)

lemma typed_simps [simp]:
  "typed (s\<lparr>loaded := b\<rparr>) = typed s"
  "typed (s\<lparr>pcs := ps\<rparr>) = typed s"
  "typed (s\<lparr>store := db\<rparr>)
     \<longleftrightarrow> list_all conforms (db ''drivers'') \<and> list_all string_tokens (sent (map snd (journal s)))"
  "typed init_system"
  by (simp_all add: typed_def init_system_def)

lemma handler_action_cases:
  "actor a = Some i \<Longrightarrow>
   abs_action a = Start i \<or> (\<exists>f. abs_action a = Answer i f) \<or> (\<exists>d. abs_action a = Deliver i d)"
  by (cases a) auto

lemma step_refines:
  assumes "system_ok s" and "typed s" and "conforming_action a" and "step s a = Some s'"
  shows "spec_step (abs_system s) (abs_action a) = Some (abs_system s') \<and> typed s'"
proof (cases "actor a")
  case None
  with assms show ?thesis
    by (cases a) (auto simp: abs_system_trigger typed_def split: if_splits)
next
  case (Some i)
  with assms(4) obtain p r where p: "pc_at s i = Some p"
    and r: "react (loaded s) (store s) a p = Some (fst r, snd r)" and s': "s' = lift i s r"
    by (auto simp: step_react bind_eq_Some_conv)
  from p have i: "i < length (pcs s)" and pi: "pcs s ! i = p"
    by (simp_all add: pc_at_Some_iff)
  from assms(1) i pi have ok: "calls_ok p (calls_of i s)" and up: "loaded s"
    by (auto dest: system_okD)
  from assms(2) have db: "list_all conforms (store s ''drivers'')"
    and msgs: "list_all string_tokens (sent (calls_of i s))"
    by (simp_all add: typed_def sent_calls_of)
  have "spec_react (map abs_driver (store s ''drivers'')) (abs_action a) (abs_pc p (calls_of i s))
      = Some (abs_pc (fst r) (calls_of i s @ snd r))"
    by (rule react_refines [OF r ok up db msgs])
  with handler_action_cases [OF Some] i pi
  have "spec_step (abs_system s) (abs_action a) = Some (abs_system s')"
    by (auto simp: s' abs_system_lift spec_move_def) (simp_all add: abs_system_def)
  moreover from react_typed [OF r db] assms(2) have "typed s'"
    by (simp add: s' typed_def comp_def)
  ultimately show ?thesis by simp
qed

lemma run_refines:
  assumes "system_ok s" and "typed s" and "list_all conforming_action as" and "run s as = Some s'"
  shows "spec_run (abs_system s) (map abs_action as) = Some (abs_system s') \<and> typed s'"
  using assms
proof (induction as arbitrary: s)
  case Nil
  then show ?case by simp
next
  case (Cons a as)
  from Cons.prems(4) obtain s1 where s1: "step s a = Some s1" and rest: "run s1 as = Some s'"
    by (auto simp: bind_eq_Some_conv)
  from Cons.prems(1) s1 have ok: "system_ok s1"
    by (auto simp: transition_iff_step [symmetric] intro: transition_system_ok)
  from Cons.prems(3) have "spec_step (abs_system s) (abs_action a) = Some (abs_system s1)"
    and "typed s1"
    using step_refines [OF Cons.prems(1,2) _ s1] by simp_all
  with Cons.IH [OF ok _ _ rest] Cons.prems(3) show ?case by simp
qed

end
