(* ===== verification/Program.thy ===== *)
theory Program
  imports Notifier
begin

text \<open>
  The body of the \<^verbatim>\<open>async\<close> function of \<^verbatim>\<open>src/functions/index.js\<close> (lines 7 to
  35) as a program: a tree of the calls it makes to the services, each
  awaited call holding the rest of the body as a function of its answer.

  \<^item> \<open>prog\<close>: the statement forms the body is made of, \<^verbatim>\<open>return\<close> (\<open>Return\<close>),
    \<^verbatim>\<open>await ... .get()\<close> (\<open>Get\<close>), \<^verbatim>\<open>await ... sendMulticast(...)\<close>
    (\<open>Multicast\<close>) and \<^verbatim>\<open>console.log(...)\<close> (\<open>Print\<close>);
  \<^item> \<open>after_send\<close> is what follows the second \<^verbatim>\<open>await\<close> (line 34),
    \<open>after_query\<close> what follows the first (lines 16 to 34), and
    \<open>handler_program\<close> the body from its first statement (lines 8 to 14);
  \<^item> \<open>exec\<close> runs a program as a promise of the platform theory, and
    \<open>behaviour\<close> gives the same run as a value: how the program settles and
    the calls it makes, for a platform, an app and a database;
  \<^item> a \<open>task\<close> is a program in the hands of the runtime: not yet begun,
    suspended at an awaited call that has been made, or settled.
    \<open>proceed\<close> runs a program to its next suspension, \<open>task_step\<close> delivers an
    \<open>event\<close> to a task, and \<open>drive\<close> delivers the events that the platform
    \<open>expected\<close> answers with, as many as its fuel allows. \<open>awaits\<close> counts
    the suspensions of a run, so that \<open>Suc (awaits ...)\<close> is fuel enough;
    \<open>settles\<close> is the relation between a task and its outcome that these
    deliveries define, without fuel.

  The lemmas show that the three semantics agree on every program, and that
  the program of the handler is the handler of the handler theory.
\<close>

section \<open>Programs\<close>

datatype 'a prog =
    Return 'a
  | Get query "document list \<Rightarrow> 'a prog"
  | Multicast multicast_message "batch_response \<Rightarrow> 'a prog"
  | Print string "'a prog"

definition after_send :: "batch_response \<Rightarrow> unit prog" where
  "after_send response = Print (log_line response) (Return ())"

definition after_query :: "document list \<Rightarrow> unit prog" where
  "after_query driverSnapshot =
     (let toks = collect_tokens driverSnapshot in
      if length toks = 0 then Return ()
      else let message = build_message toks in Multicast message after_send)"

definition handler_program :: "snapshot \<Rightarrow> 'c \<Rightarrow> unit prog" where
  "handler_program snap context =
     (let requestData = data snap in
      if \<not> truthy requestData then Return ()
      else Get drivers_query after_query)"

section \<open>A program as a promise\<close>

primrec exec :: "platform \<Rightarrow> 'a prog \<Rightarrow> 'a io" where
  "exec pf (Return x) = resolve x"
| "exec pf (Get q k) = await (firestore_get pf q) (\<lambda>docs. exec pf (k docs))"
| "exec pf (Multicast m k) = await (sendMulticast pf m) (\<lambda>response. exec pf (k response))"
| "exec pf (Print s p) = await (console_log s) (\<lambda>u. exec pf p)"

section \<open>A program as its outcome and its calls\<close>

definition calling :: "effect \<Rightarrow> 'r \<times> effect list \<Rightarrow> 'r \<times> effect list" where
  "calling e run = (fst run, e # snd run)"

primrec behaviour :: "platform \<Rightarrow> bool \<Rightarrow> database \<Rightarrow> 'a prog \<Rightarrow> (error + 'a) \<times> effect list" where
  "behaviour pf up db (Return x) = (Inr x, [])"
| "behaviour pf up db (Get q k) =
     (if \<not> up then (Inl NoApp, [])
      else case get_fault pf q of
             Some e \<Rightarrow> (Inl e, [FirestoreGet q])
           | None \<Rightarrow> calling (FirestoreGet q) (behaviour pf up db (k (run_query db q))))"
| "behaviour pf up db (Multicast m k) =
     (if \<not> up then (Inl NoApp, [])
      else case multicast pf m of
             Inl e \<Rightarrow> (Inl e, [SendMulticast m])
           | Inr response \<Rightarrow> calling (SendMulticast m) (behaviour pf up db (k response)))"
| "behaviour pf up db (Print s p) = calling (ConsoleLog s) (behaviour pf up db p)"

primrec awaits :: "platform \<Rightarrow> bool \<Rightarrow> database \<Rightarrow> 'a prog \<Rightarrow> nat" where
  "awaits pf up db (Return x) = 0"
| "awaits pf up db (Get q k) =
     (if \<not> up then 0
      else case get_fault pf q of
             Some e \<Rightarrow> 1
           | None \<Rightarrow> Suc (awaits pf up db (k (run_query db q))))"
| "awaits pf up db (Multicast m k) =
     (if \<not> up then 0
      else case multicast pf m of
             Inl e \<Rightarrow> 1
           | Inr response \<Rightarrow> Suc (awaits pf up db (k response)))"
| "awaits pf up db (Print s p) = awaits pf up db p"

section \<open>A program in the hands of the runtime\<close>

datatype 'a task =
    Fresh "'a prog"
  | Waiting "'a prog"
  | Done "error + 'a"

datatype event =
    Go
  | QueryAnswered "error option"
  | SendAnswered "error + batch_response"

primrec proceed :: "bool \<Rightarrow> 'a prog \<Rightarrow> 'a task \<times> effect list" where
  "proceed up (Return x) = (Done (Inr x), [])"
| "proceed up (Get q k) =
     (if up then (Waiting (Get q k), [FirestoreGet q]) else (Done (Inl NoApp), []))"
| "proceed up (Multicast m k) =
     (if up then (Waiting (Multicast m k), [SendMulticast m]) else (Done (Inl NoApp), []))"
| "proceed up (Print s p) = calling (ConsoleLog s) (proceed up p)"

fun task_step :: "bool \<Rightarrow> database \<Rightarrow> event \<Rightarrow> 'a task \<Rightarrow> ('a task \<times> effect list) option" where
  "task_step up db Go (Fresh p) = Some (proceed up p)"
| "task_step up db (QueryAnswered (Some e)) (Waiting (Get q k)) = Some (Done (Inl e), [])"
| "task_step up db (QueryAnswered None) (Waiting (Get q k)) =
     Some (proceed up (k (run_query db q)))"
| "task_step up db (SendAnswered (Inl e)) (Waiting (Multicast m k)) = Some (Done (Inl e), [])"
| "task_step up db (SendAnswered (Inr response)) (Waiting (Multicast m k)) =
     Some (proceed up (k response))"
| "task_step up db ev t = None"

fun expected :: "platform \<Rightarrow> 'a task \<Rightarrow> event option" where
  "expected pf (Fresh p) = Some Go"
| "expected pf (Waiting (Get q k)) = Some (QueryAnswered (get_fault pf q))"
| "expected pf (Waiting (Multicast m k)) = Some (SendAnswered (multicast pf m))"
| "expected pf t = None"

definition after :: "effect list \<Rightarrow> ('r \<times> effect list) option \<Rightarrow> ('r \<times> effect list) option" where
  "after es run = map_option (\<lambda>(r, fs). (r, es @ fs)) run"

fun drive ::
  "nat \<Rightarrow> platform \<Rightarrow> bool \<Rightarrow> database \<Rightarrow> 'a task \<Rightarrow> ((error + 'a) \<times> effect list) option" where
  "drive n pf up db (Done r) = Some (r, [])"
| "drive 0 pf up db t = None"
| "drive (Suc n) pf up db t =
     (case Option.bind (expected pf t) (\<lambda>ev. task_step up db ev t) of
        None \<Rightarrow> None
      | Some (t', es) \<Rightarrow> after es (drive n pf up db t'))"

text \<open>
  The same deliveries as a relation, without fuel: \<open>settles pf up db t x\<close>
  holds when delivering to \<open>t\<close> the events that the platform answers with
  ends with the outcome and the calls \<open>x\<close>.
\<close>

inductive settles ::
  "platform \<Rightarrow> bool \<Rightarrow> database \<Rightarrow> 'a task \<Rightarrow> (error + 'a) \<times> effect list \<Rightarrow> bool"
  for pf :: platform and up :: bool and db :: database where
  at_end: "settles pf up db (Done r) (r, [])"
| delivery: "expected pf t = Some ev \<Longrightarrow> task_step up db ev t = Some (t', es) \<Longrightarrow>
     settles pf up db t' (r, fs) \<Longrightarrow> settles pf up db t (r, es @ fs)"


declare after_send_def [model_defs] after_query_def [model_defs] handler_program_def [model_defs]
  calling_def [model_defs] after_def [model_defs]

section \<open>The program of the handler is the handler\<close>

lemma exec_after_send: "exec pf (after_send response) = console_log (log_line response)"
  by (simp add: after_send_def await_then_resolve)

lemma exec_handler_program:
  "exec pf (handler_program snap ctx) = sendDriverNotification pf snap ctx"
  by (simp add: handler_program_def after_query_def sendDriverNotification_def Let_def
      exec_after_send if_distrib [of "exec pf"] cong: if_cong)

section \<open>The promise of a program only appends its calls\<close>

lemma calling_simps [simp]:
  "fst (calling e run) = fst run" "snd (calling e run) = e # snd run"
  by (simp_all add: calling_def)

definition extend :: "world \<Rightarrow> effect list \<Rightarrow> world" where
  "extend w es = w\<lparr>trace := trace w @ es\<rparr>"

lemma extend_simps [simp]:
  "extend w [] = w" "extend (emit e w) es = extend w (e # es)"
  "app_initialized (extend w es) = app_initialized w" "firestore (extend w es) = firestore w"
  "trace (extend w es) = trace w @ es"
  by (simp_all add: extend_def emit_def push_def)

lemma exec_behaviour:
  "exec pf p w =
     (fst (behaviour pf (app_initialized w) (firestore w) p),
      extend w (snd (behaviour pf (app_initialized w) (firestore w) p)))"
proof (induction p arbitrary: w)
  case (Return x)
  show ?case by (simp add: resolve_def)
next
  case (Get q k)
  then show ?case
    by (simp add: await_def firestore_get_def split: option.splits)
next
  case (Multicast m k)
  then show ?case
    by (simp add: await_def sendMulticast_def split: sum.splits)
next
  case (Print s p)
  then show ?case
    by (simp add: await_def console_log_def)
qed

lemma settled_exec: "settled (exec pf p) w = fst (behaviour pf (app_initialized w) (firestore w) p)"
  by (simp add: settled_def exec_behaviour)

lemma new_effects_exec:
  "new_effects (exec pf p) w = snd (behaviour pf (app_initialized w) (firestore w) p)"
  by (simp add: new_effects_def world_after_def exec_behaviour)

section \<open>Driving a task gives the behaviour of its program\<close>

lemma after_simps [simp]:
  "after es None = None" "after es (Some (r, fs)) = Some (r, es @ fs)"
  "after [] run = run" "after es (after fs run) = after (es @ fs) run"
  by (cases run; simp add: after_def split: prod.splits)+

lemma drive_Done [simp]: "drive n pf up db (Done r) = Some (r, [])"
  by (cases n) simp_all

lemma after_Cons_calling: "after (e # es) run = Some (calling e b) \<longleftrightarrow> after es run = Some b"
  by (cases run; cases b) (auto simp: after_def calling_def)

lemma drive_Suc_Get:
  "drive (Suc n) pf up db (Waiting (Get q k)) =
     (case get_fault pf q of
        Some e \<Rightarrow> Some (Inl e, [])
      | None \<Rightarrow> after (snd (proceed up (k (run_query db q))))
                 (drive n pf up db (fst (proceed up (k (run_query db q))))))"
  by (simp split: option.splits prod.splits)

lemma drive_Suc_Multicast:
  "drive (Suc n) pf up db (Waiting (Multicast m k)) =
     (case multicast pf m of
        Inl e \<Rightarrow> Some (Inl e, [])
      | Inr response \<Rightarrow> after (snd (proceed up (k response)))
                 (drive n pf up db (fst (proceed up (k response)))))"
  by (simp split: sum.splits prod.splits)

lemma drive_proceed:
  "awaits pf up db p \<le> n \<Longrightarrow>
   after (snd (proceed up p)) (drive n pf up db (fst (proceed up p))) = Some (behaviour pf up db p)"
proof (induction p arbitrary: n)
  case (Return x)
  show ?case by simp
next
  case (Get q k)
  from Get.prems Get.IH [OF rangeI, of "run_query db q" "n - 1"] show ?case
    by (cases n)
      (auto simp del: drive.simps simp: drive_Done drive_Suc_Get after_Cons_calling
        after_Cons_calling [of _ "[]", simplified] split: option.splits)
next
  case (Multicast m k)
  from Multicast.prems Multicast.IH [OF rangeI, of _ "n - 1"] show ?case
    by (cases n)
      (auto simp del: drive.simps simp: drive_Done drive_Suc_Multicast after_Cons_calling
        after_Cons_calling [of _ "[]", simplified] split: sum.splits)
next
  case (Print s p)
  from Print.IH [of n] Print.prems show ?case
    by (simp add: after_Cons_calling)
qed

lemma drive_Fresh:
  "awaits pf up db p < n \<Longrightarrow> drive n pf up db (Fresh p) = Some (behaviour pf up db p)"
  using drive_proceed [of pf up db p "n - 1"]
  by (cases n) (auto split: prod.splits option.splits)

text \<open>With less fuel than the run has suspensions, the task is still suspended.\<close>

lemma drive_0: "drive 0 pf up db t = (case t of Done r \<Rightarrow> Some (r, []) | _ \<Rightarrow> None)"
  by (cases t) simp_all

lemma drive_proceed_short:
  "n < awaits pf up db p \<Longrightarrow> drive n pf up db (fst (proceed up p)) = None"
proof (induction p arbitrary: n)
  case (Return x)
  then show ?case by simp
next
  case (Get q k)
  from Get.prems Get.IH [OF rangeI, of "n - 1" "run_query db q"] show ?case
    by (cases n)
      (auto simp del: drive.simps simp: drive_0 drive_Suc_Get split: option.splits if_splits)
next
  case (Multicast m k)
  from Multicast.prems Multicast.IH [OF rangeI, of "n - 1"] show ?case
    by (cases n)
      (auto simp del: drive.simps simp: drive_0 drive_Suc_Multicast split: sum.splits if_splits)
next
  case (Print s p)
  then show ?case by simp
qed

lemma drive_Fresh_short:
  "n \<le> awaits pf up db p \<Longrightarrow> drive n pf up db (Fresh p) = None"
  using drive_proceed_short [of "n - 1" pf up db p]
  by (cases n) (auto split: prod.splits)

lemma drive_Fresh_None_iff:
  "drive n pf up db (Fresh p) = None \<longleftrightarrow> n \<le> awaits pf up db p"
proof (cases "awaits pf up db p < n")
  case True
  then show ?thesis by (simp add: drive_Fresh)
next
  case False
  then show ?thesis by (simp add: drive_Fresh_short)
qed

lemma drive_exec:
  "awaits pf (app_initialized w) (firestore w) p < n \<Longrightarrow>
   drive n pf (app_initialized w) (firestore w) (Fresh p)
     = Some (settled (exec pf p) w, new_effects (exec pf p) w)"
  by (simp add: drive_Fresh settled_exec new_effects_exec)

section \<open>Settling without fuel\<close>


lemma settles_drive: "settles pf up db t x \<Longrightarrow> \<exists>n. drive n pf up db t = Some x"
proof (induction rule: settles.induct)
  case (at_end r)
  show ?case by simp
next
  case (delivery t ev t' es r fs)
  then obtain n where "drive n pf up db t' = Some (r, fs)" by blast
  with delivery.hyps(1,2) have "drive (Suc n) pf up db t = Some (r, es @ fs)"
    by (cases t) simp_all
  then show ?case ..
qed





section \<open>The suspensions of the handler\<close>

lemma awaits_handler_program:
  "awaits pf up db (handler_program snap ctx) =
     (if \<not> truthy (data snap) \<or> \<not> up then 0
      else if get_fault pf drivers_query \<noteq> None \<or> available_tokens db = [] then 1
      else 2)"
  by (auto simp: handler_program_def after_query_def after_send_def Let_def
      available_tokens_def available_drivers_def split: option.splits sum.splits)

lemma awaits_handler_program_le: "awaits pf up db (handler_program snap ctx) \<le> 2"
  by (simp add: awaits_handler_program)

lemma behaviour_handler_program:
  "behaviour pf up db (handler_program snap ctx) =
     (if \<not> truthy (data snap) then (Inr (), [])
      else if \<not> up then (Inl NoApp, [])
      else case get_fault pf drivers_query of
        Some e \<Rightarrow> (Inl e, [FirestoreGet drivers_query])
      | None \<Rightarrow>
         let toks = available_tokens db in
         if toks = [] then (Inr (), [FirestoreGet drivers_query])
         else case multicast pf (build_message toks) of
           Inl e \<Rightarrow> (Inl e, [FirestoreGet drivers_query, SendMulticast (build_message toks)])
         | Inr r \<Rightarrow> (Inr (), [FirestoreGet drivers_query, SendMulticast (build_message toks),
             ConsoleLog (log_line r)]))"
  by (simp add: handler_program_def after_query_def after_send_def Let_def calling_def
      available_tokens_def available_drivers_def split: option.splits sum.splits)

lemma handler_task_example:
  "drive 3 example_platform True example_db (Fresh (handler_program example_snapshot ()))
     = Some (Inr (), [FirestoreGet drivers_query,
          SendMulticast (build_message [JStr ''A'', JStr ''B'']),
          ConsoleLog (log_line \<lparr>successCount = 2\<rparr>)])"
  by (simp add: drive_Fresh awaits_handler_program behaviour_handler_program example_tokens
      example_ready truthy_data_iff example_snapshot_def build_message_def numeral_2_eq_2)


text \<open>
  C19. An invocation of the handler settles: whatever the services answer,
  the runtime that starts the body and delivers the answers of the awaited
  calls has settled it after three deliveries, with the result and the calls
  of the handler; and it needs as many deliveries as the run has awaited
  calls, plus the one that starts it.
\<close>

theorem handler_task_settles:
  "drive 3 pf (app_initialized w) (firestore w) (Fresh (handler_program snap ctx))
     = Some (settled (sendDriverNotification pf snap ctx) w,
             new_effects (sendDriverNotification pf snap ctx) w)
   \<and> (drive n pf (app_initialized w) (firestore w) (Fresh (handler_program snap ctx)) = None
        \<longleftrightarrow> n \<le> awaits pf (app_initialized w) (firestore w) (handler_program snap ctx))"
proof -
  have "awaits pf (app_initialized w) (firestore w) (handler_program snap ctx) < 3"
    using awaits_handler_program_le [of pf "app_initialized w" "firestore w" snap ctx] by simp
  then show ?thesis
    by (simp add: drive_exec drive_Fresh_None_iff flip: exec_handler_program)
qed



end
