(* ===== verification/Runtime.thy ===== *)
theory Runtime
  imports Program Trigger
begin

text \<open>
  The platform that hosts a module such as \<^verbatim>\<open>src/functions/index.js\<close>, for
  any module: it loads the module once, keeps what the module exports, starts
  a task of the handler of every export whose pattern matches the path of a
  created document, and delivers the answers of the awaited calls to the
  suspended tasks, one at a time and in any order.

  \<^item> a \<open>registration\<close> is what
    \<^verbatim>\<open>functions.firestore.document(pattern).onCreate(handler)\<close> returns (lines
    5 to 7), the pattern and the handler, built by \<open>document_onCreate\<close>; the
    \<open>exports\<close> of a module are its registrations by name;
  \<^item> \<open>fire\<close> gives the program that one registration starts for a created
    document, and \<open>dispatch\<close> those of all exports;
  \<^item> a \<open>runtime\<close> holds whether the app exists, the exports, the database,
    the tasks and the journal of their calls; \<open>rt_step\<close> is one step of it,
    with the loader of the module as a parameter, and \<open>rt_run\<close> a sequence
    of steps;
  \<^item> \<open>suspended\<close> says that a task is where the runtime can leave one: a
    waiting task waits for a call. \<open>rt_ok\<close> is the invariant of the runtime;
  \<^item> \<open>own_events\<close> and \<open>feed\<close> give the run of one task inside a run of
    the runtime: tasks share nothing but the database (\<open>rt_run_own\<close>).

  Nothing here mentions the handler of the repository: the lemmas hold for
  every module, and the hosting theory applies them to this one.
\<close>

section \<open>Registrations and dispatch\<close>

record registration =
  reg_pattern :: string
  reg_handler :: "snapshot \<Rightarrow> event_context \<Rightarrow> unit prog"

type_synonym exports = "(string \<times> registration) list"

definition document_onCreate ::
  "string \<Rightarrow> (snapshot \<Rightarrow> event_context \<Rightarrow> unit prog) \<Rightarrow> registration" where
  "document_onCreate pattern handler = \<lparr>reg_pattern = pattern, reg_handler = handler\<rparr>"

definition fire :: "string \<Rightarrow> fields option \<Rightarrow> registration \<Rightarrow> unit prog option" where
  "fire path fs reg =
     map_option (\<lambda>ps. reg_handler reg \<lparr>snap_path = path, snap_fields = fs\<rparr> \<lparr>params = ps\<rparr>)
       (match_path (reg_pattern reg) path)"

definition dispatch :: "exports \<Rightarrow> string \<Rightarrow> fields option \<Rightarrow> unit prog list" where
  "dispatch ex path fs = List.map_filter (\<lambda>entry. fire path fs (snd entry)) ex"

section \<open>The runtime\<close>

record runtime =
  rt_up :: bool
  rt_exports :: exports
  rt_store :: database
  rt_tasks :: "unit task list"
  rt_journal :: "(nat \<times> effect) list"

datatype rt_action =
    Boot
  | DocumentCreated string "fields option"
  | Store database
  | Resume nat event

definition rt_init :: runtime where
  "rt_init = \<lparr>rt_up = False, rt_exports = [], rt_store = (\<lambda>path. []), rt_tasks = [],
     rt_journal = []\<rparr>"

definition rt_world :: "runtime \<Rightarrow> world" where
  "rt_world rt =
     \<lparr>app_initialized = rt_up rt, firestore = rt_store rt, trace = map snd (rt_journal rt)\<rparr>"

definition place :: "nat \<Rightarrow> runtime \<Rightarrow> unit task \<times> effect list \<Rightarrow> runtime" where
  "place i rt r =
     rt\<lparr>rt_tasks := (rt_tasks rt)[i := fst r], rt_journal := rt_journal rt @ map (Pair i) (snd r)\<rparr>"

fun rt_step :: "exports io \<Rightarrow> runtime \<Rightarrow> rt_action \<Rightarrow> runtime option" where
  "rt_step load rt Boot =
     (case load (rt_world rt) of
        (Inl e, w) \<Rightarrow> None
      | (Inr ex, w) \<Rightarrow> Some (rt\<lparr>rt_up := app_initialized w, rt_exports := ex\<rparr>))"
| "rt_step load rt (DocumentCreated path fs) =
     Some (rt\<lparr>rt_tasks := rt_tasks rt @ map Fresh (dispatch (rt_exports rt) path fs)\<rparr>)"
| "rt_step load rt (Store db) = Some (rt\<lparr>rt_store := db\<rparr>)"
| "rt_step load rt (Resume i ev) =
     (if i < length (rt_tasks rt)
      then map_option (place i rt) (task_step (rt_up rt) (rt_store rt) ev (rt_tasks rt ! i))
      else None)"

fun rt_run :: "exports io \<Rightarrow> runtime \<Rightarrow> rt_action list \<Rightarrow> runtime option" where
  "rt_run load rt [] = Some rt"
| "rt_run load rt (a # as) = Option.bind (rt_step load rt a) (\<lambda>rt'. rt_run load rt' as)"

section \<open>Where a task can be left\<close>

fun suspended :: "'a task \<Rightarrow> bool" where
  "suspended (Waiting (Return x)) = False"
| "suspended (Waiting (Print s p)) = False"
| "suspended t = True"

fun settled_task :: "'a task \<Rightarrow> bool" where
  "settled_task (Done r) = True"
| "settled_task t = False"

definition rt_ok :: "runtime \<Rightarrow> bool" where
  "rt_ok rt \<longleftrightarrow> list_all suspended (rt_tasks rt)
     \<and> list_all (\<lambda>entry. fst entry < length (rt_tasks rt)) (rt_journal rt)"

section \<open>One task in a run\<close>

text \<open>
  \<open>rt_calls\<close> are the calls that one task has made. \<open>own_events\<close> are
  the events delivered to one task in a run, each with the database of its
  moment, and \<open>feed\<close> delivers such events to a task.
\<close>

definition rt_calls :: "nat \<Rightarrow> runtime \<Rightarrow> effect list" where
  "rt_calls i rt = map snd (filter (\<lambda>entry. fst entry = i) (rt_journal rt))"

fun own_events :: "nat \<Rightarrow> database \<Rightarrow> rt_action list \<Rightarrow> (database \<times> event) list" where
  "own_events i db [] = []"
| "own_events i db (Store db' # as) = own_events i db' as"
| "own_events i db (Resume j ev # as) =
     (if j = i then (db, ev) # own_events i db as else own_events i db as)"
| "own_events i db (a # as) = own_events i db as"

fun feed :: "bool \<Rightarrow> (database \<times> event) list \<Rightarrow> 'a task \<Rightarrow> ('a task \<times> effect list) option" where
  "feed up [] t = Some (t, [])"
| "feed up ((db, ev) # evs) t =
     (case task_step up db ev t of
        None \<Rightarrow> None
      | Some (t', es) \<Rightarrow> after es (feed up evs t'))"

declare document_onCreate_def [model_defs] fire_def [model_defs] dispatch_def [model_defs]
  rt_init_def [model_defs] rt_world_def [model_defs] place_def [model_defs]

section \<open>Dispatch\<close>

lemma dispatch_Nil [simp]: "dispatch [] path fs = []"
  by (simp add: dispatch_def List.map_filter_simps)

lemma dispatch_Cons:
  "dispatch (entry # ex) path fs =
     (case fire path fs (snd entry) of
        None \<Rightarrow> dispatch ex path fs
      | Some p \<Rightarrow> p # dispatch ex path fs)"
  by (simp add: dispatch_def List.map_filter_simps split: option.splits)

lemma length_dispatch_le: "length (dispatch ex path fs) \<le> length ex"
  by (induction ex) (simp_all add: dispatch_Cons split: option.splits)

lemma fire_document_onCreate:
  "fire path fs (document_onCreate pattern handler) =
     map_option (\<lambda>ps. handler \<lparr>snap_path = path, snap_fields = fs\<rparr> \<lparr>params = ps\<rparr>)
       (match_path pattern path)"
  by (simp add: fire_def document_onCreate_def)

section \<open>Tasks stay where the runtime can leave them\<close>

lemma suspended_proceed [simp]: "suspended (fst (proceed up p))"
  by (induction p) simp_all

lemma suspended_task_step:
  "task_step up db ev t = Some r \<Longrightarrow> suspended (fst r)"
  by (cases "(up, db, ev, t)" rule: task_step.cases) auto

lemma task_step_settled [simp]: "settled_task t \<Longrightarrow> task_step up db ev t = None"
  by (cases t) simp_all

lemma task_step_answered [simp]:
  "task_step up db (QueryAnswered fault) (Waiting (Get q k)) \<noteq> None"
  "task_step up db (SendAnswered answer) (Waiting (Multicast m h)) \<noteq> None"
  by (cases fault; simp) (cases answer; simp)

lemma expected_enabled:
  "suspended t \<Longrightarrow> \<not> settled_task t \<Longrightarrow>
   \<exists>ev. expected pf t = Some ev \<and> task_step up db ev t \<noteq> None"
  by (cases "(pf, t)" rule: expected.cases) (simp_all del: not_None_eq)

lemma place_fields [simp]:
  "rt_up (place i rt r) = rt_up rt" "rt_exports (place i rt r) = rt_exports rt"
  "rt_store (place i rt r) = rt_store rt" "rt_tasks (place i rt r) = (rt_tasks rt)[i := fst r]"
  "rt_journal (place i rt r) = rt_journal rt @ map (Pair i) (snd r)"
  by (simp_all add: place_def)

lemma rt_ok_init [simp]: "rt_ok rt_init"
  by (simp add: rt_ok_def rt_init_def)

lemma rt_ok_place:
  "rt_ok rt \<Longrightarrow> i < length (rt_tasks rt) \<Longrightarrow> suspended (fst r) \<Longrightarrow> rt_ok (place i rt r)"
  by (auto simp: rt_ok_def list_all_iff dest: set_update_subset_insert [THEN subsetD])

lemma rt_step_ok:
  assumes "rt_ok rt" and "rt_step load rt a = Some rt'"
  shows "rt_ok rt'"
proof (cases a)
  case Boot
  with assms show ?thesis
    by (auto simp: rt_ok_def split: prod.splits sum.splits)
next
  case (DocumentCreated path fs)
  with assms show ?thesis
    by (fastforce simp: rt_ok_def list_all_iff intro: trans_less_add1)
next
  case (Store db)
  with assms show ?thesis
    by (auto simp: rt_ok_def)
next
  case (Resume i ev)
  with assms show ?thesis
    by (auto split: if_splits dest!: suspended_task_step intro!: rt_ok_place)
qed

lemma rt_run_ok: "rt_ok rt \<Longrightarrow> rt_run load rt as = Some rt' \<Longrightarrow> rt_ok rt'"
  by (induction as arbitrary: rt) (auto split: bind_splits dest: rt_step_ok [rotated])

lemma rt_run_append:
  "rt_run load rt (as @ bs) = Option.bind (rt_run load rt as) (\<lambda>rt'. rt_run load rt' bs)"
  by (induction as arbitrary: rt) (simp_all split: bind_splits)

text \<open>A task that is not settled can take the step the platform answers with.\<close>

lemma rt_progress:
  assumes "rt_ok rt" and "i < length (rt_tasks rt)" and "\<not> settled_task (rt_tasks rt ! i)"
  shows "\<exists>ev. expected pf (rt_tasks rt ! i) = Some ev \<and> rt_step load rt (Resume i ev) \<noteq> None"
proof -
  from assms(1,2) have "suspended (rt_tasks rt ! i)"
    by (simp add: rt_ok_def list_all_length)
  from expected_enabled [OF this assms(3), of pf "rt_up rt" "rt_store rt"] assms(2)
  show ?thesis by auto
qed

text \<open>A settled task stays settled, and no step removes a task.\<close>

lemma rt_step_settled:
  assumes "rt_step load rt a = Some rt'" and "i < length (rt_tasks rt)"
    and "rt_tasks rt ! i = Done r"
  shows "i < length (rt_tasks rt') \<and> rt_tasks rt' ! i = Done r"
  using assms
  by (cases a) (auto simp: nth_append nth_list_update split: prod.splits sum.splits if_splits)

section \<open>Tasks share nothing but the database\<close>

text \<open>
  In a run that does not load the module anew, what becomes of a task and
  the calls it makes are what its own events make of it: the steps of the
  other tasks and the documents created in between do not enter.
\<close>

lemma rt_calls_place:
  "rt_calls k (place i rt r) = (if k = i then rt_calls k rt @ snd r else rt_calls k rt)"
  by (simp add: rt_calls_def filter_map comp_def)

lemma rt_step_own:
  assumes "rt_step load rt a = Some rt1" and "a \<noteq> Boot" and "i < length (rt_tasks rt)"
  shows "i < length (rt_tasks rt1) \<and> rt_up rt1 = rt_up rt
    \<and> after (rt_calls i rt) (feed (rt_up rt) (own_events i (rt_store rt) (a # as)) (rt_tasks rt ! i))
      = after (rt_calls i rt1) (feed (rt_up rt) (own_events i (rt_store rt1) as) (rt_tasks rt1 ! i))"
proof (cases a)
  case (Resume j ev)
  with assms show ?thesis
    by (auto simp: rt_calls_place split: if_splits)
qed (insert assms, auto simp: rt_calls_def nth_append)

lemma rt_run_own:
  assumes "rt_run load rt as = Some rt'" and "Boot \<notin> set as" and "i < length (rt_tasks rt)"
  shows "i < length (rt_tasks rt')
    \<and> after (rt_calls i rt) (feed (rt_up rt) (own_events i (rt_store rt) as) (rt_tasks rt ! i))
      = Some (rt_tasks rt' ! i, rt_calls i rt')"
  using assms
proof (induction as arbitrary: rt)
  case Nil
  then show ?case by simp
next
  case (Cons a as)
  from Cons.prems(1) obtain rt1 where s: "rt_step load rt a = Some rt1"
    and r: "rt_run load rt1 as = Some rt'"
    by (auto split: bind_splits)
  from Cons.prems(2) have "a \<noteq> Boot" and "Boot \<notin> set as" by auto
  from rt_step_own [OF s this(1) Cons.prems(3), of as] Cons.IH [OF r this(2)]
  show ?case by simp
qed

end
