(* ===== verification/Module.thy ===== *)
theory Module
  imports Runtime
begin

text \<open>
  The module \<^verbatim>\<open>src/functions/index.js\<close> as the platform loads it: the
  statements that run once, when the file is required (lines 1 to 7).

  \<^item> \<open>require\<close> is \<^verbatim>\<open>require(name)\<close> (lines 1 and 2) in a process with the
    packages \<open>installed\<close>: it gives the package, or throws when there is none.
    The module object is stood for by its name, since the file only calls
    through it;
  \<^item> \<open>functions_package\<close> and \<open>admin_package\<close> are the two names, and
    \<open>export_name\<close> the name the handler is exported under (line 5);
  \<^item> \<open>load_module\<close> is the file from its first line to the assignment of
    line 5: the two \<^verbatim>\<open>require\<close>s, \<^verbatim>\<open>admin.initializeApp()\<close>, and the export of
    the registration of the handler for the pattern of line 6;
  \<^item> \<open>module_exports\<close> is what the module exports once loaded, and
    \<open>deployed\<close> says that both packages are installed.

  The lemmas give the load on each of its paths, what a created document
  starts on the loaded module, and what a runtime does that hosts it.
\<close>

section \<open>Loading the module\<close>

definition require :: "string list \<Rightarrow> string \<Rightarrow> string io" where
  "require installed name =
     (if name \<in> set installed then resolve name else reject (ModuleNotFound name))"

definition functions_package :: string where
  "functions_package = ''firebase-functions''"

definition admin_package :: string where
  "admin_package = ''firebase-admin''"

definition export_name :: string where
  "export_name = ''sendDriverNotification''"

definition load_module :: "string list \<Rightarrow> exports io" where
  "load_module installed =
     await (require installed functions_package) (\<lambda>functions.
     await (require installed admin_package) (\<lambda>admin.
     await initializeApp (\<lambda>u.
       resolve [(export_name, document_onCreate trigger_pattern handler_program)])))"

definition module_exports :: exports where
  "module_exports = [(export_name, document_onCreate trigger_pattern handler_program)]"

definition deployed :: "string list \<Rightarrow> bool" where
  "deployed installed \<longleftrightarrow> functions_package \<in> set installed \<and> admin_package \<in> set installed"

declare require_def [model_defs] functions_package_def [model_defs]
  admin_package_def [model_defs] export_name_def [model_defs] load_module_def [model_defs]
  module_exports_def [model_defs] deployed_def [model_defs]

section \<open>The load, path by path\<close>

lemma load_module_run:
  "load_module installed w =
     (if functions_package \<notin> set installed then (Inl (ModuleNotFound functions_package), w)
      else if admin_package \<notin> set installed then (Inl (ModuleNotFound admin_package), w)
      else if app_initialized w then (Inl AppExists, w)
      else (Inr module_exports, w\<lparr>app_initialized := True\<rparr>))"
  by (simp add: load_module_def require_def await_def resolve_def reject_def initializeApp_def
      module_exports_def)

lemma load_module_deployed:
  "deployed installed \<Longrightarrow> \<not> app_initialized w \<Longrightarrow>
   load_module installed w = (Inr module_exports, w\<lparr>app_initialized := True\<rparr>)"
  by (simp add: load_module_run deployed_def)

lemma load_module_not_deployed:
  "\<not> deployed installed \<Longrightarrow> \<exists>name. load_module installed w = (Inl (ModuleNotFound name), w)"
  by (auto simp: load_module_run deployed_def)

lemma load_module_settled_iff:
  "(\<exists>ex. settled (load_module installed) w = Inr ex) \<longleftrightarrow> deployed installed \<and> \<not> app_initialized w"
  by (auto simp: settled_def load_module_run deployed_def)

lemma preserves_load_module:
  "preserves same_store (load_module installed)" "preserves trace_extends (load_module installed)"
  by (auto simp: preserves_def world_after_def load_module_run same_store_def trace_extends_def)

section \<open>What a created document starts\<close>

lemma dispatch_module_exports:
  "dispatch module_exports path fs =
     (case on_create path fs of None \<Rightarrow> [] | Some (snap, ctx) \<Rightarrow> [handler_program snap ctx])"
  by (simp add: module_exports_def dispatch_Cons fire_document_onCreate on_create_def
      split: option.splits)

lemma dispatch_module_exports_triggers:
  "dispatch module_exports path fs =
     (if triggers path then [handler_program \<lparr>snap_path = path, snap_fields = fs\<rparr> ()] else [])"
  by (auto simp: dispatch_module_exports on_create_def triggers_def handler_program_def
      split: option.splits)

section \<open>A runtime that hosts the module\<close>

lemma rt_step_Boot:
  "rt_step (load_module installed) rt Boot =
     (if deployed installed \<and> \<not> rt_up rt
      then Some (rt\<lparr>rt_up := True, rt_exports := module_exports\<rparr>) else None)"
  by (simp add: load_module_run deployed_def rt_world_def)

text \<open>
  \<open>hosts\<close>: the runtime has loaded this module or no module at all, and
  there is no task before the module is loaded.
\<close>

definition hosts :: "runtime \<Rightarrow> bool" where
  "hosts rt \<longleftrightarrow> (if rt_up rt then rt_exports rt = module_exports else rt_exports rt = [])
     \<and> (rt_tasks rt = [] \<or> rt_up rt)"

lemma hosts_init [simp]: "hosts rt_init"
  by (simp add: hosts_def rt_init_def)

lemma rt_step_hosts:
  "hosts rt \<Longrightarrow> rt_step (load_module installed) rt a = Some rt' \<Longrightarrow> hosts rt'"
  by (cases a) (auto simp del: rt_step.simps(1) simp: hosts_def rt_step_Boot split: if_splits)

lemma rt_run_hosts:
  "hosts rt \<Longrightarrow> rt_run (load_module installed) rt as = Some rt' \<Longrightarrow> hosts rt'"
  by (induction as arbitrary: rt) (auto split: bind_splits dest: rt_step_hosts)

text \<open>Without its packages the module never loads, and nothing is ever started.\<close>

lemma rt_step_not_deployed:
  assumes "\<not> deployed installed" and "hosts rt" and "\<not> rt_up rt"
    and "rt_step (load_module installed) rt a = Some rt'"
  shows "\<not> rt_up rt' \<and> rt_tasks rt' = [] \<and> rt_journal rt' = rt_journal rt"
  using assms
  by (cases a) (auto simp del: rt_step.simps(1) simp: hosts_def rt_step_Boot split: if_splits)

lemma rt_run_not_deployed:
  assumes "\<not> deployed installed" and "hosts rt" and "\<not> rt_up rt"
    and "rt_run (load_module installed) rt as = Some rt'"
  shows "\<not> rt_up rt' \<and> rt_tasks rt' = [] \<and> rt_journal rt' = rt_journal rt"
  using assms(2-)
proof (induction as arbitrary: rt)
  case Nil
  then show ?case by (simp add: hosts_def)
next
  case (Cons a as)
  from Cons.prems obtain rt1 where s: "rt_step (load_module installed) rt a = Some rt1"
    and r: "rt_run (load_module installed) rt1 as = Some rt'"
    by (auto split: bind_splits)
  from rt_step_not_deployed [OF assms(1) Cons.prems(1,2) s] rt_step_hosts [OF Cons.prems(1) s]
    Cons.IH [OF _ _ r]
  show ?case by simp
qed

section \<open>An example deployment\<close>

definition example_packages :: "string list" where
  "example_packages = [''firebase-admin'', ''firebase-functions'']"

lemma example_deployed [simp]: "deployed example_packages"
  by (simp add: deployed_def example_packages_def functions_package_def admin_package_def)

text \<open>
  C23. Loading the module, on each of its paths: with both packages installed
  and no app yet, the load creates the app, changes nothing else, and exports
  one function, named sendDriverNotification, that registers the handler for
  created documents of requests/{requestId}. Otherwise it throws before it
  exports anything and leaves the world as it was: the error of the first
  package that is missing, or that of a second initializeApp.
\<close>

theorem module_load:
  "load_module installed w =
     (if deployed installed \<and> \<not> app_initialized w
      then (Inr [(''sendDriverNotification'',
                 \<lparr>reg_pattern = ''requests/{requestId}'', reg_handler = handler_program\<rparr>)],
            w\<lparr>app_initialized := True\<rparr>)
      else (Inl (if ''firebase-functions'' \<notin> set installed
                 then ModuleNotFound ''firebase-functions''
                 else if ''firebase-admin'' \<notin> set installed
                 then ModuleNotFound ''firebase-admin'' else AppExists), w))"
  by (simp add: load_module_run deployed_def module_exports_def export_name_def
      document_onCreate_def trigger_pattern_def functions_package_def admin_package_def)

text \<open>
  Whatever the module exports when its load succeeds, a created document
  starts the handler exactly when onCreate of the trigger theory gives a
  snapshot for it, once, with that snapshot and context; a document anywhere
  else starts nothing.
\<close>

theorem created_document_starts_handler:
  assumes "settled (load_module installed) w = Inr ex"
  shows "dispatch ex path fs =
    (case on_create path fs of None \<Rightarrow> [] | Some (snap, ctx) \<Rightarrow> [handler_program snap ctx])"
proof -
  from assms have "ex = module_exports"
    by (auto simp: settled_def load_module_run split: if_splits)
  then show ?thesis
    by (simp add: dispatch_module_exports)
qed

theorem created_document_starts_handler_witness:
  "settled (load_module example_packages) \<lparr>app_initialized = False, firestore = example_db, trace = []\<rparr>
     = Inr module_exports
   \<and> dispatch module_exports ''requests/r1'' (Some [(''pickup'', JStr ''Main St'')])
     = [handler_program example_snapshot \<lparr>params = [(''requestId'', ''r1'')]\<rparr>]
   \<and> dispatch module_exports ''drivers/d1'' (Some []) = []"
  using created_document_starts_handler [of example_packages
      "\<lparr>app_initialized = False, firestore = example_db, trace = []\<rparr>" module_exports
      "''requests/r1''" "Some [(''pickup'', JStr ''Main St'')]"]
    created_document_starts_handler [of example_packages
      "\<lparr>app_initialized = False, firestore = example_db, trace = []\<rparr>" module_exports
      "''drivers/d1''" "Some []"]
  by (simp add: settled_def load_module_deployed on_create_examples example_snapshot_def)

text \<open>
  A module deployed without one of its packages never serves a request:
  in every run of a runtime that hosts it from the start, the app is never
  created, no task is ever started, and no call is ever made.
\<close>

theorem undeployed_module_starts_nothing:
  assumes "\<not> deployed installed" and "rt_run (load_module installed) rt_init as = Some rt"
  shows "\<not> rt_up rt \<and> rt_tasks rt = [] \<and> rt_journal rt = []"
  using rt_run_not_deployed [OF assms(1) hosts_init _ assms(2)]
  by (simp add: rt_init_def)

theorem undeployed_module_starts_nothing_witness:
  "\<not> deployed [''firebase-admin'']
   \<and> rt_run (load_module [''firebase-admin'']) rt_init
        [Store example_db, DocumentCreated ''requests/r1'' (Some [])]
      = Some (rt_init\<lparr>rt_store := example_db\<rparr>)
   \<and> rt_tasks (rt_init\<lparr>rt_store := example_db\<rparr>) = []"
  using undeployed_module_starts_nothing [of "[''firebase-admin'']"
      "[Store example_db, DocumentCreated ''requests/r1'' (Some [])]" "rt_init\<lparr>rt_store := example_db\<rparr>"]
  by (simp add: deployed_def functions_package_def admin_package_def rt_init_def)

end
