(* ===== verification/Hosting.thy ===== *)
theory Hosting
  imports Interleaving Module
begin

text \<open>
  The system of the invocations theory is the runtime of the runtime theory
  hosting the module \<^verbatim>\<open>src/functions/index.js\<close>. The program counters of the
  system are the body of the handler cut by hand at its two \<^verbatim>\<open>await\<close>s; the
  tasks of the runtime are the program of the handler stepped by the
  semantics of programs, which knows nothing of the handler.

  \<^item> \<open>task_of\<close> gives a program counter as a task: the rest of the body
    (lines 8 to 35 at the start, 16 to 35 at the first \<^verbatim>\<open>await\<close>, 34 to 35 at
    the second);
  \<^item> \<open>event_of\<close> and \<open>rt_action_of\<close> give an action of the system as an
    event for a task and as an action of the runtime;
  \<^item> \<open>runtime_of\<close> gives a system as a runtime.

  The lemmas show that \<open>react\<close> is \<open>task_step\<close> on these tasks, that every
  step and every run of the system is one of the runtime, that a step that
  the runtime takes and the system does not changes nothing, and, from the
  runtime, that what becomes of an invocation in a run depends on its own
  events and on the database only.
\<close>

section \<open>The system as a runtime\<close>

fun task_of :: "pc \<Rightarrow> unit task" where
  "task_of (Started snap) = Fresh (handler_program snap ())"
| "task_of AwaitingQuery = Waiting (Get drivers_query after_query)"
| "task_of (AwaitingSend message) = Waiting (Multicast message after_send)"
| "task_of Resolved = Done (Inr ())"
| "task_of (Rejected e) = Done (Inl e)"

fun event_of :: "action \<Rightarrow> event option" where
  "event_of (Begin i) = Some Go"
| "event_of (QuerySettles i fault) = Some (QueryAnswered fault)"
| "event_of (SendSettles i answer) = Some (SendAnswered answer)"
| "event_of a = None"

fun rt_action_of :: "action \<Rightarrow> rt_action" where
  "rt_action_of Load = Boot"
| "rt_action_of (Trigger snap) = DocumentCreated (snap_path snap) (snap_fields snap)"
| "rt_action_of (Write db) = Store db"
| "rt_action_of (Begin i) = Resume i Go"
| "rt_action_of (QuerySettles i fault) = Resume i (QueryAnswered fault)"
| "rt_action_of (SendSettles i answer) = Resume i (SendAnswered answer)"

definition runtime_of :: "system \<Rightarrow> runtime" where
  "runtime_of s =
     \<lparr>rt_up = loaded s, rt_exports = (if loaded s then module_exports else []),
      rt_store = store s, rt_tasks = map task_of (pcs s), rt_journal = journal s\<rparr>"

section \<open>The step of the handler is the step of its program\<close>

lemma proceed_after_query:
  "proceed True (after_query docs) =
     (let toks = collect_tokens docs in
      if toks = [] then (Done (Inr ()), [])
      else (Waiting (Multicast (build_message toks) after_send),
            [SendMulticast (build_message toks)]))"
  by (simp add: after_query_def Let_def)

lemma proceed_after_send:
  "proceed up (after_send response) = (Done (Inr ()), [ConsoleLog (log_line response)])"
  by (simp add: after_send_def calling_def)

lemma proceed_handler_program:
  "proceed up (handler_program snap ctx) =
     (if \<not> truthy (data snap) then (Done (Inr ()), [])
      else if \<not> up then (Done (Inl NoApp), [])
      else (Waiting (Get drivers_query after_query), [FirestoreGet drivers_query]))"
  by (simp add: handler_program_def Let_def)

lemmas proceed_handler = proceed_after_query proceed_after_send proceed_handler_program

lemma react_task_step:
  assumes "up \<or> p \<noteq> AwaitingQuery"
  shows "map_option (apfst task_of) (react up db a p)
    = Option.bind (event_of a) (\<lambda>ev. task_step up db ev (task_of p))"
  using assms
  by (cases "(up, db, a, p)" rule: react.cases; cases a; cases p)
    (simp_all add: proceed_handler Let_def)

lemma actor_event_of:
  "actor a = Some i \<Longrightarrow> \<exists>ev. event_of a = Some ev \<and> rt_action_of a = Resume i ev"
  by (cases a) simp_all

section \<open>Every step of the system is a step of the runtime\<close>

lemma runtime_of_fields [simp]:
  "rt_up (runtime_of s) = loaded s" "rt_store (runtime_of s) = store s"
  "rt_tasks (runtime_of s) = map task_of (pcs s)" "rt_journal (runtime_of s) = journal s"
  "rt_exports (runtime_of s) = (if loaded s then module_exports else [])"
  by (simp_all add: runtime_of_def)

lemma runtime_of_init: "runtime_of init_system = rt_init"
  by (simp add: runtime_of_def init_system_def rt_init_def)

lemma runtime_of_lift:
  "runtime_of (lift i s r) = place i (runtime_of s) (apfst task_of r)"
  by (simp add: runtime_of_def place_def map_update)

lemma handler_program_surjective [simp]:
  "handler_program \<lparr>snap_path = snap_path snap, snap_fields = snap_fields snap\<rparr> ctx
     = handler_program snap ctx'"
  by (simp add: handler_program_def data_def)

lemma hosts_runtime_of: "system_ok s \<Longrightarrow> hosts (runtime_of s)"
  by (auto simp: hosts_def system_ok_def)

lemma step_handler_runtime:
  assumes ok: "system_ok s" and a: "actor a = Some i" and s': "step s a = Some s'"
  shows "rt_step load (runtime_of s) (rt_action_of a) = Some (runtime_of s')"
proof -
  from s' a obtain p r where p: "pc_at s i = Some p"
    and r: "react (loaded s) (store s) a p = Some r" and l: "s' = lift i s r"
    by (auto simp: step_react split: bind_splits)
  from p have i: "i < length (pcs s)" and nth: "pcs s ! i = p"
    by (auto simp: pc_at_def split: if_splits)
  with ok have "loaded s"
    by (auto simp: system_ok_def)
  with r react_task_step [of "loaded s" p "store s" a]
  have "Option.bind (event_of a) (\<lambda>ev. task_step True (store s) ev (task_of p))
      = Some (apfst task_of r)"
    by simp
  with actor_event_of [OF a] i nth \<open>loaded s\<close> show ?thesis
    by (auto simp: l runtime_of_lift)
qed

lemma step_runtime:
  assumes "system_ok s" and "deployed installed" and "step s a = Some s'"
  shows "rt_step (load_module installed) (runtime_of s) (rt_action_of a) = Some (runtime_of s')"
proof (cases "actor a")
  case (Some i)
  with assms show ?thesis by (simp add: step_handler_runtime)
next
  case None
  with assms show ?thesis
    by (cases a)
      (auto simp del: rt_step.simps(1)
        simp: rt_step_Boot runtime_of_def dispatch_module_exports_triggers split: if_splits)
qed

lemma run_runtime:
  assumes "system_ok s" and "deployed installed" and "run s as = Some s'"
  shows "rt_run (load_module installed) (runtime_of s) (map rt_action_of as)
    = Some (runtime_of s')"
  using assms(1,3)
proof (induction as arbitrary: s)
  case Nil
  then show ?case by simp
next
  case (Cons a as)
  from Cons.prems obtain s1 where s1: "step s a = Some s1" and r: "run s1 as = Some s'"
    by (auto split: bind_splits)
  from Cons.prems(1) s1 have "system_ok s1"
    by (rule step_system_ok)
  from Cons.IH [OF this r] step_runtime [OF Cons.prems(1) assms(2) s1] show ?case
    by simp
qed

text \<open>
  The runtime takes steps that the system has not: it ignores a created
  document that no export matches. Such a step changes nothing.
\<close>

lemma runtime_step_only:
  assumes ok: "system_ok s" and "deployed installed" and none: "step s a = None"
  shows "rt_step (load_module installed) (runtime_of s) (rt_action_of a)
    \<in> {None, Some (runtime_of s)}"
proof (cases "actor a")
  case (Some i)
  show ?thesis
  proof (cases "pc_at s i")
    case None
    with Some show ?thesis
      by (cases a) (auto simp: pc_at_def split: if_splits)
  next
    case p: (Some p)
    then have i: "i < length (pcs s)" and nth: "pcs s ! i = p"
      by (auto simp: pc_at_def split: if_splits)
    with ok have "loaded s"
      by (auto simp: system_ok_def)
    from none Some p have "react (loaded s) (store s) a p = None"
      by (simp add: step_react)
    with react_task_step [of "loaded s" p "store s" a] \<open>loaded s\<close>
    have "Option.bind (event_of a) (\<lambda>ev. task_step True (store s) ev (task_of p)) = None"
      by simp
    with actor_event_of [OF Some] i nth \<open>loaded s\<close> show ?thesis
      by auto
  qed
next
  case None
  with assms show ?thesis
    by (cases a)
      (auto simp del: rt_step.simps(1)
        simp: rt_step_Boot runtime_of_def dispatch_module_exports_triggers hosts_def
          system_ok_def split: if_splits)
qed

section \<open>One invocation in a run of the system\<close>

lemma rt_calls_runtime_of [simp]: "rt_calls i (runtime_of s) = calls_of i s"
  by (simp add: rt_calls_def calls_of_def)

lemma step_loaded:
  assumes "step s a = Some s'" and "loaded s"
  shows "loaded s' \<and> a \<noteq> Load"
proof (cases "actor a")
  case (Some i)
  with assms show ?thesis
    by (auto simp: step_react split: bind_splits)
next
  case None
  with assms show ?thesis
    by (cases a) (auto split: if_splits)
qed

lemma run_loaded: "run s as = Some s' \<Longrightarrow> loaded s \<Longrightarrow> Load \<notin> set as"
  by (induction as arbitrary: s) (auto split: bind_splits dest: step_loaded)

lemma rt_action_of_Boot [simp]:
  "rt_action_of a = Boot \<longleftrightarrow> a = Load" "Boot = rt_action_of a \<longleftrightarrow> a = Load"
  by (cases a; simp)+

lemma run_own:
  assumes "system_ok s" and "i < length (pcs s)" and "run s as = Some s'"
  shows "i < length (pcs s')
    \<and> after (calls_of i s)
        (feed True (own_events i (store s) (map rt_action_of as)) (task_of (pcs s ! i)))
      = Some (task_of (pcs s' ! i), calls_of i s')"
proof -
  from assms(1,2) have up: "loaded s"
    by (auto simp: system_ok_def)
  with assms(3) have "Boot \<notin> set (map rt_action_of as)"
    by (auto dest: run_loaded)
  from rt_run_own [OF run_runtime [OF assms(1) example_deployed assms(3)] this, of i] assms(2) up
  show ?thesis by simp
qed

section \<open>The example run on the runtime\<close>


lemma example_rt_actions:
  "map rt_action_of example_actions =
     [Boot, Store example_db, DocumentCreated ''requests/r1'' (Some [(''pickup'', JStr ''Main St'')]),
      Resume 0 Go, Resume 0 (QueryAnswered None),
      Resume 0 (SendAnswered (Inr \<lparr>successCount = 2\<rparr>))]"
  by (simp add: example_actions_def example_snapshot_def)

lemma example_independent_run:
  "run example_started
     [Trigger \<lparr>snap_path = ''requests/r2'', snap_fields = None\<rparr>, Begin 0, Begin (Suc 0),
      Write (\<lambda>path. []), QuerySettles 0 None]
   = Some \<lparr>loaded = True, store = (\<lambda>path. []), pcs = [Resolved, Resolved],
        journal = [(0, FirestoreGet drivers_query)]\<rparr>"
  by (simp add: example_started_def system_defs truthy_data_iff example_snapshot_def Let_def
      available_tokens_def available_drivers_def)



text \<open>
  C15. The system of invocations refines the runtime that hosts the module:
  for every run of the system from its start, the runtime that loads
  the deployed module takes the corresponding steps from its start and
  reaches the system read as a runtime, with the rest of the body of the
  handler as the task of every invocation.
\<close>

theorem system_refines_runtime:
  assumes "deployed installed" and "run init_system as = Some s"
  shows "rt_run (load_module installed) rt_init (map rt_action_of as) = Some (runtime_of s)"
  using run_runtime [OF system_ok_init assms] by (simp add: runtime_of_init)

theorem system_refines_runtime_witness:
  "deployed example_packages \<and> run init_system example_actions = Some example_final
   \<and> rt_run (load_module example_packages) rt_init
        [Boot, Store example_db, DocumentCreated ''requests/r1'' (Some [(''pickup'', JStr ''Main St'')]),
         Resume 0 Go, Resume 0 (QueryAnswered None),
         Resume 0 (SendAnswered (Inr \<lparr>successCount = 2\<rparr>))]
      = Some (runtime_of example_final)"
  using system_refines_runtime [of example_packages example_actions example_final]
  by (simp add: example_actions_run example_rt_actions)

text \<open>
  The runtime does nothing with the module that the system does not do:
  where the system of a reachable state has no step for an action, the
  runtime has none either, or its step changes nothing (a created document
  that no export matches is ignored).
\<close>

theorem runtime_adds_no_step:
  assumes "reachable s" and "deployed installed" and "step s a = None"
  shows "rt_step (load_module installed) (runtime_of s) (rt_action_of a) = None
    \<or> rt_step (load_module installed) (runtime_of s) (rt_action_of a) = Some (runtime_of s)"
  using runtime_step_only [OF reachable_ok [OF assms(1)] assms(2,3)] by simp

theorem runtime_adds_no_step_witness:
  "reachable example_started \<and> deployed example_packages
   \<and> step example_started (Trigger \<lparr>snap_path = ''drivers/d9'', snap_fields = Some []\<rparr>) = None
   \<and> rt_step (load_module example_packages) (runtime_of example_started)
        (DocumentCreated ''drivers/d9'' (Some [])) = Some (runtime_of example_started)"
  using runtime_adds_no_step [of example_started example_packages
      "Trigger \<lparr>snap_path = ''drivers/d9'', snap_fields = Some []\<rparr>"]
  by (simp add: example_reachable on_create_examples triggers_iff
      dispatch_module_exports_triggers runtime_of_def)

text \<open>
  C17. Invocations are independent. After any run of a reachable system, the
  place of an invocation and the calls it has made are what its own events
  make of the rest of its program, each event taken with the database of its
  moment. The steps of other invocations, the creation of other requests and
  the order of all of these do not enter; a write enters only through the
  database that a later event of the invocation finds.
\<close>

theorem invocations_are_independent:
  assumes "reachable s" and "i < length (pcs s)" and "run s as = Some s'"
  shows "after (calls_of i s)
        (feed True (own_events i (store s) (map rt_action_of as)) (task_of (pcs s ! i)))
      = Some (task_of (pcs s' ! i), calls_of i s')"
  using run_own [OF reachable_ok [OF assms(1)] assms(2,3)] by simp

theorem invocations_are_independent_witness:
  "reachable example_started \<and> 0 < length (pcs example_started)
   \<and> run example_started
        [Trigger \<lparr>snap_path = ''requests/r2'', snap_fields = None\<rparr>, Begin 0, Begin (Suc 0),
         Write (\<lambda>path. []), QuerySettles 0 None]
      = Some \<lparr>loaded = True, store = (\<lambda>path. []), pcs = [Resolved, Resolved],
           journal = [(0, FirestoreGet drivers_query)]\<rparr>
   \<and> feed True [(example_db, Go), ((\<lambda>path. []), QueryAnswered None)]
        (Fresh (handler_program example_snapshot ()))
      = Some (Done (Inr ()), [FirestoreGet drivers_query])"
  using invocations_are_independent [OF example_reachable(1) _ example_independent_run]
    example_reachable(1) example_independent_run
  by (simp del: run.simps add: example_started_def calls_of_def)

end
