(* ===== verification/Writes.thy ===== *)
theory Writes
  imports Firestore "HOL-Library.AList" "HOL-Library.List_Lexorder" "HOL-Library.Char_ord"
begin

text \<open>
  The writes that the flows outside \<^verbatim>\<open>src/functions/index.js\<close> make to the
  database that the handler reads. The specification names two such flows:
  requests are created by a requester-facing flow, and drivers are owned and
  changed by driver-management flows.

  The service keeps the documents of a collection in the order of their
  identifiers, which are strings compared byte by byte, and returns the
  result of a query in that order. \<open>ordered\<close> says that a collection is kept
  so; identifiers are then distinct.

  \<^item> \<open>put_doc\<close> writes a document into a collection at the place of its
    identifier, replacing the document that has it; \<open>drop_doc\<close> deletes and
    \<open>get_doc\<close> reads by identifier;
  \<^item> \<open>update_fields\<close> changes some fields of a document and keeps the
    others, as \<^verbatim>\<open>update()\<close> does;
  \<^item> \<open>set_doc\<close>, \<open>update_doc\<close> and \<open>delete_doc\<close> are the writes on a
    database; \<open>update_doc\<close> fails on a document that does not exist.

  The lemmas show that the writes keep a collection ordered and well formed,
  what a read returns after a write, and how a filter, such as a query, of
  the collection changes with a write.
\<close>

section \<open>Collections in the order of their identifiers\<close>

definition ordered :: "document list \<Rightarrow> bool" where
  "ordered docs \<longleftrightarrow> sorted_wrt (<) (map doc_id docs)"

fun put_doc :: "document \<Rightarrow> document list \<Rightarrow> document list" where
  "put_doc d [] = [d]"
| "put_doc d (e # es) =
     (if doc_id d < doc_id e then d # e # es
      else if doc_id d = doc_id e then d # es
      else e # put_doc d es)"

fun drop_doc :: "string \<Rightarrow> document list \<Rightarrow> document list" where
  "drop_doc i [] = []"
| "drop_doc i (e # es) = (if doc_id e = i then es else e # drop_doc i es)"

definition get_doc :: "string \<Rightarrow> document list \<Rightarrow> document option" where
  "get_doc i docs = find (\<lambda>d. doc_id d = i) docs"

definition update_fields :: "fields \<Rightarrow> fields \<Rightarrow> fields" where
  "update_fields changes fs = fold (\<lambda>change. AList.update (fst change) (snd change)) changes fs"

section \<open>Writes to a database\<close>

definition set_doc :: "string \<Rightarrow> string \<Rightarrow> fields \<Rightarrow> database \<Rightarrow> database" where
  "set_doc coll i fs db = db(coll := put_doc \<lparr>doc_id = i, doc_fields = fs\<rparr> (db coll))"

definition update_doc :: "string \<Rightarrow> string \<Rightarrow> fields \<Rightarrow> database \<Rightarrow> database option" where
  "update_doc coll i changes db =
     (case get_doc i (db coll) of
        None \<Rightarrow> None
      | Some d \<Rightarrow> Some (set_doc coll i (update_fields changes (doc_fields d)) db))"

definition delete_doc :: "string \<Rightarrow> string \<Rightarrow> database \<Rightarrow> database" where
  "delete_doc coll i db = db(coll := drop_doc i (db coll))"

section \<open>Ordered collections\<close>

lemma ordered_Nil [simp]: "ordered []"
  by (simp add: ordered_def)

lemma ordered_Cons:
  "ordered (e # es) \<longleftrightarrow> (\<forall>x \<in> set es. doc_id e < doc_id x) \<and> ordered es"
  by (auto simp: ordered_def)

lemma ordered_distinct: "ordered docs \<Longrightarrow> distinct (map doc_id docs)"
  by (simp add: ordered_def strict_sorted_iff)

lemma ordered_filter: "ordered docs \<Longrightarrow> ordered (filter P docs)"
  by (induction docs) (auto simp: ordered_Cons)

lemma ordered_run_query: "ordered (db (q_path q)) \<Longrightarrow> ordered (run_query db q)"
  by (simp add: run_query_def ordered_filter)

lemma set_put_doc: "set (put_doc d es) \<subseteq> insert d (set es)"
  by (induction es) auto

lemma ordered_put_doc: "ordered es \<Longrightarrow> ordered (put_doc d es)"
proof (induction es)
  case Nil
  show ?case by (simp add: ordered_Cons)
next
  case (Cons e es)
  then show ?case
    using set_put_doc [of d es] by (fastforce simp: ordered_Cons)
qed

lemma set_drop_doc: "set (drop_doc i es) \<subseteq> set es"
  by (induction es) auto

lemma ordered_drop_doc: "ordered es \<Longrightarrow> ordered (drop_doc i es)"
  using set_drop_doc [of i] by (induction es) (fastforce simp: ordered_Cons)+

lemma set_drop_doc_ordered:
  "ordered es \<Longrightarrow> set (drop_doc i es) = {d \<in> set es. doc_id d \<noteq> i}"
  by (induction es) (auto simp: ordered_Cons)

lemma ordered_unique:
  "ordered es \<Longrightarrow> d \<in> set es \<Longrightarrow> e \<in> set es \<Longrightarrow> doc_id d = doc_id e \<Longrightarrow> d = e"
  by (induction es) (auto simp: ordered_Cons)

text \<open>Writing in front of, and deleting what is not in, a collection.\<close>

lemma put_doc_front:
  "\<forall>x \<in> set es. doc_id d < doc_id x \<Longrightarrow> put_doc d es = d # es"
  by (cases es) simp_all

lemma drop_doc_absent: "i \<notin> doc_id ` set es \<Longrightarrow> drop_doc i es = es"
  by (induction es) auto

lemma drop_doc_below: "\<forall>x \<in> set es. i < doc_id x \<Longrightarrow> drop_doc i es = es"
  by (rule drop_doc_absent) auto

section \<open>Reading after writing\<close>

lemma get_doc_Nil [simp]: "get_doc i [] = None"
  by (simp add: get_doc_def)

lemma get_doc_Cons [simp]:
  "get_doc i (e # es) = (if doc_id e = i then Some e else get_doc i es)"
  by (simp add: get_doc_def)

lemma get_doc_None_iff: "get_doc i es = None \<longleftrightarrow> i \<notin> doc_id ` set es"
  by (induction es) auto

lemma get_doc_Some: "get_doc i es = Some d \<Longrightarrow> d \<in> set es \<and> doc_id d = i"
  by (induction es) (auto split: if_splits)

lemma get_doc_put_doc:
  "get_doc i (put_doc d es) = (if i = doc_id d then Some d else get_doc i es)"
  by (induction es) auto

lemma get_doc_drop_doc:
  "ordered es \<Longrightarrow> get_doc i (drop_doc j es) = (if i = j then None else get_doc i es)"
  by (induction es) (auto simp: ordered_Cons get_doc_None_iff)

lemma put_doc_get_doc: "ordered es \<Longrightarrow> get_doc (doc_id d) es = Some d \<Longrightarrow> put_doc d es = es"
  by (induction es) (fastforce simp: ordered_Cons dest: get_doc_Some split: if_splits)+

section \<open>A filter of a collection after a write\<close>

lemma filter_put_doc:
  assumes "ordered es"
  shows "filter P (put_doc d es)
    = (if P d then put_doc d (filter P es) else drop_doc (doc_id d) (filter P es))"
  using assms
proof (induction es)
  case Nil
  show ?case by simp
next
  case (Cons e es)
  from Cons.prems have above: "\<forall>x \<in> set es. doc_id e < doc_id x" and es: "ordered es"
    by (simp_all add: ordered_Cons)
  consider (before) "doc_id d < doc_id e" | (same) "doc_id d = doc_id e"
    | (behind) "doc_id e < doc_id d"
    by (rule linorder_cases)
  then show ?case
  proof cases
    case before
    with above have "\<forall>x \<in> set (filter P (e # es)). doc_id d < doc_id x"
      by (auto intro: less_trans)
    then have "put_doc d (filter P (e # es)) = d # filter P (e # es)"
      and "drop_doc (doc_id d) (filter P (e # es)) = filter P (e # es)"
      by (rule put_doc_front, rule drop_doc_below)
    with before show ?thesis by simp
  next
    case same
    with above have "\<forall>x \<in> set (filter P es). doc_id d < doc_id x"
      by auto
    then have "put_doc d (filter P es) = d # filter P es"
      and "drop_doc (doc_id d) (filter P es) = filter P es"
      by (rule put_doc_front, rule drop_doc_below)
    with same show ?thesis by simp
  next
    case behind
    with Cons.IH [OF es] show ?thesis by auto
  qed
qed

lemma filter_drop_doc: "filter P (drop_doc i es) = drop_doc i (filter P es)"
  if "ordered es"
  using that
proof (induction es)
  case Nil
  show ?case by simp
next
  case (Cons e es)
  then have "doc_id e \<notin> doc_id ` set (filter P es)"
    by (auto simp: ordered_Cons)
  with Cons show ?case
    by (auto simp: ordered_Cons drop_doc_absent)
qed

section \<open>Fields after an update\<close>

lemma update_fields_Nil [simp]: "update_fields [] fs = fs"
  by (simp add: update_fields_def)

lemma update_fields_Cons [simp]:
  "update_fields (change # changes) fs
     = update_fields changes (AList.update (fst change) (snd change) fs)"
  by (simp add: update_fields_def)

lemma get_field_update:
  "get_field (AList.update k v fs) k' = (if k' = k then v else get_field fs k')"
  by (simp add: get_field_def update_conv')

lemma distinct_update_fields:
  "distinct (map fst fs) \<Longrightarrow> distinct (map fst (update_fields changes fs))"
  by (induction changes arbitrary: fs) (simp_all add: distinct_update)

lemma wf_document_update:
  "wf_document d \<Longrightarrow> wf_document (d\<lparr>doc_fields := update_fields changes (doc_fields d)\<rparr>)"
  by (simp add: wf_document_def distinct_update_fields)

section \<open>Well-formed collections after a write\<close>

lemma wf_collection_ordered:
  "ordered docs \<Longrightarrow> list_all wf_document docs \<Longrightarrow> wf_collection docs"
  by (simp add: wf_collection_def ordered_distinct)

lemma list_all_put_doc: "list_all P es \<Longrightarrow> P d \<Longrightarrow> list_all P (put_doc d es)"
  using set_put_doc [of d es] by (auto simp: list_all_iff)

lemma list_all_drop_doc: "list_all P es \<Longrightarrow> list_all P (drop_doc i es)"
  using set_drop_doc [of i es] by (auto simp: list_all_iff)

section \<open>The writes on a database\<close>

lemma set_doc_apply:
  "set_doc coll i fs db c
     = (if c = coll then put_doc \<lparr>doc_id = i, doc_fields = fs\<rparr> (db c) else db c)"
  by (simp add: set_doc_def)

lemma delete_doc_apply:
  "delete_doc coll i db c = (if c = coll then drop_doc i (db c) else db c)"
  by (simp add: delete_doc_def)

lemma update_doc_Some_iff:
  "update_doc coll i changes db = Some db' \<longleftrightarrow>
     (\<exists>d. get_doc i (db coll) = Some d
        \<and> db' = set_doc coll i (update_fields changes (doc_fields d)) db)"
  by (auto simp: update_doc_def split: option.splits)

lemma update_doc_None_iff:
  "update_doc coll i changes db = None \<longleftrightarrow> i \<notin> doc_id ` set (db coll)"
  by (cases "get_doc i (db coll)") (auto simp: update_doc_def get_doc_None_iff [symmetric])

lemma ordered_set_doc: "ordered (db c) \<Longrightarrow> ordered (set_doc coll i fs db c)"
  by (auto simp: set_doc_apply ordered_put_doc)

lemma ordered_delete_doc: "ordered (db c) \<Longrightarrow> ordered (delete_doc coll i db c)"
  by (auto simp: delete_doc_apply ordered_drop_doc)

lemma ordered_update_doc:
  "update_doc coll i changes db = Some db' \<Longrightarrow> ordered (db c) \<Longrightarrow> ordered (db' c)"
  by (auto simp: update_doc_Some_iff ordered_set_doc)

lemma get_doc_set_doc:
  "get_doc j (set_doc coll i fs db coll)
     = (if j = i then Some \<lparr>doc_id = i, doc_fields = fs\<rparr> else get_doc j (db coll))"
  by (simp add: set_doc_apply get_doc_put_doc)

lemma run_query_other_collection:
  "q_path q \<noteq> coll \<Longrightarrow> run_query (set_doc coll i fs db) q = run_query db q"
  by (rule run_query_cong) (simp add: set_doc_apply)

end
