(* ===== verification/Flows.thy ===== *)
theory Flows
  imports Interleaving Writes
begin

text \<open>
  The flows around \<^verbatim>\<open>src/functions/index.js\<close> that the specification names and
  leaves outside the repository, put together with the handler: a
  driver-management flow registers a driver, changes the \<^verbatim>\<open>isAvailable\<close>
  flag or the \<^verbatim>\<open>fcmToken\<close> of a driver, or removes one; a requester-facing flow
  creates a request, which is the event that the handler is registered for
  (lines 5 to 7).

  \<^item> a \<open>flow\<close> is one such operation; \<open>write_of\<close> is the write it makes to
    the database, which fails for a driver that does not exist, for a
    request that exists already and for an identifier that is not one;
  \<^item> \<open>created\<close> is the snapshot of the creation event of a flow that creates
    a request;
  \<^item> \<open>flow_actions\<close> gives a flow as actions of the system of invocations:
    the write, followed by the creation event if there is one, before which
    the platform loads the module if it is not loaded (a cold start); a flow
    whose write fails does nothing. \<open>perform\<close> runs these actions.

  The lemmas show that the flows keep every collection ordered, that only a
  change of the drivers collection changes whom the handler addresses, how
  the result of the query of lines 11 to 14 changes with a change of
  availability, and that a created request always gets past the guard of
  line 9 and is served with the drivers that were available before it was
  written.
\<close>

section \<open>The flows\<close>

datatype flow =
    PutDriver string fields
  | SetAvailability string bool
  | SetToken string jsval
  | RemoveDriver string
  | CreateRequest string fields

definition valid_id :: "string \<Rightarrow> bool" where
  "valid_id i \<longleftrightarrow> i \<noteq> [] \<and> separator \<notin> set i"

fun write_of :: "flow \<Rightarrow> database \<Rightarrow> database option" where
  "write_of (PutDriver i fs) db = (if valid_id i then Some (set_doc ''drivers'' i fs db) else None)"
| "write_of (SetAvailability i b) db = update_doc ''drivers'' i [(''isAvailable'', JBool b)] db"
| "write_of (SetToken i tok) db = update_doc ''drivers'' i [(''fcmToken'', tok)] db"
| "write_of (RemoveDriver i) db = Some (delete_doc ''drivers'' i db)"
| "write_of (CreateRequest i fs) db =
     (if valid_id i \<and> get_doc i (db ''requests'') = None
      then Some (set_doc ''requests'' i fs db) else None)"

fun created :: "flow \<Rightarrow> snapshot option" where
  "created (CreateRequest i fs) = Some \<lparr>snap_path = ''requests/'' @ i, snap_fields = Some fs\<rparr>"
| "created f = None"

definition flow_actions :: "bool \<Rightarrow> database \<Rightarrow> flow \<Rightarrow> action list" where
  "flow_actions up db f =
     (case write_of f db of
        None \<Rightarrow> []
      | Some db' \<Rightarrow> Write db' #
          (case created f of
             None \<Rightarrow> []
           | Some snap \<Rightarrow> (if up then [] else [Load]) @ [Trigger snap]))"

definition perform :: "system \<Rightarrow> flow \<Rightarrow> system option" where
  "perform s f = run s (flow_actions (loaded s) (store s) f)"

section \<open>A roster of drivers\<close>

text \<open>
  The drivers of the example of the handler theory as the service keeps
  them, in the order of their identifiers: A and B are available and have a
  token, C is available and has none, D has a token and is not available.
\<close>

definition roster :: database where
  "roster = (\<lambda>path. if path = ''drivers'' then [driver_A, driver_B, driver_C, driver_D] else [])"

section \<open>What a flow writes\<close>

lemma write_of_ordered:
  "write_of f db = Some db' \<Longrightarrow> ordered (db c) \<Longrightarrow> ordered (db' c)"
  by (cases f)
    (auto simp: ordered_set_doc ordered_delete_doc split: if_splits dest: ordered_update_doc)

lemma update_doc_other:
  "update_doc coll i changes db = Some db' \<Longrightarrow> c \<noteq> coll \<Longrightarrow> db' c = db c"
  by (auto simp: update_doc_Some_iff set_doc_apply)

fun_cases write_of_CreateRequestE: "write_of (CreateRequest i fs) db = Some db'"
  and created_SomeE: "created f = Some snap"

lemma write_of_drivers:
  "write_of (CreateRequest i fs) db = Some db' \<Longrightarrow> db' ''drivers'' = db ''drivers''"
  by (erule write_of_CreateRequestE) (auto simp: set_doc_apply split: if_splits)

lemma write_of_requests:
  "write_of f db = Some db' \<Longrightarrow> created f = None \<Longrightarrow> db' ''requests'' = db ''requests''"
  by (cases f) (auto simp: set_doc_apply delete_doc_apply update_doc_Some_iff split: if_splits)

lemma valid_id_triggers: "valid_id i \<Longrightarrow> triggers (''requests/'' @ i)"
  unfolding valid_id_def triggers_iff by blast

section \<open>Availability and the result of the query\<close>

lemma is_available_update [simp]:
  "is_available (d\<lparr>doc_fields := AList.update ''isAvailable'' (JBool b) (doc_fields d)\<rparr>) \<longleftrightarrow> b"
  by (simp add: is_available_def matches_def update_conv')

lemma is_available_token_update [simp]:
  "is_available (d\<lparr>doc_fields := AList.update ''fcmToken'' tok (doc_fields d)\<rparr>)
     \<longleftrightarrow> is_available d"
  by (simp add: is_available_def matches_def update_conv')

lemma fcmToken_update [simp]:
  "fcmToken (d\<lparr>doc_fields := AList.update ''fcmToken'' tok (doc_fields d)\<rparr>) = tok"
  "fcmToken (d\<lparr>doc_fields := AList.update ''isAvailable'' v (doc_fields d)\<rparr>) = fcmToken d"
  by (simp_all add: fcmToken_def doc_data_def get_field_update)

lemma available_drivers_set_doc:
  assumes "ordered (db ''drivers'')"
  shows "available_drivers (set_doc ''drivers'' i fs db)
    = (if is_available \<lparr>doc_id = i, doc_fields = fs\<rparr>
       then put_doc \<lparr>doc_id = i, doc_fields = fs\<rparr> (available_drivers db)
       else drop_doc i (available_drivers db))"
  using filter_put_doc [OF assms, of is_available "\<lparr>doc_id = i, doc_fields = fs\<rparr>"]
  by (simp add: available_drivers_eq set_doc_apply)

lemma available_drivers_availability:
  assumes "ordered (db ''drivers'')" and "get_doc i (db ''drivers'') = Some d"
  shows "write_of (SetAvailability i b) db
      = Some (set_doc ''drivers'' i (AList.update ''isAvailable'' (JBool b) (doc_fields d)) db)
    \<and> available_drivers
        (set_doc ''drivers'' i (AList.update ''isAvailable'' (JBool b) (doc_fields d)) db)
      = (if b
         then put_doc (d\<lparr>doc_fields := AList.update ''isAvailable'' (JBool b) (doc_fields d)\<rparr>)
           (available_drivers db)
         else drop_doc i (available_drivers db))"
proof -
  from assms(2) have i: "i = doc_id d"
    by (blast dest: get_doc_Some)
  have written: "\<lparr>doc_id = doc_id d, doc_fields = fs\<rparr> = d\<lparr>doc_fields := fs\<rparr>" for fs
    by (cases d) simp
  from assms show ?thesis
    unfolding i by (simp add: update_doc_def available_drivers_set_doc written)
qed

text \<open>
  The other writes of the driver-management flow: a removed driver leaves the
  result of the query, and a new token changes the result only if the
  driver is available.
\<close>

lemma available_drivers_delete:
  "ordered (db ''drivers'')
    \<Longrightarrow> available_drivers (delete_doc ''drivers'' i db) = drop_doc i (available_drivers db)"
  by (simp add: available_drivers_eq delete_doc_apply filter_drop_doc)

lemma available_drivers_token:
  assumes "ordered (db ''drivers'')" and "get_doc i (db ''drivers'') = Some d"
  shows "write_of (SetToken i tok) db
      = Some (set_doc ''drivers'' i (AList.update ''fcmToken'' tok (doc_fields d)) db)
    \<and> available_drivers
        (set_doc ''drivers'' i (AList.update ''fcmToken'' tok (doc_fields d)) db)
      = (if is_available d
         then put_doc (d\<lparr>doc_fields := AList.update ''fcmToken'' tok (doc_fields d)\<rparr>)
           (available_drivers db)
         else available_drivers db)"
proof -
  from assms(2) have i: "i = doc_id d" and d: "d \<in> set (db ''drivers'')"
    by (blast dest: get_doc_Some)+
  have written: "\<lparr>doc_id = doc_id d, doc_fields = fs\<rparr> = d\<lparr>doc_fields := fs\<rparr>" for fs
    by (cases d) simp
  have "drop_doc (doc_id d) (available_drivers db) = available_drivers db" if "\<not> is_available d"
    using that ordered_unique [OF assms(1) d]
    by (intro drop_doc_absent) (auto simp: available_drivers_eq)
  with assms show ?thesis
    unfolding i by (simp add: update_doc_def available_drivers_set_doc written)
qed

section \<open>Only the drivers collection matters to the handler\<close>

lemma available_tokens_cong:
  "db' ''drivers'' = db ''drivers'' \<Longrightarrow> available_tokens db' = available_tokens db"
  by (simp add: available_tokens_eq)




section \<open>A created request\<close>

lemma perform_CreateRequest:
  assumes "valid_id i" and "get_doc i (store s ''requests'') = None"
  shows "perform s (CreateRequest i fs)
    = Some (s\<lparr>loaded := True, store := set_doc ''requests'' i fs (store s),
              pcs := pcs s @ [Started \<lparr>snap_path = ''requests/'' @ i, snap_fields = Some fs\<rparr>]\<rparr>)"
  using assms by (simp add: perform_def flow_actions_def valid_id_triggers [simplified])

lemma invoke_fresh:
  assumes "pc_at s n = Some (Started snap)" and "truthy (data snap)" and "loaded s"
    and "calls_of n s = []"
  shows "\<exists>s'. invoke pf n s = Some s' \<and> store s' = store s
    \<and> queried (calls_of n s') = [drivers_query]
    \<and> sent (calls_of n s')
      = (if get_fault pf drivers_query \<noteq> None \<or> available_tokens (store s) = [] then []
         else [build_message (available_tokens (store s))])"
  using assms(2-4)
  by (simp add: invoke_Started [OF assms(1)] Let_def split: option.splits sum.splits)


lemma perform_store:
  "perform s f = Some s' \<Longrightarrow> write_of f (store s) = Some db \<Longrightarrow> store s' = db"
  by (cases "created f")
    (auto simp: perform_def flow_actions_def split: bind_splits if_splits elim!: created_SomeE)

lemma perform_failed_write: "write_of f (store s) = None \<Longrightarrow> perform s f = Some s"
  by (simp add: perform_def flow_actions_def)

lemma perform_ordered:
  assumes "perform s f = Some s'" and "ordered (store s c)"
  shows "ordered (store s' c)"
proof (cases "write_of f (store s)")
  case None
  with assms show ?thesis by (simp add: perform_failed_write)
next
  case (Some db)
  with assms show ?thesis
    by (auto simp: perform_store dest: write_of_ordered)
qed

section \<open>The roster, evaluated\<close>

lemma roster_ordered: "ordered (roster c)"
  by (simp add: roster_def ordered_def example_defs)


text \<open>
  C22. Whom the handler addresses follows the availability flag that the
  driver-management flow writes. On a drivers collection kept in the order of
  the identifiers, a change of the flag of a driver succeeds, keeps the
  collection ordered, and changes the result of the query of lines 11 to 14
  at that driver only: with the flag set the driver is in the result, at the
  place of the identifier and with the fields as written; with the flag
  cleared the driver is not in it.
\<close>

theorem availability_decides_notification:
  assumes "ordered (db ''drivers'')" and "get_doc i (db ''drivers'') = Some d"
  shows "\<exists>db'. write_of (SetAvailability i b) db = Some db' \<and> ordered (db' ''drivers'')
    \<and> available_drivers db'
      = (if b
         then put_doc (d\<lparr>doc_fields := AList.update ''isAvailable'' (JBool b) (doc_fields d)\<rparr>)
           (available_drivers db)
         else drop_doc i (available_drivers db))"
  using available_drivers_availability [of db i d b] assms
  by (auto simp: ordered_set_doc)

theorem availability_decides_notification_witness:
  "ordered (roster ''drivers'') \<and> get_doc ''driverD'' (roster ''drivers'') = Some driver_D
   \<and> (\<exists>db'. write_of (SetAvailability ''driverD'' True) roster = Some db'
        \<and> available_tokens db' = [JStr ''A'', JStr ''B'', JStr ''D''])"
proof -
  have d: "get_doc ''driverD'' (roster ''drivers'') = Some driver_D"
    by (simp add: roster_def example_defs)
  from availability_decides_notification [of roster "''driverD''" driver_D True] d roster_ordered
  obtain db' where "write_of (SetAvailability ''driverD'' True) roster = Some db'"
    and "available_drivers db'
      = put_doc (driver_D\<lparr>doc_fields :=
          AList.update ''isAvailable'' (JBool True) (doc_fields driver_D)\<rparr>)
        (available_drivers roster)"
    by auto
  moreover have "available_drivers roster = [driver_A, driver_B, driver_C]"
    by (simp add: available_drivers_eq roster_def is_available_def matches_def example_defs)
  ultimately have "write_of (SetAvailability ''driverD'' True) roster = Some db'
      \<and> available_tokens db' = [JStr ''A'', JStr ''B'', JStr ''D'']"
    by (simp add: available_tokens_def fcmToken_def doc_data_def get_field_def example_defs)
  with d roster_ordered show ?thesis by blast
qed

text \<open>
  C20. A created request is always served. When the requester-facing flow
  creates a request under a fresh identifier, the write and the creation
  event go through, after a load of the module if it was not loaded, and
  the invocation that the event starts, run to its end, gets past the guard of line 9 whatever the fields
  of the request, none included, makes the query once and, unless the query
  fails or no available driver has a token, sends one message to the tokens
  of the drivers that were available before the request was written: the
  write of the request changes nothing of what the query returns.
\<close>

theorem created_request_is_served:
  assumes "reachable s" and "valid_id i" and "get_doc i (store s ''requests'') = None"
  shows "\<exists>s1 s'. perform s (CreateRequest i fs) = Some s1
    \<and> invoke pf (length (pcs s)) s1 = Some s'
    \<and> store s' = set_doc ''requests'' i fs (store s)
    \<and> queried (calls_of (length (pcs s)) s') = [drivers_query]
    \<and> sent (calls_of (length (pcs s)) s')
      = (if get_fault pf drivers_query \<noteq> None \<or> available_tokens (store s) = [] then []
         else [build_message (available_tokens (store s))])"
proof -
  define snap where "snap = \<lparr>snap_path = ''requests/'' @ i, snap_fields = Some fs\<rparr>"
  define s1 where
    "s1 = s\<lparr>loaded := True, store := set_doc ''requests'' i fs (store s),
        pcs := pcs s @ [Started snap]\<rparr>"
  have "perform s (CreateRequest i fs) = Some s1"
    unfolding s1_def snap_def using assms(2,3) by (rule perform_CreateRequest)
  moreover have "available_tokens (store s1) = available_tokens (store s)"
    by (rule available_tokens_cong) (simp add: s1_def set_doc_apply)
  moreover have "calls_of (length (pcs s)) s1 = []"
    using calls_of_fresh [OF reachable_ok [OF assms(1)], of "length (pcs s)"]
    by (simp add: calls_of_def s1_def)
  moreover have "pc_at s1 (length (pcs s)) = Some (Started snap)" and "loaded s1"
    and "truthy (data snap)" and "store s1 = set_doc ''requests'' i fs (store s)"
    by (simp_all add: s1_def pc_at_def snap_def truthy_data_iff)
  ultimately show ?thesis
    using invoke_fresh [of s1 "length (pcs s)" snap pf] by auto
qed

theorem created_request_is_served_witness:
  "reachable example_started \<and> valid_id ''r2''
   \<and> get_doc ''r2'' (store example_started ''requests'') = None
   \<and> (\<exists>s1 s'. perform example_started (CreateRequest ''r2'' []) = Some s1
        \<and> invoke example_platform (Suc 0) s1 = Some s'
        \<and> queried (calls_of (Suc 0) s') = [drivers_query]
        \<and> sent (calls_of (Suc 0) s') = [build_message [JStr ''A'', JStr ''B'']])"
proof -
  have "valid_id ''r2''"
    and "get_doc ''r2'' (store example_started ''requests'') = None"
    and "length (pcs example_started) = Suc 0"
    and "available_tokens (store example_started) = [JStr ''A'', JStr ''B'']"
    by (simp_all add: example_started_def example_db_def valid_id_def separator_def
        example_tokens [unfolded example_db_def])
  with created_request_is_served [of example_started "''r2''" "[]" example_platform]
    example_reachable(1) show ?thesis
    by (simp add: example_ready) blast
qed





end
