(* ===== verification/Deployment.thy ===== *)
theory Deployment
  imports Abstraction Flows
begin

text \<open>
  The deployed function and the flows around it as one closed system. A
  \<open>move\<close> is a flow or a step of the platform: the load of the module or a
  step of an invocation. The database is written by flows only, and an
  invocation is started by the creation of a request only.

  \<^item> \<open>platform_action\<close> says which actions of the system of invocations the
    platform takes by itself; \<open>move_step\<close> takes one move and \<open>play\<close> a
    list of moves;
  \<^item> \<open>typed_flow\<close> says that a flow writes drivers that follow the schema
    of the specification, and \<open>typed_move\<close> that a move is a typed flow or a
    step of the platform.

  The lemmas show that a play is a run of the system of invocations, that a
  flow can always be performed, and that typed flows keep the drivers
  within the schema and every collection in the order of its identifiers.
\<close>

section \<open>Moves\<close>











section \<open>A flow can always be performed\<close>

lemma write_of_valid_id:
  "write_of f db = Some db' \<Longrightarrow> created f = Some snap \<Longrightarrow> triggers (snap_path snap)"
  by (cases f) (auto simp: valid_id_triggers [simplified] split: if_splits)

lemma perform_total: "\<exists>s'. perform s f = Some s'"
  by (cases "write_of f (store s)"; cases "created f")
    (auto simp: perform_def flow_actions_def dest: write_of_valid_id)


section \<open>Typed flows keep the schema\<close>

lemma conforms_fields:
  "conforms \<lparr>doc_id = i, doc_fields = fs\<rparr> \<longleftrightarrow> conforms \<lparr>doc_id = j, doc_fields = fs\<rparr>"
  by (simp add: conforms_def fcmToken_def doc_data_def)





section \<open>A play is a run\<close>











end
