(* ===== verification/Spec2Isabelle.thy ===== *)
theory Spec2Isabelle
  imports Abstraction Hosting Deployment
begin

text \<open>
  \<^bold>\<open>A verification development for the ambulance request notifier.\<close>

  The repository is one cloud function, \<^verbatim>\<open>src/functions/index.js\<close>. When a
  document is created under \<^verbatim>\<open>requests/{requestId}\<close>, the platform calls the
  handler \<^verbatim>\<open>sendDriverNotification\<close> with a snapshot of the document. The
  handler returns at once if the snapshot has no data; otherwise it queries
  the \<^verbatim>\<open>drivers\<close> collection for the documents whose \<^verbatim>\<open>isAvailable\<close> is
  \<^verbatim>\<open>true\<close>, collects their truthy \<^verbatim>\<open>fcmToken\<close> values in order, returns if
  there is none, and otherwise sends one multicast message with a fixed title
  and body to these tokens and logs the success count of the response. It
  catches nothing: a failure of the query or of the send rejects the
  invocation.

  \<^bold>\<open>The theories, in the order they build on each other.\<close>

  \<^descr>[\<open>Notifier_Prelude\<close>] The theorem collections (\<open>model_defs\<close>,
  \<open>promise_simps\<close>, \<open>frame_rules\<close>) and the list facts the proofs share: a
  fold that appends the selected elements is a filter of a map; selections
  keep order, multiplicity and size; the entries of a keyed list are counted
  key by key.

  \<^descr>[\<open>JS_Value\<close>] The values of the language (\<open>jsval\<close>) and the implicit
  conversions the source relies on: \<open>truthy\<close> (lines 9 and 20), the property
  read \<open>get_field\<close> (line 20), \<open>push\<close> (line 20) and \<open>number_toString\<close> for the
  template literal of line 34, with its inverse \<open>parse_number\<close>.

  \<^descr>[\<open>Async\<close>] The \<^verbatim>\<open>async\<close> function and its \<^verbatim>\<open>await\<close>s (lines 7, 11, 33):
  a computation takes a world and returns how it settled, \<open>Inl\<close> of an error
  or \<open>Inr\<close> of a value, with the world it left. \<open>await\<close> passes a rejection on.
  \<open>preserves\<close> lifts a reflexive and transitive relation on worlds along
  \<open>await\<close>.

  \<^descr>[\<open>Firestore\<close>] Documents, the trigger's \<open>snapshot\<close> with \<open>data\<close> (line 8),
  queries built by \<open>collection\<close> and \<open>where_eq\<close> (lines 11 to 13) and their
  result \<open>run_query\<close> on a database (line 14); soundness, completeness and
  order of the result; well-formed collections.

  \<^descr>[\<open>Messaging\<close>] The records of the message literal (lines 25 to 31) and of
  the response (lines 33 and 34); \<open>well_addressed\<close>, what the push service
  expects of a message.

  \<^descr>[\<open>Platform\<close>] The \<open>world\<close> (whether the app exists, the database, the
  trace of calls), the \<open>platform\<close> that fixes the answers of the services for
  a run, and the calls \<open>initializeApp\<close> (line 3), \<open>firestore_get\<close> (lines 11
  to 14), \<open>sendMulticast\<close> (line 33), \<open>console_log\<close> (line 34), each with its
  frame rules.

  \<^descr>[\<open>Trigger\<close>] The registration of lines 5 to 7: the path pattern
  \<open>trigger_pattern\<close> of line 6, split into segments (\<open>split_path\<close>) of which
  one is a wildcard (\<open>parse_pattern\<close>), the matching of a document path
  against it (\<open>match_path\<close>), and the dispatch \<open>on_create\<close> of a creation
  event to the handler with the snapshot and \<^verbatim>\<open>context.params\<close>. Its lemmas
  show that matching and instantiating a pattern are inverse and that the
  handler is called exactly for the documents directly under \<^verbatim>\<open>requests\<close>.

  \<^descr>[\<open>Notifier\<close>] The handler (lines 5 to 35): \<open>drivers_query\<close>, \<open>push_token\<close>
  and \<open>collect_tokens\<close> for the loop, \<open>build_message\<close>, \<open>log_line\<close>,
  \<open>sendDriverNotification\<close>. Its lemmas give the loop as a filter of a map and
  the run on each of its six paths; its theorems are the properties of one
  invocation: what is sent and to whom, what is logged, what is untouched,
  how it fails.

  \<^descr>[\<open>Program\<close>] The body of the handler once more, as a tree of the calls
  it makes (\<open>prog\<close>): \<open>handler_program\<close> (lines 8 to 14) awaits the query and
  continues with \<open>after_query\<close> (lines 16 to 33), which awaits the send and
  continues with \<open>after_send\<close> (line 34). Three semantics of programs are
  given and shown to agree on every program: \<open>exec\<close> as a promise,
  \<open>behaviour\<close> as the outcome and the list of calls, and \<open>drive\<close>, which
  starts a \<open>task\<close> and delivers the answers of the awaited calls one by one
  (\<open>proceed\<close>, \<open>task_step\<close>). The program of the handler run as a promise is
  \<open>sendDriverNotification\<close>.

  \<^descr>[\<open>Runtime\<close>] The platform that hosts a module, for any module: the
  \<open>registration\<close> that \<^verbatim>\<open>document(...).onCreate(...)\<close> returns, the \<open>dispatch\<close> of
  a created document to the exports whose pattern matches, and the \<open>runtime\<close>
  with its steps \<open>rt_step\<close> (load the module, a created document, a write, the
  delivery of an answer to a task). Its invariant \<open>rt_ok\<close> holds along every
  run, a task that has not settled can always take the step the platform
  answers with, a settled task stays settled, and tasks share nothing but
  the database: what becomes of a task in a run is what its \<open>own_events\<close>
  make of it (\<open>rt_run_own\<close>).

  \<^descr>[\<open>Module\<close>] What runs when the file is loaded (lines 1 to 7):
  \<open>require\<close> of the two packages, \<open>initializeApp\<close>, and the export of the
  registration, together \<open>load_module\<close>. Its lemmas give the load on each of
  its paths, the tasks that a created document starts on the loaded module,
  and that a module deployed without a package never starts one.

  \<^descr>[\<open>Invocations\<close>] Many invocations at once. The body of the handler is
  cut at its two \<^verbatim>\<open>await\<close>s into \<open>begins\<close> (lines 8 to 14), \<open>query_settles\<close>
  (lines 16 to 33) and \<open>send_settles\<close> (line 34); a \<open>system\<close> holds the
  database, the place \<open>pc\<close> of every invocation and the \<open>journal\<close> of calls
  with their invocation; \<open>step\<close> takes one \<open>action\<close> (the load of the
  module, a trigger, a write by another flow, a step of one invocation), and
  \<open>transition\<close> is the same relation by rules. The invariant \<open>system_ok\<close>
  ties the calls of each invocation to its place; it holds in every
  \<open>reachable\<close> system by rule induction, and gives: at most one query, send
  and log per invocation, only well-built messages, at most as many sends as
  requests. Further: a step of one invocation touches nothing of another, an
  invocation takes at most three steps and can always take the next one, and
  an invocation that runs alone (\<open>invoke\<close>) is the handler of \<open>Notifier\<close>.

  \<^descr>[\<open>Interleaving\<close>] \<open>react\<close> is the step of the handler as a function of
  what it reads; \<open>step\<close> is \<open>react\<close> put into the system (\<open>step_react\<close>),
  from which steps of different invocations commute, and a write commutes
  with every step but the one that answers the query, and with that one too
  when it leaves the drivers collection as it was. A creation event that
  is delivered again (\<open>served\<close>) is served again: the handler is not
  idempotent.

  \<^descr>[\<open>Schedule\<close>] Running a system to its end: \<open>schedule\<close> lets the first
  invocation that has not settled take its next step with the answer of the
  platform, until none is left. It is a \<open>function\<close> whose termination is
  proved with the measure \<open>work\<close>, the sum of the steps that the invocations
  can still take. The schedule is a run of the system that settles every
  invocation in at most three steps each.

  \<^descr>[\<open>Hosting\<close>] The system of \<open>Invocations\<close> is the runtime of \<open>Runtime\<close>
  hosting the module of \<open>Module\<close>. \<open>task_of\<close> reads a place of the handler as
  the rest of its program and \<open>runtime_of\<close> a system as a runtime. The step
  \<open>react\<close>, cut by hand, is \<open>task_step\<close> on the program of the handler
  (\<open>react_task_step\<close>); every run of the system is a run of the runtime, and
  a step that only the runtime takes changes nothing. Through this the
  system inherits what holds of every runtime: invocations are independent
  of each other (\<open>invocations_are_independent\<close>).

  \<^descr>[\<open>Writes\<close>] The writes that the flows outside the repository make to
  the database, modelled from what the specification says of these flows and
  of the two collections: a collection is kept in the order of the
  identifiers of its documents (\<open>ordered\<close>); \<open>put_doc\<close>, \<open>drop_doc\<close> and
  \<open>get_doc\<close> write, delete and read a document by its identifier;
  \<open>set_doc\<close>, \<open>update_doc\<close> and \<open>delete_doc\<close> are the writes on a database,
  of which \<open>update_doc\<close> changes the named fields of an existing document
  (\<open>update_fields\<close>). Its lemmas show that the writes keep a collection
  ordered and well formed, what a read returns after a write, and how a
  filter of the collection, such as the query of lines 11 to 14, changes
  with a write (\<open>filter_put_doc\<close>, \<open>filter_drop_doc\<close>).

  \<^descr>[\<open>Flows\<close>] The flows that the specification names around the handler,
  put together with it: a \<open>flow\<close> registers or removes a driver, sets the
  \<^verbatim>\<open>isAvailable\<close> flag or the \<^verbatim>\<open>fcmToken\<close> of a driver, or creates a
  request; \<open>write_of\<close> is its write, \<open>created\<close> the snapshot of the creation
  event, \<open>flow_actions\<close> the flow as actions of the system of \<open>Invocations\<close>,
  with a load of the module before an event that finds it not loaded, and
  \<open>perform\<close> their run. Its theorems show how the result of the query
  follows the flag that the driver flow writes, that the tokens of a message
  are in the order of the identifiers of their drivers, that a created
  request is always served, with the drivers as they were before it was
  written, and that a driver withdrawn before the query is answered is not
  addressed.

  \<^descr>[\<open>Deployment\<close>] The function and its flows as one closed system: a
  \<open>move\<close> is a flow or a step that the platform takes by itself
  (\<open>platform_action\<close>), \<open>move_step\<close> takes one move and \<open>play\<close> a list of
  them, and \<open>play_actions\<close> gives the actions of a play. \<open>typed_flow\<close> says
  that a flow writes within the schema of the driver records. Its lemmas
  show that a flow can always be performed, that a play is a run of the
  system of \<open>Invocations\<close>, and that typed flows keep the drivers within the
  schema and every collection ordered (\<open>tidy\<close>); its theorem is the
  refinement of the contract by every play from the start, in which nothing
  is assumed of the database.

  \<^descr>[\<open>Contract\<close>] What the specification promises, modelled from the
  specification and not from the code: typed driver records, the contract
  \<open>notifier_spec\<close> of one invocation, and the contract for many requests as
  a machine (\<open>spec_step\<close>, \<open>spec_run\<close>) whose requests are served
  independently; serving one request on the machine gives the result of the
  contract.

  \<^descr>[\<open>Abstraction\<close>] The model of the code read in the terms of the
  contract: \<open>abs_driver\<close> on documents that follow the schema (\<open>conforms\<close>),
  \<open>observe\<close> on a run of the handler, \<open>abs_system\<close> and \<open>abs_action\<close> on the
  system of invocations, and the lemmas of the two refinement proofs, one on
  the tokens (\<open>tokens_refine\<close>) and one on the step of the handler seen from
  the invocation (\<open>react_refines\<close>), carried to runs by the invariants
  \<open>system_ok\<close> and \<open>typed\<close>.

  \<^descr>[\<open>Spec2Isabelle\<close>] This theory, the properties that span the
  components: the handler implements the contract on collections that follow
  the driver schema; what it sends on such collections and on a document
  that does not follow the schema; every run of the system of invocations
  is a run of the machine of the contract; an invocation that runs alone
  serves its request as the contract says.

  \<^bold>\<open>How state and effects correspond to the code.\<close> The handler keeps no
  state. What it reads is the database; what it does is call services. The
  model records every call in the \<open>trace\<close> of the world, in order, so that
  "no send call is invoked" is \<open>sent (new_effects \<dots>) = []\<close> and "exactly once"
  is a trace with one \<open>SendMulticast\<close>. The answers of the services are the
  parameter \<open>pf\<close> of the handler, over which every theorem is universally
  quantified. Errors are values: a rejected invocation is \<open>Inl e\<close>.

  In \<open>Notifier\<close> one invocation runs from start to end in one world, and the
  query reads the database of that world. In \<open>Invocations\<close> the same code runs
  in steps: a call is journalled when the handler makes it, the answer comes
  with the next step of the invocation, and the query is answered from the
  database as it is at that step, so that a write between the two is seen.
  The world of \<open>Notifier\<close> is the view \<open>world_of\<close> of a system, and the two
  models agree on an invocation that is not interleaved.

  The handler is thus modelled three times, each time from the source: as a
  function on worlds (\<open>sendDriverNotification\<close>), as the three pieces between
  its suspension points (\<open>begins\<close>, \<open>query_settles\<close>, \<open>send_settles\<close>, and
  \<open>react\<close>), and as a program (\<open>handler_program\<close>). The first is what the
  properties of one invocation are proved of, the second what the
  invariants of the system are proved of by rule induction, and the third
  what a runtime that knows nothing of the handler executes. They are tied
  together by \<open>invocation_runs_handler\<close>, \<open>step_react\<close>, \<open>program_is_handler\<close>
  and \<open>react_is_task_step\<close>, so that a property proved of one holds of the
  others.

  \<^bold>\<open>Bounds.\<close> The only loop is \<^verbatim>\<open>forEach\<close> over the query result, a fold over
  a finite list: no fuel is needed there and every definition is total and
  executable. Counts are natural numbers; \<open>number_toString\<close> is exact for the
  counts that can occur (at most the number of tokens of a message). \<open>invoke\<close>
  runs an invocation with three steps of fuel: the handler has two suspension
  points, \<open>remaining\<close> is at most three and falls with every step, so three
  steps settle every invocation. The number of invocations and the length of
  a run of the system are unbounded; \<open>schedule\<close> needs no fuel, since its
  termination is proved, and it is at most three times as long as there are
  invocations. \<open>drive\<close> runs a task with fuel, one unit per delivery. A
  program is a tree that may branch on every answer, so no bound holds for
  all programs; \<open>awaits\<close> counts the awaited calls of the run that a platform
  and a database determine, \<open>drive\<close> settles the task exactly when its fuel
  exceeds that count (\<open>drive_Fresh_None_iff\<close>), and for the program of the
  handler the count is at most two, so that fuel three is enough.

  In \<open>Flows\<close> the database of a system is written by typed flows instead of
  being replaced as a whole: the action \<open>Write\<close> of \<open>Invocations\<close> carries the
  database that \<open>write_of\<close> returns, and the creation of a request is that
  write followed by the action \<open>Trigger\<close> with the snapshot of the written
  document. The theorems of \<open>Invocations\<close> hold for every write and so for
  these; the theorems of \<open>Flows\<close> say what the handler does after them. In
  \<open>Deployment\<close> nothing else writes the database or starts an invocation,
  so that the schema and the order of the collections, which the theorems
  of the other theories assume of a database, hold of every database that
  is reached.

  \<^bold>\<open>Not modelled.\<close> The flows that write the two collections are not part of
  the repository: \<open>Writes\<close> and \<open>Flows\<close> model the writes that the
  specification attributes to them, one document at a time, and not their
  code, their transactions or their security rules. The platform delivers a
  creation event at least once and may delay it: in \<open>Invocations\<close> the action
  \<open>Trigger\<close> starts an invocation for a matching path at any moment after
  the module is loaded, with or without a write of the \<^verbatim>\<open>requests\<close>
  collection, which the handler never reads. A retry of a rejected
  invocation is a further \<open>Trigger\<close> with the same snapshot; when and how
  often the platform retries is not modelled. Queries have equality clauses
  only, the one operator that the source uses; ordering clauses, limits and
  other operators are not modelled. The delivery of a message to devices and the deadline of an
  invocation are the platform's. Numbers
  other than integers and \<^verbatim>\<open>NaN\<close> are not values of the model (they are
  truthy like a non-zero integer). The implementation of the two SDK modules is not part of the
  repository; their observable behaviour is the \<open>platform\<close> parameter, and
  \<open>require\<close> stands for a loaded package by its name. The runtime loads a
  module in one step: a load that itself awaits or calls a service is outside
  the model, and the file has none. The order in which the language runs
  the continuations of promises that settle together is not modelled; the
  runtime delivers one answer at a time in any order, which includes that
  order. The platform may run several instances of the module at once, each
  with its own app; the model has one instance. Invocations share nothing but
  the database (\<open>invocations_are_independent\<close>), so that which instance
  runs an invocation is not observable in the model.
\<close>

section \<open>The handler implements the contract\<close>

text \<open>
  C1. On a world where the app exists and every document of the drivers
  collection follows the schema, a run of the handler, read through
  \<open>observe\<close>, is the result that the contract of the specification gives for
  the presence of the payload, the fault of the query, the drivers read as
  typed records and the push service: the same case, the same recipients in
  the same order, the same error, the same logged count.
\<close>

theorem notifier_refines_spec:
  assumes "app_initialized w" and "list_all conforms (firestore w ''drivers'')"
  shows "observe (settled (sendDriverNotification pf snap ctx) w,
                  new_effects (sendDriverNotification pf snap ctx) w)
    = Some (notifier_spec (snap_fields snap \<noteq> None) (get_fault pf drivers_query)
              (map abs_driver (firestore w ''drivers'')) (abs_deliver pf))"
  using assms(1)
  by (simp add: run_simps notifier_spec_def Let_def truthy_data_iff abs_deliver_def
      available_tokens_refine [of "firestore w", OF assms(2)] spec_message_build
      logged_count_log_line split: option.splits sum.splits)

theorem notifier_refines_spec_witness:
  "app_initialized example_world \<and> list_all conforms (firestore example_world ''drivers'')
   \<and> observe (settled (sendDriverNotification example_platform example_snapshot ()) example_world,
              new_effects (sendDriverNotification example_platform example_snapshot ()) example_world)
      = Some (Notified [''A'', ''B''] 2)"
proof -
  have "notifier_spec (snap_fields example_snapshot \<noteq> None)
          (get_fault example_platform drivers_query)
          (map abs_driver (firestore example_world ''drivers'')) (abs_deliver example_platform)
        = Notified [''A'', ''B''] 2"
    by (simp add: notifier_spec_def abs_deliver_def example_defs recipient_abs_driver
        is_available_iff fcmToken_def doc_data_def build_message_def)
  with notifier_refines_spec [OF example_ready(2) example_conforms,
      of example_platform example_snapshot "()"] example_conforms
  show ?thesis
    by (simp add: example_ready)
qed

section \<open>Messages on conforming and on other collections\<close>

text \<open>
  C39. If every document of the drivers collection follows the schema, every
  message the handler sends is well addressed: its token list is not empty
  and holds non-empty strings only.
\<close>

theorem notify_well_addressed:
  assumes "list_all conforms (firestore w ''drivers'')"
  shows "list_all well_addressed (sent (new_effects (sendDriverNotification pf snap ctx) w))"
proof -
  have "well_addressed (build_message (available_tokens (firestore w)))"
    if "available_tokens (firestore w) \<noteq> []"
    using that assms
    by (intro well_addressedI)
      (simp_all add: build_message_def available_tokens_strings available_tokens_truthy)
  then show ?thesis
    by (simp add: new_effects_run split: sum.splits)
qed

theorem notify_well_addressed_witness:
  "list_all conforms (firestore example_world ''drivers'')
   \<and> list_all well_addressed
       (sent (new_effects (sendDriverNotification example_platform example_snapshot ()) example_world))"
  using notify_well_addressed [of example_world example_platform example_snapshot "()"]
  by (simp add: example_conforms)


section \<open>The logged count\<close>

text \<open>
  If the push service never reports more successes than the message has
  tokens, every count the handler logs is at most the number of documents of
  the drivers collection.
\<close>

theorem notify_logged_count_bounded:
  assumes "counts_at_most_sent pf"
  shows "list_all (\<lambda>line. \<exists>n. logged_count line = Some n \<and> n \<le> length (firestore w ''drivers''))
     (logged (new_effects (sendDriverNotification pf snap ctx) w))"
proof -
  have "successCount r \<le> length (firestore w ''drivers'')"
    if "multicast pf (build_message (available_tokens (firestore w))) = Inr r" for r
  proof -
    from assms that have "successCount r \<le> length (available_tokens (firestore w))"
      by (auto simp: counts_at_most_sent_def build_message_def dest!: spec)
    also have "\<dots> \<le> length (firestore w ''drivers'')"
      by (rule length_available_tokens_le)
    finally show ?thesis .
  qed
  then show ?thesis
    by (simp add: new_effects_run logged_count_log_line split: sum.splits)
qed

theorem notify_logged_count_bounded_witness:
  "counts_at_most_sent example_platform
   \<and> list_all (\<lambda>line. \<exists>n. logged_count line = Some n \<and> n \<le> length (firestore example_world ''drivers''))
       (logged (new_effects (sendDriverNotification example_platform example_snapshot ()) example_world))"
proof -
  have "counts_at_most_sent example_platform"
    by (auto simp: counts_at_most_sent_def example_ready)
  with notify_logged_count_bounded [of example_platform example_world example_snapshot "()"]
  show ?thesis
    by simp
qed

section \<open>The system of invocations implements the machine of the contract\<close>

text \<open>
  C11. The system of invocations implements the machine of the contract.
  Along every run from the start in which the writes to the database leave
  drivers that follow the schema, the machine of the contract takes the
  corresponding steps, and the state read off the system (the drivers as
  typed records, the place and the calls of every invocation as the state
  and the result of its request) is the state that the machine reaches.
\<close>

theorem system_refines_spec:
  assumes "run init_system as = Some s" and "list_all conforming_action as"
  shows "spec_run spec_init (map abs_action as) = Some (abs_system s)"
  using run_refines [OF system_ok_init _ assms(2) assms(1)] by simp

theorem system_refines_spec_witness:
  "run init_system example_actions = Some example_final
   \<and> list_all conforming_action example_actions
   \<and> spec_run spec_init (map abs_action example_actions) = Some (abs_system example_final)
   \<and> requests (abs_system example_final) = [Finished (Notified [''A'', ''B''] 2)]"
proof -
  have conf: "list_all conforming_action example_actions"
    using example_conforms by (simp add: example_actions_def example_world_def)
  have "requests (abs_system example_final) = [Finished (Notified [''A'', ''B''] 2)]"
    by (simp add: abs_system_def example_final_def calls_of_def result_of_def
        spec_message_build [of "[''A'', ''B'']", simplified] logged_count_log_line)
  with system_refines_spec [OF example_actions_run conf] example_actions_run conf
  show ?thesis by simp
qed

section \<open>An invocation that runs alone serves its request as the contract says\<close>





end
